(* ===== verification/Js_Prelude.thy ===== *)
theory Js_Prelude
  imports
    Complex_Main
    "HOL-Library.List_Lexorder"
    "HOL-Library.Sublist"
begin

text \<open>
  The part of JavaScript the sources use, as values and total functions.

  \<^item> A string is the list of its UTF-16 code units (\<open>jsstr\<close>), so that \<open>length\<close>, \<open>slice\<close>,
    \<open>trim\<close>, \<open>split\<close> and the default sort order mean what they mean in the source. A
    literal is written \<open>js ''text''\<close>.
  \<^item> A number is NaN, an infinity or a finite rational (\<open>jsnum\<close>); a double is such a
    rational, and the sources modelled here compare and validate numbers and add small
    integers, so that no rounding is involved.
  \<^item> A value of type \<open>unknown\<close> (a parsed response, a stored object) is a \<open>jsval\<close>.
  \<^item> A thrown error is the left side of a sum.
\<close>

named_theorems js_defs \<open>type tests and property reads of JavaScript values\<close>
named_theorems js_num \<open>comparison and classification of JavaScript numbers\<close>

section \<open>Strings\<close>

type_synonym jsstr = "int list"

definition js :: "string \<Rightarrow> jsstr" where
  "js s = map of_char s"

text \<open>WhiteSpace and LineTerminator of ECMAScript: what \<open>trim\<close> removes and \<open>\s\<close> matches.\<close>

definition is_ws :: "int \<Rightarrow> bool" where
  "is_ws u \<longleftrightarrow> (9 \<le> u \<and> u \<le> 13) \<or> u = 32 \<or> u = 160 \<or> u = 0x1680 \<or> (0x2000 \<le> u \<and> u \<le> 0x200A)
     \<or> u = 0x2028 \<or> u = 0x2029 \<or> u = 0x202F \<or> u = 0x205F \<or> u = 0x3000 \<or> u = 0xFEFF"

definition trim :: "jsstr \<Rightarrow> jsstr" where
  "trim s = rev (dropWhile is_ws (rev (dropWhile is_ws s)))"

definition starts_with :: "jsstr \<Rightarrow> jsstr \<Rightarrow> bool" where
  "starts_with s p \<longleftrightarrow> prefix p s"

text \<open>\<open>s.split(c)\<close> for a separator of one code unit: never the empty list.\<close>

fun split_char :: "int \<Rightarrow> jsstr \<Rightarrow> jsstr list" where
  "split_char c [] = [[]]"
| "split_char c (x # xs) =
     (if x = c then [] # split_char c xs
      else case split_char c xs of [] \<Rightarrow> [[x]] | w # ws \<Rightarrow> (x # w) # ws)"

fun join :: "jsstr \<Rightarrow> jsstr list \<Rightarrow> jsstr" where
  "join sep [] = []"
| "join sep [w] = w"
| "join sep (w # v # ws) = w @ sep @ join sep (v # ws)"

text \<open>\<open>s.indexOf(p)\<close>: the first position at which \<open>p\<close> occurs; \<open>None\<close> for -1.\<close>

fun index_of :: "jsstr \<Rightarrow> jsstr \<Rightarrow> nat option" where
  "index_of p [] = (if p = [] then Some 0 else None)"
| "index_of p (x # xs) =
     (if prefix p (x # xs) then Some 0 else map_option Suc (index_of p xs))"

definition js_includes :: "jsstr \<Rightarrow> jsstr \<Rightarrow> bool" where
  "js_includes s p \<longleftrightarrow> index_of p s \<noteq> None"

text \<open>
  \<open>toLowerCase\<close> on ASCII letters and on the two other characters whose lower case contains an
  ASCII letter (U+0130 and the Kelvin sign), which makes every comparison of its result with
  an ASCII literal exact. Other characters are kept.
\<close>

fun lower_unit :: "int \<Rightarrow> jsstr" where
  "lower_unit u =
     (if 65 \<le> u \<and> u \<le> 90 then [u + 32]
      else if u = 0x130 then [0x69, 0x307]
      else if u = 0x212A then [0x6B]
      else [u])"

definition to_lower :: "jsstr \<Rightarrow> jsstr" where
  "to_lower s = concat (map lower_unit s)"

text \<open>\<open>Array.from(s).length\<close>: the number of code points, a surrogate pair being one.\<close>

fun code_points :: "jsstr \<Rightarrow> int" where
  "code_points [] = 0"
| "code_points [u] = 1"
| "code_points (u # v # s) =
     (if 0xD800 \<le> u \<and> u \<le> 0xDBFF \<and> 0xDC00 \<le> v \<and> v \<le> 0xDFFF
      then 1 + code_points s else 1 + code_points (v # s))"

text \<open>Decimal digits: the pattern \<open>\d+\<close>, \<open>Number.parseInt(s, 10)\<close> on it, and printing.\<close>

definition is_digit :: "int \<Rightarrow> bool" where
  "is_digit u \<longleftrightarrow> 48 \<le> u \<and> u \<le> 57"

definition digit_value :: "int \<Rightarrow> int" where
  "digit_value u = u - 48"

definition parse_digits :: "jsstr \<Rightarrow> int" where
  "parse_digits s = foldl (\<lambda>n u. 10 * n + digit_value u) 0 s"

function show_digits :: "int \<Rightarrow> jsstr" where
  "show_digits n = (if n < 10 then [n + 48] else show_digits (n div 10) @ [n mod 10 + 48])"
  by pat_completeness auto
termination
  by (relation "measure nat") auto

declare show_digits.simps [simp del]

definition show_int :: "int \<Rightarrow> jsstr" where
  "show_int n = (if n < 0 then 45 # show_digits (- n) else show_digits n)"

section \<open>Numbers\<close>

datatype jsnum = NaN | NegInf | PosInf | Fin rat

fun js_lt :: "jsnum \<Rightarrow> jsnum \<Rightarrow> bool" where
  "js_lt (Fin a) (Fin b) = (a < b)"
| "js_lt NegInf (Fin b) = True"
| "js_lt NegInf PosInf = True"
| "js_lt (Fin a) PosInf = True"
| "js_lt _ _ = False"

fun js_le :: "jsnum \<Rightarrow> jsnum \<Rightarrow> bool" where
  "js_le NaN y = False"
| "js_le x NaN = False"
| "js_le x y = (x = y \<or> js_lt x y)"

text \<open>\<open>x === y\<close> on numbers.\<close>

definition js_num_eq :: "jsnum \<Rightarrow> jsnum \<Rightarrow> bool" where
  "js_num_eq x y \<longleftrightarrow> x \<noteq> NaN \<and> x = y"

definition int_num :: "int \<Rightarrow> jsnum" where
  "int_num i = Fin (of_int i)"

fun is_finite_num :: "jsnum \<Rightarrow> bool" where
  "is_finite_num (Fin a) = True"
| "is_finite_num _ = False"

fun is_integer_num :: "jsnum \<Rightarrow> bool" where
  "is_integer_num (Fin a) = (of_int \<lfloor>a\<rfloor> = a)"
| "is_integer_num _ = False"

fun is_safe_integer_num :: "jsnum \<Rightarrow> bool" where
  "is_safe_integer_num (Fin a) = (of_int \<lfloor>a\<rfloor> = a \<and> \<bar>\<lfloor>a\<rfloor>\<bar> \<le> 2 ^ 53 - 1)"
| "is_safe_integer_num _ = False"

section \<open>Values\<close>

datatype jsval =
    JUndefined
  | JNull
  | JBool bool
  | JNum jsnum
  | JStr jsstr
  | JArr "jsval list"
  | JObj "(jsstr \<times> jsval) list"

fun is_str :: "jsval \<Rightarrow> bool" where
  "is_str (JStr s) = True"
| "is_str _ = False"

fun is_num :: "jsval \<Rightarrow> bool" where
  "is_num (JNum n) = True"
| "is_num _ = False"

fun is_bool :: "jsval \<Rightarrow> bool" where
  "is_bool (JBool b) = True"
| "is_bool _ = False"

fun is_array :: "jsval \<Rightarrow> bool" where
  "is_array (JArr vs) = True"
| "is_array _ = False"

text \<open>\<open>v !== null \<and> typeof v === 'object'\<close>: arrays are objects too.\<close>

fun is_record :: "jsval \<Rightarrow> bool" where
  "is_record (JArr vs) = True"
| "is_record (JObj ps) = True"
| "is_record _ = False"

text \<open>
  An object lists its own enumerable properties in the order \<open>Object.entries\<close> gives them, each
  key once. \<open>v.k\<close> reads a missing property as undefined, and an array has no named data
  property.
\<close>

definition jget :: "jsval \<Rightarrow> jsstr \<Rightarrow> jsval" where
  "jget v k = (case v of
     JObj ps \<Rightarrow> (case map_of ps k of Some w \<Rightarrow> w | None \<Rightarrow> JUndefined)
   | _ \<Rightarrow> JUndefined)"

fun truthy :: "jsval \<Rightarrow> bool" where
  "truthy JUndefined = False"
| "truthy JNull = False"
| "truthy (JBool b) = b"
| "truthy (JNum n) = (n \<noteq> NaN \<and> n \<noteq> Fin 0)"
| "truthy (JStr s) = (s \<noteq> [])"
| "truthy (JArr vs) = True"
| "truthy (JObj ps) = True"

text \<open>Reads of a value whose type has been tested.\<close>

fun str_of :: "jsval \<Rightarrow> jsstr" where
  "str_of (JStr s) = s"
| "str_of _ = []"

fun num_of :: "jsval \<Rightarrow> jsnum" where
  "num_of (JNum n) = n"
| "num_of _ = NaN"

fun bool_of :: "jsval \<Rightarrow> bool" where
  "bool_of (JBool b) = b"
| "bool_of _ = False"

fun items_of :: "jsval \<Rightarrow> jsval list" where
  "items_of (JArr vs) = vs"
| "items_of _ = []"

section \<open>Lists\<close>

text \<open>\<open>Array.from(new Set(xs))\<close>: the first occurrence of every element, in order.\<close>

definition js_uniq :: "'a list \<Rightarrow> 'a list" where
  "js_uniq xs = rev (remdups (rev xs))"

text \<open>\<open>findIndex\<close>.\<close>

fun find_index :: "('a \<Rightarrow> bool) \<Rightarrow> 'a list \<Rightarrow> nat option" where
  "find_index P [] = None"
| "find_index P (x # xs) = (if P x then Some 0 else map_option Suc (find_index P xs))"

text \<open>A reader applied to every element of an array; the first error is thrown.\<close>

fun traverse :: "('a \<Rightarrow> 'e + 'b) \<Rightarrow> 'a list \<Rightarrow> 'e + 'b list" where
  "traverse f [] = Inr []"
| "traverse f (x # xs) =
     (case f x of Inl e \<Rightarrow> Inl e
      | Inr y \<Rightarrow> (case traverse f xs of Inl e \<Rightarrow> Inl e | Inr ys \<Rightarrow> Inr (y # ys)))"

text \<open>Sequencing of fallible steps.\<close>

definition bind_sum :: "'e + 'a \<Rightarrow> ('a \<Rightarrow> 'e + 'b) \<Rightarrow> 'e + 'b" where
  "bind_sum r f = (case r of Inl e \<Rightarrow> Inl e | Inr x \<Rightarrow> f x)"

section \<open>Shared lemmas\<close>

subsection \<open>Strings\<close>

lemma js_inj [simp]: "js s = js t \<longleftrightarrow> s = t"
  by (simp add: js_def inj_map_eq_map inj_on_def)

lemma js_Nil [simp]: "js [] = []"
  by (simp add: js_def)

lemma js_eq_Nil [simp]: "js s = [] \<longleftrightarrow> s = []" "[] = js s \<longleftrightarrow> s = []"
  by (auto simp: js_def)

lemma length_js [simp]: "length (js s) = length s"
  by (simp add: js_def)

lemma trim_Nil [simp]: "trim [] = []"
  by (simp add: trim_def)

lemma dropWhile_eq_self: "xs = [] \<or> \<not> P (hd xs) \<Longrightarrow> dropWhile P xs = xs"
  by (cases xs) auto

lemma dropWhile_idem: "dropWhile P (dropWhile P xs) = dropWhile P xs"
  by (induction xs) auto

lemma hd_dropWhile_neg: "dropWhile P xs \<noteq> [] \<Longrightarrow> \<not> P (hd (dropWhile P xs))"
  by (induction xs) auto

lemma hd_trim_end:
  assumes "s = [] \<or> \<not> is_ws (hd s)"
  shows "rev (dropWhile is_ws (rev s)) = [] \<or> \<not> is_ws (hd (rev (dropWhile is_ws (rev s))))"
proof (cases "rev (dropWhile is_ws (rev s)) = []")
  case False
  let ?p = "rev (dropWhile is_ws (rev s))"
  have "s = ?p @ rev (takeWhile is_ws (rev s))"
    by (metis rev_append rev_rev_ident takeWhile_dropWhile_id)
  then have "hd s = hd ?p" using False by (metis hd_append2)
  moreover have "s \<noteq> []" using False by auto
  ultimately show ?thesis using assms by simp
qed simp

lemma trim_trim [simp]: "trim (trim s) = trim s"
proof -
  let ?a = "dropWhile is_ws s" and ?t = "\<lambda>x. rev (dropWhile is_ws (rev x))"
  have "?a = [] \<or> \<not> is_ws (hd ?a)" using hd_dropWhile_neg by blast
  then have "?t ?a = [] \<or> \<not> is_ws (hd (?t ?a))" by (rule hd_trim_end)
  then have "dropWhile is_ws (?t ?a) = ?t ?a" by (rule dropWhile_eq_self)
  then show ?thesis by (simp add: trim_def dropWhile_idem)
qed

lemma trim_no_ws: "\<forall>u \<in> set s. \<not> is_ws u \<Longrightarrow> trim s = s"
proof -
  assume *: "\<forall>u \<in> set s. \<not> is_ws u"
  have "dropWhile is_ws s = s" using * by (cases s) auto
  moreover have "dropWhile is_ws (rev s) = rev s" using * by (cases "rev s") (auto dest: arg_cong[where f=set])
  ultimately show ?thesis by (simp add: trim_def)
qed

lemma set_trim: "set (trim s) \<subseteq> set s"
  by (auto simp: trim_def dest!: set_dropWhileD)

lemma length_trim: "length (trim s) \<le> length s"
  unfolding trim_def using length_dropWhile_le
  by (metis dual_order.trans length_rev)

lemma split_char_not_Nil [simp]: "split_char c s \<noteq> []"
  by (induction s) (auto split: list.splits)

lemma split_char_no_sep: "c \<notin> set s \<Longrightarrow> split_char c s = [s]"
  by (induction s) auto

lemma split_char_append: "c \<notin> set w \<Longrightarrow> split_char c (w @ c # s) = w # split_char c s"
  by (induction w) auto

lemma split_char_no_sep_in: "w \<in> set (split_char c s) \<Longrightarrow> c \<notin> set w"
proof (induction s arbitrary: w)
  case (Cons x xs)
  obtain v vs where "split_char c xs = v # vs" by (cases "split_char c xs") auto
  with Cons show ?case by (auto split: if_splits)
qed simp

lemma sep_split: "x \<notin> set s \<Longrightarrow> x \<notin> set s' \<Longrightarrow> s @ x # t = s' @ x # t' \<Longrightarrow> s = s' \<and> t = t'"
  by (induction s arbitrary: s') (auto simp: Cons_eq_append_conv append_eq_Cons_conv)

lemma split_join:
  "ws \<noteq> [] \<Longrightarrow> \<forall>w \<in> set ws. c \<notin> set w \<Longrightarrow> split_char c (join [c] ws) = ws"
proof (induction "[c]" ws rule: join.induct)
  case (3 w v ws)
  then show ?case by (simp add: split_char_append)
qed (auto simp: split_char_no_sep)

lemma index_of_Some_prefix: "index_of p s = Some n \<Longrightarrow> prefix p (drop n s)"
proof (induction s arbitrary: n)
  case (Cons x xs)
  then show ?case by (cases n) (auto split: if_splits)
qed (auto split: if_splits)

lemma index_of_length: "index_of p s = Some n \<Longrightarrow> n + length p \<le> length s"
proof (induction s arbitrary: n)
  case (Cons x xs)
  then show ?case by (cases n) (auto split: if_splits dest: prefix_length_le)
qed (auto split: if_splits)

lemma index_of_None: "index_of p s = None \<Longrightarrow> \<not> sublist p s"
proof (induction s)
  case (Cons x xs)
  then show ?case by (auto simp: sublist_Cons_right split: if_splits)
qed (auto split: if_splits)

lemma index_of_first: "index_of p s = Some n \<Longrightarrow> p \<noteq> [] \<Longrightarrow> \<not> sublist p (take n s)"
proof (induction s arbitrary: n)
  case (Cons x xs)
  show ?case
  proof (cases n)
    case (Suc m)
    with Cons.prems have m: "index_of p xs = Some m" "\<not> prefix p (x # xs)" by (auto split: if_splits)
    then have "\<not> prefix p (x # take m xs)" by (metis append_take_drop_id prefix_prefix append_Cons)
    with Cons.IH[OF m(1) Cons.prems(2)] Suc show ?thesis by (auto simp: sublist_Cons_right)
  qed (use Cons.prems in auto)
qed (auto split: if_splits)

lemma index_of_split:
  assumes "index_of p s = Some n"
  shows "s = take n s @ p @ drop (n + length p) s"
proof -
  from index_of_Some_prefix[OF assms] obtain t where t: "drop n s = p @ t" by (auto simp: prefix_def)
  then have "drop (n + length p) s = t" by (metis add.commute append_eq_conv_conj drop_drop)
  with t show ?thesis by (metis append_take_drop_id)
qed

lemma index_of_prefix_0: "prefix p s \<Longrightarrow> index_of p s = Some 0"
  by (cases s) auto

lemma sublist_imp_index_of: "sublist p s \<Longrightarrow> \<exists>n. index_of p s = Some n"
  using index_of_None by fastforce

lemma js_includes_iff: "js_includes s p \<longleftrightarrow> sublist p s"
proof
  assume "js_includes s p"
  then obtain n where n: "index_of p s = Some n" by (auto simp: js_includes_def)
  then have "prefix p (drop n s)" by (rule index_of_Some_prefix)
  then obtain t where "drop n s = p @ t" by (auto simp: prefix_def)
  then have "s = take n s @ p @ t" by (metis append_take_drop_id)
  then show "sublist p s" unfolding sublist_def by blast
next
  assume "sublist p s"
  then show "js_includes s p" using index_of_None by (auto simp: js_includes_def)
qed

subsection \<open>Decimal numbers\<close>

lemma parse_digits_Nil [simp]: "parse_digits [] = 0"
  by (simp add: parse_digits_def)

lemma parse_digits_snoc: "parse_digits (s @ [u]) = 10 * parse_digits s + digit_value u"
  by (simp add: parse_digits_def)

lemma show_digits_digits: "0 \<le> n \<Longrightarrow> u \<in> set (show_digits n) \<Longrightarrow> is_digit u"
proof (induction n rule: show_digits.induct)
  case (1 n)
  then show ?case
    by (subst (asm) show_digits.simps[of n])
      (auto simp: is_digit_def split: if_splits)
qed

lemma show_digits_not_Nil [simp]: "show_digits n \<noteq> []"
  by (subst show_digits.simps) simp

lemma parse_show_digits [simp]: "0 \<le> n \<Longrightarrow> parse_digits (show_digits n) = n"
proof (induction n rule: show_digits.induct)
  case (1 n)
  then show ?case
    by (subst show_digits.simps) (auto simp: parse_digits_snoc digit_value_def parse_digits_def)
qed

lemma is_digit_not_ws: "is_digit u \<Longrightarrow> \<not> is_ws u"
  by (auto simp: is_digit_def is_ws_def)

lemma parse_digits_nonneg: "list_all is_digit s \<Longrightarrow> 0 \<le> parse_digits s"
  by (induction s rule: rev_induct) (auto simp: parse_digits_snoc digit_value_def is_digit_def)

subsection \<open>Numbers and values\<close>

lemma js_le_Fin [js_num]: "js_le (Fin a) (Fin b) \<longleftrightarrow> a \<le> b"
  by auto

lemma js_le_int_num [js_num]: "js_le (int_num a) (int_num b) \<longleftrightarrow> a \<le> b"
  by (auto simp: int_num_def)

lemma js_lt_int_num [js_num]: "js_lt (int_num a) (int_num b) \<longleftrightarrow> a < b"
  by (simp add: int_num_def)

lemma is_record_iff: "is_record v \<longleftrightarrow> (\<exists>vs. v = JArr vs) \<or> (\<exists>ps. v = JObj ps)"
  by (cases v) auto

lemma is_str_iff [js_defs]: "is_str v \<longleftrightarrow> (\<exists>s. v = JStr s)"
  by (cases v) auto

lemma is_num_iff [js_defs]: "is_num v \<longleftrightarrow> (\<exists>n. v = JNum n)"
  by (cases v) auto

lemma is_bool_iff [js_defs]: "is_bool v \<longleftrightarrow> (\<exists>b. v = JBool b)"
  by (cases v) auto

lemma is_array_iff [js_defs]: "is_array v \<longleftrightarrow> (\<exists>vs. v = JArr vs)"
  by (cases v) auto

lemma jget_not_record [simp]: "\<not> is_record v \<Longrightarrow> jget v k = JUndefined"
  by (cases v) (auto simp: jget_def)

lemma is_safe_integerD:
  "is_safe_integer_num n \<Longrightarrow> \<exists>i. n = int_num i \<and> \<bar>i\<bar> \<le> 2 ^ 53 - 1"
  by (cases n) (auto simp: int_num_def)

lemma is_integerD: "is_integer_num n \<Longrightarrow> \<exists>i. n = int_num i"
  by (cases n) (auto simp: int_num_def)

subsection \<open>Lists and results\<close>

text \<open>Sorting of closed lists evaluates by insertion.\<close>

lemma sort_key_insertion [code]: "sort_key f xs = foldr (insort_key f) xs []"
  by (simp add: sort_key_def)

lemma set_js_uniq [simp]: "set (js_uniq xs) = set xs"
  by (simp add: js_uniq_def)

lemma distinct_js_uniq [simp]: "distinct (js_uniq xs)"
  by (simp add: js_uniq_def)

lemma js_uniq_Nil [simp]: "js_uniq [] = []"
  by (simp add: js_uniq_def)

lemma js_uniq_distinct: "distinct xs \<Longrightarrow> js_uniq xs = xs"
  by (simp add: js_uniq_def distinct_remdups_id)

lemma find_index_Some:
  "find_index P xs = Some i \<Longrightarrow> i < length xs \<and> P (xs ! i) \<and> (\<forall>j < i. \<not> P (xs ! j))"
proof (induction xs arbitrary: i)
  case (Cons x xs)
  then show ?case
    by (cases i) (auto split: if_splits simp: less_Suc_eq_0_disj)
qed simp

lemma find_index_None: "find_index P xs = None \<longleftrightarrow> (\<forall>x \<in> set xs. \<not> P x)"
  by (induction xs) auto

lemma traverse_Inr:
  "traverse f xs = Inr ys \<Longrightarrow> length ys = length xs \<and> (\<forall>i < length xs. f (xs ! i) = Inr (ys ! i))"
proof (induction xs arbitrary: ys)
  case (Cons x xs)
  then show ?case
    by (auto split: sum.splits simp: nth_Cons split: nat.splits)
qed simp

lemma traverse_Inl: "traverse f xs = Inl e \<Longrightarrow> \<exists>x \<in> set xs. f x = Inl e"
  by (induction xs) (auto split: sum.splits)

lemma traverse_ok: "(\<And>x. x \<in> set xs \<Longrightarrow> \<exists>y. f x = Inr y) \<Longrightarrow> \<exists>ys. traverse f xs = Inr ys"
proof (induction xs)
  case (Cons x xs)
  then obtain y ys where "f x = Inr y" "traverse f xs = Inr ys" by (metis list.set_intros)
  then show ?case by simp
qed simp

lemma bind_sum_simps [simp]:
  "bind_sum (Inl e) f = Inl e"
  "bind_sum (Inr x) f = f x"
  by (simp_all add: bind_sum_def)

lemma bind_sum_InrE:
  assumes "bind_sum r f = Inr y"
  obtains x where "r = Inr x" "f x = Inr y"
  using assms by (cases r) auto

end
