(* ===== verification/Status_Code_Rules.thy ===== *)
theory Status_Code_Rules
  imports Js_Prelude "HOL-Library.Product_Lexorder"
begin

text \<open>
  The HTTP status-code rule language of the console (\<open>web/src/lib/http-status-code-rules.ts\<close>):
  a comma separated list of codes and code ranges such as \<open>401, 429, 500-599\<close>, which the
  administrator enters for automatic disabling and retries. The parser rejects the whole input
  when one token is malformed, and otherwise sorts and merges the ranges.

  Lemmas: the merged list covers the codes of the input and nothing else, is strictly
  separated, is determined by the set of codes, and its printed form parses back to itself.
\<close>

section \<open>Model\<close>

record StatusCodeRange =
  rstart :: int
  rend :: int

record ParsedHttpStatusCodeRules =
  ok :: bool
  ranges :: "StatusCodeRange list"
  tokens :: "jsstr list"
  normalized :: jsstr
  invalidTokens :: "jsstr list"

abbreviation comma :: int where "comma \<equiv> 44"
abbreviation hyphen :: int where "hyphen \<equiv> 45"
abbreviation fullwidth_comma :: int where "fullwidth_comma \<equiv> 0xFF0C"

definition isNumber :: "jsstr \<Rightarrow> bool" where
  "isNumber s \<longleftrightarrow> s \<noteq> [] \<and> list_all is_digit s"

definition isValidCode :: "int \<Rightarrow> bool" where
  "isValidCode code \<longleftrightarrow> 100 \<le> code \<and> code \<le> 599"

text \<open>
  \<open>const [a, b] = cleaned.split('-')\<close> takes the first two pieces; a third is not looked at.
\<close>

definition parseToken :: "jsstr \<Rightarrow> StatusCodeRange option" where
  "parseToken token =
     (let cleaned = filter (\<lambda>u. \<not> is_ws u) (trim token) in
      if cleaned = [] then None
      else if hyphen \<in> set cleaned then
        (case split_char hyphen cleaned of
           a # b # _ \<Rightarrow>
             (if \<not> isNumber a \<or> \<not> isNumber b then None
              else let s = parse_digits a; e = parse_digits b in
                if \<not> isValidCode s \<or> \<not> isValidCode e \<or> s > e then None
                else Some \<lparr>rstart = s, rend = e\<rparr>)
         | _ \<Rightarrow> None)
      else if \<not> isNumber cleaned then None
      else let code = parse_digits cleaned in
        if \<not> isValidCode code then None
        else Some \<lparr>rstart = code, rend = code\<rparr>)"

definition merge_step :: "StatusCodeRange list \<Rightarrow> StatusCodeRange \<Rightarrow> StatusCodeRange list" where
  "merge_step merged current =
     (if merged = [] \<or> rstart current > rend (last merged) + 1 then merged @ [current]
      else butlast merged @ [(last merged)\<lparr>rend := max (rend (last merged)) (rend current)\<rparr>])"

definition mergeRanges :: "StatusCodeRange list \<Rightarrow> StatusCodeRange list" where
  "mergeRanges rs =
     (if rs = [] then []
      else foldl merge_step [] (sort_key (\<lambda>r. (rstart r, rend r)) rs))"

definition range_token :: "StatusCodeRange \<Rightarrow> jsstr" where
  "range_token r =
     (if rstart r = rend r then show_digits (rstart r)
      else show_digits (rstart r) @ [hyphen] @ show_digits (rend r))"

definition rule_segments :: "jsstr \<Rightarrow> jsstr list" where
  "rule_segments raw =
     (let sanitized = map (\<lambda>u. if u = fullwidth_comma then comma else u) raw in
      filter (\<lambda>s. s \<noteq> []) (map trim (split_char comma sanitized)))"

text \<open>The input is what \<open>(input ?? '').toString()\<close> gives.\<close>

definition parseHttpStatusCodeRules :: "jsstr \<Rightarrow> ParsedHttpStatusCodeRules" where
  "parseHttpStatusCodeRules input =
     (let raw = trim input in
      if raw = [] then
        \<lparr>ok = True, ranges = [], tokens = [], normalized = [], invalidTokens = []\<rparr>
      else
        let segments = rule_segments raw;
            invalid = filter (\<lambda>s. parseToken s = None) segments;
            rs = List.map_filter parseToken segments
        in if invalid \<noteq> [] then
             \<lparr>ok = False, ranges = [], tokens = [], normalized = raw, invalidTokens = invalid\<rparr>
           else
             let merged = mergeRanges rs; toks = map range_token merged in
             \<lparr>ok = True, ranges = merged, tokens = toks, normalized = join [comma] toks,
              invalidTokens = []\<rparr>)"

text \<open>What a list of ranges means: the set of codes it covers.\<close>

definition codes_of :: "StatusCodeRange list \<Rightarrow> int set" where
  "codes_of rs = (\<Union>r \<in> set rs. {rstart r..rend r})"

fun separated :: "StatusCodeRange list \<Rightarrow> bool" where
  "separated [] = True"
| "separated [r] = (rstart r \<le> rend r)"
| "separated (r # s # rs) = (rstart r \<le> rend r \<and> rend r + 1 < rstart s \<and> separated (s # rs))"

section \<open>Merging\<close>

lemma codes_of_simps [simp]:
  "codes_of [] = {}"
  "codes_of (r # rs) = {rstart r..rend r} \<union> codes_of rs"
  "codes_of (rs @ ss) = codes_of rs \<union> codes_of ss"
  by (auto simp: codes_of_def)

lemma separated_snoc:
  "separated (rs @ [r]) \<longleftrightarrow>
     separated rs \<and> rstart r \<le> rend r \<and> (rs \<noteq> [] \<longrightarrow> rend (last rs) + 1 < rstart r)"
  by (induction rs rule: separated.induct) auto

lemma merge_step_separated:
  assumes "separated m" "rstart c \<le> rend c" "m \<noteq> [] \<Longrightarrow> rstart (last m) \<le> rstart c"
  shows "separated (merge_step m c) \<and> codes_of (merge_step m c) = codes_of m \<union> {rstart c..rend c}
    \<and> merge_step m c \<noteq> [] \<and> rstart (last (merge_step m c)) \<le> rstart c"
proof (cases m rule: rev_cases)
  case Nil
  with assms show ?thesis by (simp add: merge_step_def)
next
  case (snoc m' l)
  with assms show ?thesis
    using separated_snoc[of "m' @ [l]" c]
    by (auto simp: merge_step_def separated_snoc)
qed

lemma foldl_merge_separated:
  assumes "separated m" "\<forall>c \<in> set cs. rstart c \<le> rend c" "sorted (map rstart cs)"
    "m \<noteq> [] \<Longrightarrow> \<forall>c \<in> set cs. rstart (last m) \<le> rstart c"
  shows "separated (foldl merge_step m cs) \<and> codes_of (foldl merge_step m cs) = codes_of m \<union> codes_of cs"
  using assms
proof (induction cs arbitrary: m)
  case (Cons c cs)
  have st: "separated (merge_step m c) \<and> codes_of (merge_step m c) = codes_of m \<union> {rstart c..rend c}
    \<and> merge_step m c \<noteq> [] \<and> rstart (last (merge_step m c)) \<le> rstart c"
    using Cons.prems by (intro merge_step_separated) auto
  have "separated (foldl merge_step (merge_step m c) cs) \<and>
      codes_of (foldl merge_step (merge_step m c) cs) = codes_of (merge_step m c) \<union> codes_of cs"
    using Cons.prems st by (intro Cons.IH) (auto intro: order_trans)
  with st show ?case by auto
qed simp

lemma sorted_rstart_sort: "sorted (map rstart (sort_key (\<lambda>r. (rstart r, rend r)) rs))"
proof -
  let ?s = "sort_key (\<lambda>r. (rstart r, rend r)) rs"
  have "sorted (map (\<lambda>r. (rstart r, rend r)) ?s)" by simp
  then show ?thesis
    unfolding sorted_map by (rule sorted_wrt_mono_rel[rotated]) (auto simp: less_eq_prod_def)
qed

lemma mergeRanges_separated_codes:
  assumes "\<forall>r \<in> set rs. rstart r \<le> rend r"
  shows "separated (mergeRanges rs)" "codes_of (mergeRanges rs) = codes_of rs"
proof -
  have c: "codes_of (sort_key (\<lambda>r. (rstart r, rend r)) rs) = codes_of rs"
    by (simp add: codes_of_def)
  have "separated (mergeRanges rs) \<and> codes_of (mergeRanges rs) = codes_of rs"
    using foldl_merge_separated[of "[]" "sort_key (\<lambda>r. (rstart r, rend r)) rs"] assms c
      sorted_rstart_sort[of rs]
    by (simp add: mergeRanges_def)
  then show "separated (mergeRanges rs)" "codes_of (mergeRanges rs) = codes_of rs" by auto
qed

subsection \<open>A separated list is determined by its codes\<close>

lemma separated_ConsD:
  "separated (r # rs) \<Longrightarrow> rstart r \<le> rend r \<and> separated rs \<and> (\<forall>c \<in> codes_of rs. rend r + 1 < c)"
proof (induction rs arbitrary: r)
  case (Cons s rs)
  from Cons.prems have s: "separated (s # rs)" "rend r + 1 < rstart s" "rstart r \<le> rend r" by auto
  from Cons.IH[OF s(1)] s show ?case by fastforce
qed simp

lemma separated_Min: "separated (r # rs) \<Longrightarrow> c \<in> codes_of (r # rs) \<Longrightarrow> rstart r \<le> c"
  using separated_ConsD[of r rs] by fastforce

lemma separated_head_eq:
  assumes "separated (r # rs)" "separated (s # ss)" "codes_of (r # rs) = codes_of (s # ss)"
  shows "rstart r = rstart s \<and> rend r = rend s"
proof -
  note r = separated_ConsD[OF assms(1)] and s = separated_ConsD[OF assms(2)]
  have "rstart r \<in> codes_of (s # ss)" "rstart s \<in> codes_of (r # rs)"
    using r s assms(3) by auto
  then have start: "rstart r = rstart s"
    using separated_Min[OF assms(1)] separated_Min[OF assms(2)] by (meson order_antisym)
  have gap: "rend r + 1 \<notin> codes_of (r # rs)" "rend s + 1 \<notin> codes_of (s # ss)"
    using r s by auto
  have "rend s \<le> rend r"
  proof (rule ccontr)
    assume "\<not> rend s \<le> rend r"
    then have "rend r + 1 \<in> codes_of (s # ss)" using start r by auto
    then show False using gap(1) assms(3) by blast
  qed
  moreover have "rend r \<le> rend s"
  proof (rule ccontr)
    assume "\<not> rend r \<le> rend s"
    then have "rend s + 1 \<in> codes_of (r # rs)" using start s by auto
    then show False using gap(2) assms(3) by blast
  qed
  ultimately show ?thesis using start by simp
qed

lemma separated_unique:
  "separated rs \<Longrightarrow> separated ss \<Longrightarrow> codes_of rs = codes_of ss \<Longrightarrow> rs = ss"
proof (induction rs arbitrary: ss)
  case Nil
  then show ?case by (cases ss) (auto dest: separated_ConsD)
next
  case (Cons r rs)
  show ?case
  proof (cases ss)
    case Nil
    with Cons.prems show ?thesis by (auto dest: separated_ConsD)
  next
    case (Cons s ss')
    note r = separated_ConsD[OF Cons.prems(1)]
    note s = separated_ConsD[OF Cons.prems(2)[unfolded Cons]]
    have eq: "rstart r = rstart s \<and> rend r = rend s"
      using separated_head_eq Cons.prems Cons by blast
    have "codes_of rs = codes_of (r # rs) - {rstart r..rend r}" using r by fastforce
    also have "\<dots> = codes_of (s # ss') - {rstart s..rend s}" using eq Cons.prems(3) Cons by simp
    also have "\<dots> = codes_of ss'" using s by fastforce
    finally have "rs = ss'" using Cons.IH r s by blast
    with eq Cons show ?thesis by (simp add: StatusCodeRange.equality)
  qed
qed

section \<open>Tokens and their printed form\<close>

definition valid_range :: "StatusCodeRange \<Rightarrow> bool" where
  "valid_range r \<longleftrightarrow> 100 \<le> rstart r \<and> rstart r \<le> rend r \<and> rend r \<le> 599"

lemma parseToken_valid: "parseToken t = Some r \<Longrightarrow> valid_range r"
  by (auto simp: parseToken_def Let_def valid_range_def isValidCode_def
      split: if_splits list.splits)

lemma isNumber_show_digits [simp]: "0 \<le> n \<Longrightarrow> isNumber (show_digits n)"
  by (auto simp: isNumber_def list_all_iff show_digits_digits)

lemma show_digits_no_hyphen [simp]: "0 \<le> n \<Longrightarrow> hyphen \<notin> set (show_digits n)"
  using show_digits_digits by (fastforce simp: is_digit_def)

lemma range_token_units: "valid_range r \<Longrightarrow> u \<in> set (range_token r) \<Longrightarrow> is_digit u \<or> u = hyphen"
  by (auto simp: range_token_def valid_range_def split: if_splits dest: show_digits_digits[rotated])

lemma range_token_no_ws: "valid_range r \<Longrightarrow> u \<in> set (range_token r) \<Longrightarrow> \<not> is_ws u"
  using range_token_units is_digit_not_ws by (fastforce simp: is_ws_def)

lemma range_token_cleaned: "valid_range r \<Longrightarrow> filter (\<lambda>u. \<not> is_ws u) (trim (range_token r)) = range_token r"
  by (simp add: trim_no_ws range_token_no_ws filter_True)

lemma range_token_not_Nil [simp]: "range_token r \<noteq> []"
  by (simp add: range_token_def)

lemma parseToken_range_token:
  assumes "valid_range r"
  shows "parseToken (range_token r) = Some r"
proof (cases "rstart r = rend r")
  case True
  have "\<lparr>rstart = rend r, rend = rend r\<rparr> = r" using True by (simp add: StatusCodeRange.equality)
  with True assms range_token_cleaned[OF assms] show ?thesis
    by (simp add: parseToken_def range_token_def valid_range_def isValidCode_def Let_def)
next
  case False
  have "split_char hyphen (range_token r) = [show_digits (rstart r), show_digits (rend r)]"
    using False assms
    by (simp add: range_token_def valid_range_def split_char_append split_char_no_sep)
  moreover have "\<lparr>rstart = rstart r, rend = rend r\<rparr> = r" by (simp add: StatusCodeRange.equality)
  moreover have "hyphen \<in> set (range_token r)" using False by (simp add: range_token_def)
  ultimately show ?thesis using False assms range_token_cleaned[OF assms]
    by (simp add: parseToken_def valid_range_def isValidCode_def Let_def)
qed

lemma range_token_no_comma: "valid_range r \<Longrightarrow> u \<in> set (range_token r) \<Longrightarrow> u \<noteq> comma \<and> u \<noteq> fullwidth_comma"
  using range_token_units by (fastforce simp: is_digit_def)

lemma set_join: "u \<in> set (join sep ws) \<Longrightarrow> u \<in> set sep \<or> (\<exists>w \<in> set ws. u \<in> set w)"
  by (induction sep ws rule: join.induct) auto

lemma join_tokens_units:
  "\<forall>r \<in> set rs. valid_range r \<Longrightarrow> u \<in> set (join [comma] (map range_token rs)) \<Longrightarrow> \<not> is_ws u \<and> u \<noteq> fullwidth_comma"
  using range_token_no_ws range_token_no_comma
  by (fastforce dest!: set_join simp: is_ws_def[of comma])

lemma rule_segments_tokens:
  assumes "rs \<noteq> []" "\<forall>r \<in> set rs. valid_range r"
  shows "rule_segments (join [comma] (map range_token rs)) = map range_token rs"
proof -
  let ?j = "join [comma] (map range_token rs)"
  have "map (\<lambda>u. if u = fullwidth_comma then comma else u) ?j = ?j"
    using assms by (intro map_idI) (auto dest: join_tokens_units)
  moreover have "split_char comma ?j = map range_token rs"
    using assms by (intro split_join) (auto dest: range_token_no_comma)
  moreover have "map trim (map range_token rs) = map range_token rs"
    using assms range_token_no_ws by (auto simp: trim_no_ws)
  ultimately show ?thesis by (simp add: rule_segments_def)
qed

lemma trim_join_tokens: "\<forall>r \<in> set rs. valid_range r \<Longrightarrow> trim (join [comma] (map range_token rs)) = join [comma] (map range_token rs)"
  by (rule trim_no_ws) (auto dest: join_tokens_units)

lemma join_eq_Nil: "[] \<notin> set ws \<Longrightarrow> join [c] ws = [] \<longleftrightarrow> ws = []"
  by (induction "[c]" ws rule: join.induct) auto

lemma map_filter_parse_tokens:
  "\<forall>r \<in> set rs. valid_range r \<Longrightarrow> List.map_filter parseToken (map range_token rs) = rs"
  by (induction rs) (auto simp: map_filter_simps parseToken_range_token)

text \<open>Parsing a printed list of valid ranges merges exactly these ranges.\<close>

lemma parse_tokens:
  assumes "rs \<noteq> []" "\<forall>r \<in> set rs. valid_range r"
  shows "parseHttpStatusCodeRules (join [comma] (map range_token rs)) =
    \<lparr>ok = True, ranges = mergeRanges rs, tokens = map range_token (mergeRanges rs),
     normalized = join [comma] (map range_token (mergeRanges rs)), invalidTokens = []\<rparr>"
proof -
  have "join [comma] (map range_token rs) \<noteq> []"
    using assms(1) by (subst join_eq_Nil) (auto dest: arg_cong[where f = length])
  moreover have "filter (\<lambda>s. parseToken s = None) (map range_token rs) = []"
    using assms(2) by (auto simp: filter_empty_conv parseToken_range_token)
  ultimately show ?thesis
    using assms by (simp add: parseHttpStatusCodeRules_def trim_join_tokens rule_segments_tokens
        map_filter_parse_tokens Let_def)
qed

lemma set_map_filter_iff: "y \<in> set (List.map_filter f xs) \<longleftrightarrow> (\<exists>x \<in> set xs. f x = Some y)"
  by (force simp: List.map_filter_def)

lemma map_filter_valid: "\<forall>r \<in> set (List.map_filter parseToken ss). valid_range r"
  by (auto simp: set_map_filter_iff dest: parseToken_valid)

lemma codes_of_bounds:
  "\<forall>r \<in> set rs. valid_range r \<Longrightarrow> codes_of rs \<subseteq> {100..599}"
  by (fastforce simp: codes_of_def valid_range_def)

lemma separated_bounds_valid:
  "separated rs \<Longrightarrow> codes_of rs \<subseteq> {100..599} \<Longrightarrow> r \<in> set rs \<Longrightarrow> valid_range r"
proof (induction rs)
  case (Cons s rs)
  have s: "rstart s \<le> rend s" "separated rs" using separated_ConsD[OF Cons.prems(1)] by auto
  have "rstart s \<in> codes_of (s # rs)" "rend s \<in> codes_of (s # rs)" using s by auto
  then have "valid_range s" using Cons.prems(2) s by (auto simp: valid_range_def)
  with Cons s show ?case by auto
qed simp

lemma valid_range_le: "valid_range r \<Longrightarrow> rstart r \<le> rend r"
  by (simp add: valid_range_def)

lemma mergeRanges_valid:
  assumes "\<forall>r \<in> set rs. valid_range r"
  shows "\<forall>r \<in> set (mergeRanges rs). valid_range r"
  using assms mergeRanges_separated_codes[of rs] codes_of_bounds[OF assms] separated_bounds_valid
  by (metis valid_range_le)

lemma mergeRanges_separated_id:
  "separated rs \<Longrightarrow> \<forall>r \<in> set rs. valid_range r \<Longrightarrow> mergeRanges rs = rs"
  by (rule separated_unique) (auto simp: mergeRanges_separated_codes valid_range_le)

text \<open>The accepted result is the canonical form of the segments' ranges.\<close>

lemma parse_ok_cases:
  assumes "ok (parseHttpStatusCodeRules input)"
  obtains (empty) "trim input = []"
      "parseHttpStatusCodeRules input =
         \<lparr>ok = True, ranges = [], tokens = [], normalized = [], invalidTokens = []\<rparr>"
    | (parsed) rs where "rs = List.map_filter parseToken (rule_segments (trim input))"
      "\<forall>r \<in> set rs. valid_range r" "\<forall>s \<in> set (rule_segments (trim input)). parseToken s \<noteq> None"
      "parseHttpStatusCodeRules input =
         \<lparr>ok = True, ranges = mergeRanges rs, tokens = map range_token (mergeRanges rs),
          normalized = join [comma] (map range_token (mergeRanges rs)), invalidTokens = []\<rparr>"
proof (cases "trim input = []")
  case True
  then show ?thesis using empty by (simp add: parseHttpStatusCodeRules_def)
next
  case False
  with assms show ?thesis
    using parsed[OF refl map_filter_valid]
    by (auto simp: parseHttpStatusCodeRules_def Let_def filter_empty_conv split: if_splits)
qed

section \<open>Properties\<close>

text \<open>
  C9. Merging keeps the meaning and gives the canonical form. For ranges with \<open>start \<le> end\<close> the
  merged list covers exactly the codes of the input, consecutive ranges are at least one code
  apart, and any other separated list that covers the same codes is the merged list itself.
\<close>

theorem mergeRanges_canonical:
  assumes "\<forall>r \<in> set rs. rstart r \<le> rend r"
  shows "codes_of (mergeRanges rs) = codes_of rs \<and> separated (mergeRanges rs)
    \<and> (separated ss \<and> codes_of ss = codes_of rs \<longrightarrow> mergeRanges rs = ss)"
  using mergeRanges_separated_codes[OF assms] separated_unique by simp

theorem mergeRanges_canonical_witness:
  "mergeRanges [\<lparr>rstart = 500, rend = 503\<rparr>, \<lparr>rstart = 429, rend = 429\<rparr>, \<lparr>rstart = 504, rend = 599\<rparr>]
     = [\<lparr>rstart = 429, rend = 429\<rparr>, \<lparr>rstart = 500, rend = 599\<rparr>]"
proof -
  let ?rs = "[\<lparr>rstart = 500, rend = 503\<rparr>, \<lparr>rstart = 429, rend = 429\<rparr>, \<lparr>rstart = 504, rend = 599\<rparr>]"
  let ?ss = "[\<lparr>rstart = 429, rend = 429\<rparr>, \<lparr>rstart = 500, rend = 599\<rparr>]"
  have h: "\<forall>r \<in> set ?rs. rstart r \<le> rend r" by simp
  have "separated ?ss" "codes_of ?ss = codes_of ?rs" by auto
  then show ?thesis using mergeRanges_canonical[OF h, of ?ss] by blast
qed

text \<open>
  C23. The normalised text is a fixed point: parsing it succeeds and gives back the same ranges,
  the same tokens and the same normalised text.
\<close>

theorem parse_normalized_roundtrip:
  assumes "ok (parseHttpStatusCodeRules input)"
  shows "parseHttpStatusCodeRules (normalized (parseHttpStatusCodeRules input))
    = parseHttpStatusCodeRules input"
  using assms
proof (cases rule: parse_ok_cases)
  case empty
  then show ?thesis by (simp add: parseHttpStatusCodeRules_def)
next
  case (parsed rs)
  let ?m = "mergeRanges rs"
  have m: "\<forall>r \<in> set ?m. valid_range r" "separated ?m"
    using parsed mergeRanges_valid mergeRanges_separated_codes(1) valid_range_le by auto
  show ?thesis
  proof (cases "?m = []")
    case True
    then show ?thesis using parsed(4) by (simp add: parseHttpStatusCodeRules_def)
  next
    case False
    then show ?thesis using parsed(4) parse_tokens[OF False m(1)] mergeRanges_separated_id[OF m(2,1)]
      by simp
  qed
qed

theorem parse_normalized_roundtrip_witness:
  "ok (parseHttpStatusCodeRules (js '' 500-599, 4 29 ,''))
   \<and> normalized (parseHttpStatusCodeRules (js '' 500-599, 4 29 ,'')) = js ''429,500-599''
   \<and> parseHttpStatusCodeRules (js ''429,500-599'') = parseHttpStatusCodeRules (js '' 500-599, 4 29 ,'')"
proof -
  let ?i = "js '' 500-599, 4 29 ,''"
  have o: "ok (parseHttpStatusCodeRules ?i)" by code_simp
  have n: "normalized (parseHttpStatusCodeRules ?i) = js ''429,500-599''" by code_simp
  show ?thesis using o n parse_normalized_roundtrip[OF o] by simp
qed

text \<open>
  C30. The parser accepts an input exactly when every non-empty segment is a valid token; then
  the ranges cover exactly the codes of the tokens, all between 100 and 599. Otherwise it
  returns no range at all and names exactly the segments that are not tokens.
\<close>

theorem parseHttpStatusCodeRules_spec:
  "let p = parseHttpStatusCodeRules input; segs = rule_segments (trim input) in
   (ok p \<longleftrightarrow> (\<forall>s \<in> set segs. parseToken s \<noteq> None)) \<and>
   (ok p \<longrightarrow> codes_of (ranges p) = {c. \<exists>s \<in> set segs. \<exists>r. parseToken s = Some r \<and> rstart r \<le> c \<and> c \<le> rend r}
      \<and> codes_of (ranges p) \<subseteq> {100..599} \<and> invalidTokens p = []) \<and>
   (\<not> ok p \<longrightarrow> ranges p = [] \<and> invalidTokens p \<noteq> []
      \<and> set (invalidTokens p) = {s \<in> set segs. parseToken s = None})"
proof (cases "ok (parseHttpStatusCodeRules input)")
  case True
  then show ?thesis
  proof (cases rule: parse_ok_cases)
    case empty
    then have "rule_segments (trim input) = []" by (simp add: rule_segments_def)
    with empty show ?thesis by simp
  next
    case (parsed rs)
    have "codes_of (mergeRanges rs) = codes_of rs"
      using parsed(2) by (intro mergeRanges_separated_codes) (auto simp: valid_range_le)
    moreover have "codes_of rs = {c. \<exists>s \<in> set (rule_segments (trim input)). \<exists>r.
        parseToken s = Some r \<and> rstart r \<le> c \<and> c \<le> rend r}"
      by (force simp: parsed(1) codes_of_def set_map_filter_iff)
    ultimately show ?thesis using parsed codes_of_bounds[OF parsed(2)] by simp
  qed
next
  case False
  then show ?thesis
    by (auto simp: parseHttpStatusCodeRules_def Let_def filter_empty_conv split: if_splits)
qed

theorem parseHttpStatusCodeRules_spec_witness:
  "ok (parseHttpStatusCodeRules (js ''401,500-502'')) \<and>
   \<not> ok (parseHttpStatusCodeRules (js ''401,5000'')) \<and>
   invalidTokens (parseHttpStatusCodeRules (js ''401,5000'')) \<noteq> [] \<and>
   ranges (parseHttpStatusCodeRules (js ''401,5000'')) = []"
proof -
  have a: "ok (parseHttpStatusCodeRules (js ''401,500-502''))" by code_simp
  have b: "\<not> ok (parseHttpStatusCodeRules (js ''401,5000''))" by code_simp
  show ?thesis
    using a b parseHttpStatusCodeRules_spec[of "js ''401,5000''"] unfolding Let_def by blast
qed

text \<open>What stands behind a second hyphen is dropped without notice.\<close>

lemma third_piece_ignored: "parseToken (js ''400-500-abc'') = Some \<lparr>rstart = 400, rend = 500\<rparr>"
  by code_simp

end
