(* ===== verification/Machines.thy ===== *)
theory Machines
  imports Main
begin

text \<open>
  Event-driven components. A page controller of the mini program is a state, a step function
  that runs one handler to its next \<open>await\<close>, and a predicate saying which events the
  environment may deliver (a promise settles only while it is pending, a timer fires only while
  it is armed). The locales state what a component proves once per handler; their lemmas lift
  it to whole executions.
\<close>

inductive reach :: "('s \<Rightarrow> bool) \<Rightarrow> ('s \<Rightarrow> 'e \<Rightarrow> bool) \<Rightarrow> ('s \<Rightarrow> 'e \<Rightarrow> 's) \<Rightarrow> 's \<Rightarrow> bool"
  for init :: "'s \<Rightarrow> bool" and enabled :: "'s \<Rightarrow> 'e \<Rightarrow> bool" and step :: "'s \<Rightarrow> 'e \<Rightarrow> 's"
where
  reach_init: "init s \<Longrightarrow> reach init enabled step s"
| reach_step: "reach init enabled step s \<Longrightarrow> enabled s e \<Longrightarrow> reach init enabled step (step s e)"

text \<open>A finite sequence of deliverable events, and the state it leads to.\<close>

fun runs :: "('s \<Rightarrow> 'e \<Rightarrow> bool) \<Rightarrow> ('s \<Rightarrow> 'e \<Rightarrow> 's) \<Rightarrow> 's \<Rightarrow> 'e list \<Rightarrow> 's option" where
  "runs enabled step s [] = Some s"
| "runs enabled step s (e # es) = (if enabled s e then runs enabled step (step s e) es else None)"

lemma reach_runs:
  "reach init enabled step s \<Longrightarrow> runs enabled step s es = Some t \<Longrightarrow> reach init enabled step t"
  by (induction es arbitrary: s) (auto intro: reach_step split: if_splits)

locale event_machine =
  fixes init :: "'s \<Rightarrow> bool"
    and enabled :: "'s \<Rightarrow> 'e \<Rightarrow> bool"
    and step :: "'s \<Rightarrow> 'e \<Rightarrow> 's"
    and inv :: "'s \<Rightarrow> bool"
  assumes init_inv: "init s \<Longrightarrow> inv s"
    and step_inv: "inv s \<Longrightarrow> enabled s e \<Longrightarrow> inv (step s e)"
begin

lemma reach_inv: "reach init enabled step s \<Longrightarrow> inv s"
  by (induction rule: reach.induct) (auto intro: init_inv step_inv)

lemma runs_inv: "inv s \<Longrightarrow> runs enabled step s es = Some t \<Longrightarrow> inv t"
  by (induction es arbitrary: s) (auto intro: step_inv split: if_splits)

end

text \<open>
  A machine with a final phase: once \<open>stopped\<close> holds it holds for ever, and what the component
  has reported to its page (\<open>obs\<close>) does not change any more.
\<close>

locale stopping_machine = event_machine +
  fixes stopped :: "'s \<Rightarrow> bool"
    and obs :: "'s \<Rightarrow> 'o"
  assumes stopped_step: "inv s \<Longrightarrow> enabled s e \<Longrightarrow> stopped s \<Longrightarrow> stopped (step s e) \<and> obs (step s e) = obs s"
begin

lemma stopped_runs:
  "inv s \<Longrightarrow> stopped s \<Longrightarrow> runs enabled step s es = Some t \<Longrightarrow> stopped t \<and> obs t = obs s"
proof (induction es arbitrary: s)
  case (Cons e es)
  then have e: "enabled s e" "runs enabled step (step s e) es = Some t"
    by (auto split: if_splits)
  have st: "stopped (step s e) \<and> obs (step s e) = obs s" using stopped_step Cons.prems e by blast
  moreover have "inv (step s e)" using step_inv Cons.prems e by blast
  ultimately show ?case using Cons.IH[of "step s e"] e by simp
qed auto

end

text \<open>
  Refinement of an abstract specification: an abstraction function maps states to phases of the
  specification, every event is a step of the specification or leaves the phase unchanged.
  Then every execution is one of the specification.
\<close>

locale refining_machine = event_machine +
  fixes abs :: "'s \<Rightarrow> 'a"
    and spec_init :: "'a \<Rightarrow> bool"
    and spec_step :: "'a \<Rightarrow> 'a \<Rightarrow> bool"
  assumes init_abs: "init s \<Longrightarrow> spec_init (abs s)"
    and step_abs: "inv s \<Longrightarrow> enabled s e \<Longrightarrow> abs (step s e) = abs s \<or> spec_step (abs s) (abs (step s e))"
begin

lemma runs_refine: "inv s \<Longrightarrow> runs enabled step s es = Some t \<Longrightarrow> spec_step\<^sup>*\<^sup>* (abs s) (abs t)"
proof (induction es arbitrary: s)
  case (Cons e es)
  then have e: "enabled s e" "runs enabled step (step s e) es = Some t"
    by (auto split: if_splits)
  then have "spec_step\<^sup>*\<^sup>* (abs (step s e)) (abs t)" using Cons step_inv by blast
  with step_abs[OF Cons.prems(1) e(1)] show ?case by (auto intro: converse_rtranclp_into_rtranclp)
qed simp

lemma reach_refine: "reach init enabled step s \<Longrightarrow> \<exists>a. spec_init a \<and> spec_step\<^sup>*\<^sup>* a (abs s)"
proof (induction rule: reach.induct)
  case (reach_init s)
  then show ?case using init_abs by blast
next
  case (reach_step s e)
  then obtain a where a: "spec_init a" "spec_step\<^sup>*\<^sup>* a (abs s)" by blast
  moreover have "abs (step s e) = abs s \<or> spec_step (abs s) (abs (step s e))"
    using step_abs reach_inv reach_step by blast
  ultimately show ?case by (metis rtranclp.rtrancl_into_rtrancl)
qed

end

end
