(* ===== verification/Binding_Lifecycle.thy ===== *)
theory Binding_Lifecycle
  imports Js_Prelude Machines
begin

text \<open>
  The account-binding page controller of the mini program
  (\<open>miniapp/src/pages/binding/lifecycle.ts\<close>, class \<open>BindingLifecycle\<close>). The page asks the
  server for a binding, shows its web page, polls the binding's status every three seconds
  while it is in the foreground, and gives up after five minutes.

  The state is the private fields of the class, the promises that are still pending, and the
  callbacks made so far. A handler is split at its \<open>await\<close>: \<open>show\<close> and \<open>poll\<close> run up to
  it, \<open>show_created\<close>, \<open>show_rejected\<close>, \<open>poll_resolved\<close> and \<open>poll_rejected\<close> are the
  continuations, each ending with the \<open>finally\<close> block. Timers are the two timer fields: a
  timer that has been cleared does not fire. The clock is the argument \<open>now\<close>.
\<close>

section \<open>Model\<close>

datatype BindingFailureKey = BindingExpired | BindingFailed | BindingWebViewFailed

datatype binding_status = Pending | Bound | Expired

datatype bl_callback =
    OnLoading
  | OnReady jsstr
  | OnBound
  | OnError BindingFailureKey

record bl_state =
  bindingId :: "jsstr option"
  deadline :: int
  deadlineTimer :: bool
  bl_foreground :: bool
  intervalTimer :: bool
  polling :: bool
  bl_starting :: bool
  stopped :: bool
  createsInFlight :: nat
  statusInFlight :: "jsstr list"
  callbacks :: "bl_callback list"

definition bindingPollIntervalMs :: int where "bindingPollIntervalMs = 3000"

definition bindingTimeoutMs :: int where "bindingTimeoutMs = 5 * 60 * 1000"

definition bl_new :: bl_state where
  "bl_new = \<lparr>bindingId = None, deadline = 0, deadlineTimer = False, bl_foreground = False,
     intervalTimer = False, polling = False, bl_starting = False, stopped = False,
     createsInFlight = 0, statusInFlight = [], callbacks = []\<rparr>"

definition emit :: "bl_callback \<Rightarrow> bl_state \<Rightarrow> bl_state" where
  "emit c s = s\<lparr>callbacks := callbacks s @ [c]\<rparr>"

definition isActive :: "bl_state \<Rightarrow> bool" where
  "isActive s \<longleftrightarrow> \<not> stopped s \<and> bl_foreground s"

definition stopPolling :: "bl_state \<Rightarrow> bl_state" where
  "stopPolling s = (if intervalTimer s then s\<lparr>intervalTimer := False\<rparr> else s)"

definition stop :: "bl_state \<Rightarrow> bl_state" where
  "stop s = (let s1 = stopPolling (s\<lparr>stopped := True\<rparr>) in
     if deadlineTimer s1 then s1\<lparr>deadlineTimer := False\<rparr> else s1)"

definition fail :: "BindingFailureKey \<Rightarrow> bl_state \<Rightarrow> bl_state" where
  "fail key s = emit (OnError key) (stop s)"

definition expire :: "bl_state \<Rightarrow> bl_state" where
  "expire s = (if \<not> stopped s then emit (OnError BindingExpired) (stop s) else s)"

text \<open>\<open>poll\<close> up to \<open>await getStatus(bindingId)\<close>, or to its end when the deadline has passed.\<close>

definition poll :: "int \<Rightarrow> bl_state \<Rightarrow> bl_state" where
  "poll now s =
     (case bindingId s of
        None \<Rightarrow> s
      | Some bid \<Rightarrow>
          if \<not> isActive s \<or> polling s then s
          else
            let s1 = s\<lparr>polling := True\<rparr> in
            if now \<ge> deadline s1 then (expire s1)\<lparr>polling := False\<rparr>
            else s1\<lparr>statusInFlight := statusInFlight s1 @ [bid]\<rparr>)"

definition poll_resolved :: "int \<Rightarrow> binding_status \<Rightarrow> bl_state \<Rightarrow> bl_state" where
  "poll_resolved now status s0 =
     (let s = s0\<lparr>statusInFlight := tl (statusInFlight s0)\<rparr>;
          s1 = (if \<not> isActive s then s
                else if now \<ge> deadline s \<or> status = Expired then expire s
                else if status = Bound then emit OnBound (stop s)
                else s)
      in s1\<lparr>polling := False\<rparr>)"

definition poll_rejected :: "bl_state \<Rightarrow> bl_state" where
  "poll_rejected s0 =
     (let s = s0\<lparr>statusInFlight := tl (statusInFlight s0)\<rparr>;
          s1 = (if isActive s then fail BindingFailed s else s)
      in s1\<lparr>polling := False\<rparr>)"

definition startPolling :: "int \<Rightarrow> bl_state \<Rightarrow> bl_state" where
  "startPolling now s =
     (if \<not> isActive s \<or> bindingId s = None \<or> intervalTimer s then s
      else poll now (s\<lparr>intervalTimer := True\<rparr>))"

text \<open>\<open>show\<close> up to \<open>await createBinding()\<close>.\<close>

definition bl_show :: "int \<Rightarrow> bl_state \<Rightarrow> bl_state" where
  "bl_show now s =
     (if stopped s then s
      else
        let s1 = s\<lparr>bl_foreground := True\<rparr> in
        if bindingId s1 \<noteq> None then startPolling now s1
        else if bl_starting s1 then s1
        else
          let s2 = emit OnLoading (s1\<lparr>bl_starting := True\<rparr>) in
          s2\<lparr>createsInFlight := Suc (createsInFlight s2)\<rparr>)"

definition show_created :: "int \<Rightarrow> jsstr \<Rightarrow> jsstr \<Rightarrow> bl_state \<Rightarrow> bl_state" where
  "show_created now bid webUrl s0 =
     (let s = s0\<lparr>createsInFlight := createsInFlight s0 - 1\<rparr>;
          s1 = (if \<not> isActive s then s
                else startPolling now (emit (OnReady webUrl)
                  (s\<lparr>bindingId := Some bid, deadline := now + bindingTimeoutMs, deadlineTimer := True\<rparr>)))
      in s1\<lparr>bl_starting := False\<rparr>)"

definition show_rejected :: "bl_state \<Rightarrow> bl_state" where
  "show_rejected s0 =
     (let s = s0\<lparr>createsInFlight := createsInFlight s0 - 1\<rparr>;
          s1 = (if isActive s then fail BindingFailed s else s)
      in s1\<lparr>bl_starting := False\<rparr>)"

definition bl_hide :: "bl_state \<Rightarrow> bl_state" where
  "bl_hide s = stopPolling (s\<lparr>bl_foreground := False\<rparr>)"

definition bl_unload :: "bl_state \<Rightarrow> bl_state" where
  "bl_unload s = stop (s\<lparr>bl_foreground := False\<rparr>)"

definition cancel :: "bl_state \<Rightarrow> bl_state" where
  "cancel s = stop s"

definition webViewFailed :: "bl_state \<Rightarrow> bl_state" where
  "webViewFailed s = (if \<not> stopped s then fail BindingWebViewFailed s else s)"

datatype bl_event =
    BlShow int
  | BlCreated int jsstr jsstr
  | BlCreateRejected
  | BlHide
  | BlUnload
  | BlCancel
  | BlWebViewFailed
  | BlInterval int
  | BlStatus int binding_status
  | BlStatusRejected
  | BlDeadline

fun bl_enabled :: "bl_state \<Rightarrow> bl_event \<Rightarrow> bool" where
  "bl_enabled s (BlCreated now bid url) = (createsInFlight s > 0)"
| "bl_enabled s BlCreateRejected = (createsInFlight s > 0)"
| "bl_enabled s (BlInterval now) = intervalTimer s"
| "bl_enabled s (BlStatus now st) = (statusInFlight s \<noteq> [])"
| "bl_enabled s BlStatusRejected = (statusInFlight s \<noteq> [])"
| "bl_enabled s BlDeadline = deadlineTimer s"
| "bl_enabled s _ = True"

fun bl_step :: "bl_state \<Rightarrow> bl_event \<Rightarrow> bl_state" where
  "bl_step s (BlShow now) = bl_show now s"
| "bl_step s (BlCreated now bid url) = show_created now bid url s"
| "bl_step s BlCreateRejected = show_rejected s"
| "bl_step s BlHide = bl_hide s"
| "bl_step s BlUnload = bl_unload s"
| "bl_step s BlCancel = cancel s"
| "bl_step s BlWebViewFailed = webViewFailed s"
| "bl_step s (BlInterval now) = poll now s"
| "bl_step s (BlStatus now st) = poll_resolved now st s"
| "bl_step s BlStatusRejected = poll_rejected s"
| "bl_step s BlDeadline = expire s"

abbreviation bl_reach :: "bl_state \<Rightarrow> bool" where
  "bl_reach \<equiv> reach (\<lambda>s. s = bl_new) bl_enabled bl_step"

abbreviation bl_runs :: "bl_state \<Rightarrow> bl_event list \<Rightarrow> bl_state option" where
  "bl_runs \<equiv> runs bl_enabled bl_step"

section \<open>Invariant\<close>

fun terminal :: "bl_callback \<Rightarrow> bool" where
  "terminal OnBound = True"
| "terminal (OnError k) = True"
| "terminal _ = False"

fun is_ready :: "bl_callback \<Rightarrow> bool" where
  "is_ready (OnReady u) = True"
| "is_ready _ = False"

definition bl_inv :: "bl_state \<Rightarrow> bool" where
  "bl_inv s \<longleftrightarrow>
     createsInFlight s = (if bl_starting s then 1 else 0) \<and>
     statusInFlight s = (if polling s then [the (bindingId s)] else []) \<and>
     (polling s \<longrightarrow> bindingId s \<noteq> None) \<and>
     (bl_starting s \<longrightarrow> bindingId s = None) \<and>
     (stopped s \<longrightarrow> \<not> intervalTimer s \<and> \<not> deadlineTimer s) \<and>
     (\<not> stopped s \<longrightarrow> (deadlineTimer s \<longleftrightarrow> bindingId s \<noteq> None)
        \<and> (intervalTimer s \<longleftrightarrow> bl_foreground s \<and> bindingId s \<noteq> None)) \<and>
     length (filter terminal (callbacks s)) \<le> (if stopped s then 1 else 0) \<and>
     length (filter is_ready (callbacks s)) = (if bindingId s = None then 0 else 1)"

lemmas bl_stop_defs = emit_def isActive_def stopPolling_def stop_def fail_def expire_def Let_def

lemma bl_inv_new: "bl_inv bl_new"
  by (simp add: bl_inv_def bl_new_def)

lemma bl_inv_stop: "bl_inv s \<Longrightarrow> bl_inv (stop s)"
  by (cases s) (auto simp: bl_inv_def bl_stop_defs split: if_splits)

lemma bl_inv_fail: "bl_inv s \<Longrightarrow> \<not> stopped s \<Longrightarrow> bl_inv (fail k s)"
  by (cases s) (auto simp: bl_inv_def bl_stop_defs split: if_splits)

lemma bl_inv_expire: "bl_inv s \<Longrightarrow> bl_inv (expire s)"
  by (cases s) (auto simp: bl_inv_def bl_stop_defs split: if_splits)

lemma expire_not_polling:
  "\<not> polling s \<Longrightarrow> (expire (s\<lparr>polling := True\<rparr>))\<lparr>polling := False\<rparr> = expire s"
  by (cases s) (simp add: bl_stop_defs)

lemma bl_inv_poll:
  assumes "bl_inv s"
  shows "bl_inv (poll now s)"
proof (cases "bindingId s = None \<or> \<not> isActive s \<or> polling s")
  case True
  with assms show ?thesis by (auto simp: poll_def split: option.splits)
next
  case False
  then obtain bid where b: "bindingId s = Some bid" "isActive s" "\<not> polling s" by auto
  show ?thesis
  proof (cases "now \<ge> deadline s")
    case True
    with b have "poll now s = expire s" by (simp add: poll_def expire_not_polling)
    with assms show ?thesis by (simp add: bl_inv_expire)
  next
    case False
    with b have "poll now s = s\<lparr>polling := True, statusInFlight := statusInFlight s @ [bid]\<rparr>"
      by (simp add: poll_def)
    with assms b show ?thesis by (simp add: bl_inv_def)
  qed
qed

lemma bl_inv_poll_done:
  "bl_inv s \<Longrightarrow> statusInFlight s \<noteq> [] \<Longrightarrow>
    bl_inv (s\<lparr>statusInFlight := tl (statusInFlight s), polling := False\<rparr>)"
  by (cases s) (auto simp: bl_inv_def split: if_splits)

lemma poll_resolved_eq:
  "poll_resolved now st s =
    (let t = s\<lparr>statusInFlight := tl (statusInFlight s), polling := False\<rparr> in
     if \<not> isActive t then t
     else if now \<ge> deadline t \<or> st = Expired then expire t
     else if st = Bound then emit OnBound (stop t) else t)"
  by (cases s) (simp add: poll_resolved_def bl_stop_defs)

lemma bl_inv_bound: "bl_inv s \<Longrightarrow> \<not> stopped s \<Longrightarrow> bl_inv (emit OnBound (stop s))"
  by (cases s) (auto simp: bl_inv_def bl_stop_defs split: if_splits)

lemma bl_inv_poll_resolved:
  assumes "bl_inv s" "statusInFlight s \<noteq> []"
  shows "bl_inv (poll_resolved now st s)"
proof -
  define t where "t = s\<lparr>statusInFlight := tl (statusInFlight s), polling := False\<rparr>"
  have "bl_inv t" unfolding t_def using assms by (rule bl_inv_poll_done)
  moreover have "poll_resolved now st s = (if \<not> isActive t then t
     else if now \<ge> deadline t \<or> st = Expired then expire t
     else if st = Bound then emit OnBound (stop t) else t)"
    by (simp only: poll_resolved_eq t_def Let_def)
  ultimately show ?thesis by (auto simp: isActive_def intro: bl_inv_expire bl_inv_bound)
qed

lemma bl_inv_poll_rejected: "bl_inv s \<Longrightarrow> statusInFlight s \<noteq> [] \<Longrightarrow> bl_inv (poll_rejected s)"
  by (cases s) (auto simp: bl_inv_def poll_rejected_def bl_stop_defs split: if_splits)

text \<open>
  \<open>startPolling\<close> restores the one clause its callers break: a visible page with a binding has
  a live interval timer.
\<close>

lemma bl_inv_startPolling:
  assumes "isActive s" "bindingId s \<noteq> None" "bl_inv (s\<lparr>intervalTimer := True\<rparr>)"
  shows "bl_inv (startPolling now s)"
proof (cases "intervalTimer s")
  case True
  then have "s\<lparr>intervalTimer := True\<rparr> = s" by simp
  with True assms show ?thesis by (simp add: startPolling_def)
next
  case False
  with assms show ?thesis by (auto simp: startPolling_def intro!: bl_inv_poll)
qed

lemma bl_inv_show: "bl_inv s \<Longrightarrow> bl_inv (bl_show now s)"
proof (cases "stopped s \<or> bindingId s = None")
  case True
  assume "bl_inv s"
  with True show ?thesis
    by (cases "stopped s"; cases "bl_starting s") (auto simp: bl_show_def bl_inv_def emit_def)
next
  case False
  assume "bl_inv s"
  with False have "bl_inv (startPolling now (s\<lparr>bl_foreground := True\<rparr>))"
    by (intro bl_inv_startPolling) (auto simp: bl_inv_def isActive_def)
  with False show ?thesis by (auto simp: bl_show_def Let_def)
qed

lemma startPolling_starting:
  "(startPolling now s)\<lparr>bl_starting := b\<rparr> = startPolling now (s\<lparr>bl_starting := b\<rparr>)"
  by (cases s) (auto simp: startPolling_def poll_def bl_stop_defs split: option.splits)

lemma bl_inv_created:
  assumes "bl_inv s" "createsInFlight s > 0"
  shows "bl_inv (show_created now bid url s)"
proof (cases "isActive s")
  case True
  let ?t = "(emit (OnReady url) (s\<lparr>createsInFlight := createsInFlight s - 1, bindingId := Some bid,
    deadline := now + bindingTimeoutMs, deadlineTimer := True\<rparr>))\<lparr>bl_starting := False\<rparr>"
  have "bl_inv (startPolling now ?t)"
    using assms True
    by (intro bl_inv_startPolling; cases s) (auto simp: bl_inv_def isActive_def emit_def split: if_splits)
  then show ?thesis
    using True by (simp add: show_created_def isActive_def Let_def startPolling_starting)
next
  case False
  with assms show ?thesis
    by (cases s) (auto simp: show_created_def isActive_def bl_inv_def split: if_splits)
qed

lemma bl_inv_rejected: "bl_inv s \<Longrightarrow> createsInFlight s > 0 \<Longrightarrow> bl_inv (show_rejected s)"
  by (cases s) (auto simp: bl_inv_def show_rejected_def bl_stop_defs split: if_splits)

lemma bl_inv_hide: "bl_inv s \<Longrightarrow> bl_inv (bl_hide s)"
  by (cases s) (auto simp: bl_inv_def bl_hide_def stopPolling_def split: if_splits)

lemma bl_inv_unload: "bl_inv s \<Longrightarrow> bl_inv (bl_unload s)"
  by (cases s) (auto simp: bl_inv_def bl_unload_def bl_stop_defs split: if_splits)

lemma bl_inv_step: "bl_inv s \<Longrightarrow> bl_enabled s e \<Longrightarrow> bl_inv (bl_step s e)"
  by (cases e)
    (simp_all add: cancel_def webViewFailed_def bl_inv_show bl_inv_created bl_inv_rejected
      bl_inv_hide bl_inv_unload bl_inv_stop bl_inv_fail bl_inv_poll bl_inv_poll_resolved
      bl_inv_poll_rejected bl_inv_expire)

interpretation bl: event_machine "\<lambda>s. s = bl_new" bl_enabled bl_step bl_inv
  by unfold_locales (auto simp: bl_inv_new bl_inv_step)

section \<open>What a stopped controller does\<close>

lemma stopped_inactive [simp]: "stopped s \<Longrightarrow> \<not> isActive s"
  by (simp add: isActive_def)

lemma stopped_poll: "stopped s \<Longrightarrow> poll now s = s"
  by (auto simp: poll_def split: option.splits)

lemma stopped_stop_frame:
  "stopped (stop s)" "callbacks (stop s) = callbacks s" "bl_foreground (stop s) = bl_foreground s"
  by (simp_all add: stop_def stopPolling_def Let_def)

lemma bl_stopped_step:
  "stopped s \<Longrightarrow> stopped (bl_step s e) \<and> callbacks (bl_step s e) = callbacks s"
  by (cases e) (auto simp: bl_show_def show_created_def show_rejected_def bl_hide_def bl_unload_def
      cancel_def webViewFailed_def stopped_poll poll_resolved_def poll_rejected_def expire_def
      stopped_stop_frame stopPolling_def isActive_def Let_def)

interpretation bls: stopping_machine "\<lambda>s. s = bl_new" bl_enabled bl_step bl_inv stopped callbacks
  by unfold_locales (use bl_stopped_step in blast)

text \<open>The callbacks one step adds, by event.\<close>

lemma poll_callbacks:
  "OnBound \<in> set (callbacks (poll now s)) \<Longrightarrow> OnBound \<in> set (callbacks s)"
  by (auto simp: poll_def bl_stop_defs split: option.splits if_splits)

lemma startPolling_callbacks:
  "OnBound \<in> set (callbacks (startPolling now s)) \<Longrightarrow> OnBound \<in> set (callbacks s)"
  by (auto simp: startPolling_def dest!: poll_callbacks split: if_splits)

lemma onBound_step:
  assumes "OnBound \<in> set (callbacks (bl_step s e))" "OnBound \<notin> set (callbacks s)"
  obtains now where "e = BlStatus now Bound" "now < deadline s" "isActive s"
proof (cases e)
  case (BlStatus now st)
  with assms have "isActive s" "now < deadline s" "st = Bound"
    by (auto simp: poll_resolved_def bl_stop_defs split: if_splits)
  with BlStatus that show ?thesis by blast
next
  case (BlShow now)
  with assms show ?thesis
    by (auto simp: bl_show_def emit_def Let_def dest!: startPolling_callbacks split: if_splits)
next
  case (BlCreated now bid url)
  with assms show ?thesis
    by (auto simp: show_created_def emit_def Let_def dest!: startPolling_callbacks split: if_splits)
next
  case (BlInterval now)
  with assms show ?thesis by (auto dest!: poll_callbacks)
qed (use assms in \<open>auto simp: show_rejected_def bl_hide_def bl_unload_def cancel_def webViewFailed_def
    poll_rejected_def bl_stop_defs split: if_splits\<close>)

section \<open>Specification\<close>

text \<open>
  What the page promises: it has no binding, waits for the one binding it was given, or is over,
  silently (the user left) or with one outcome. Success and expiry come only after waiting, and
  nothing follows the end.
\<close>

datatype binding_phase = NoBinding | Waiting jsstr | Over "bl_callback option"

fun open_phase :: "binding_phase \<Rightarrow> bool" where
  "open_phase (Over oc) = False"
| "open_phase _ = True"

inductive binding_spec :: "binding_phase \<Rightarrow> binding_phase \<Rightarrow> bool" where
  spec_opened: "binding_spec NoBinding (Waiting b)"
| spec_left: "open_phase p \<Longrightarrow> binding_spec p (Over None)"
| spec_failed: "open_phase p \<Longrightarrow> k \<noteq> BindingExpired \<Longrightarrow> binding_spec p (Over (Some (OnError k)))"
| spec_expired: "binding_spec (Waiting b) (Over (Some (OnError BindingExpired)))"
| spec_bound: "binding_spec (Waiting b) (Over (Some OnBound))"

inductive_cases binding_spec_OverE: "binding_spec (Over oc) p"

lemma binding_spec_Over: "binding_spec\<^sup>*\<^sup>* (Over oc) p \<Longrightarrow> p = Over oc"
  by (induction rule: rtranclp_induct) (auto elim: binding_spec.cases)

definition phase :: "bl_state \<Rightarrow> binding_phase" where
  "phase s =
     (if stopped s then Over (find terminal (callbacks s))
      else case bindingId s of None \<Rightarrow> NoBinding | Some b \<Rightarrow> Waiting b)"

lemma phase_cong:
  "stopped s = stopped t \<Longrightarrow> bindingId s = bindingId t \<Longrightarrow> find terminal (callbacks s) = find terminal (callbacks t) \<Longrightarrow>
     phase s = phase t"
  by (simp add: phase_def)

lemma find_append: "find P (xs @ ys) = (case find P xs of None \<Rightarrow> find P ys | Some x \<Rightarrow> Some x)"
  by (induction xs) auto

lemma open_no_outcome: "bl_inv s \<Longrightarrow> \<not> stopped s \<Longrightarrow> find terminal (callbacks s) = None"
  by (auto simp: bl_inv_def find_None_iff filter_empty_conv)

lemma open_phase_iff: "open_phase (phase s) \<longleftrightarrow> \<not> stopped s"
  by (simp add: phase_def split: option.splits)

lemma phase_stop: "bl_inv s \<Longrightarrow> \<not> stopped s \<Longrightarrow> phase (stop s) = Over None"
  by (simp add: phase_def stopped_stop_frame open_no_outcome)

lemma phase_outcome:
  "bl_inv s \<Longrightarrow> \<not> stopped s \<Longrightarrow> terminal c \<Longrightarrow> phase (emit c (stop s)) = Over (Some c)"
  by (simp add: phase_def emit_def stopped_stop_frame open_no_outcome find_append)

lemma phase_expire:
  "bl_inv s \<Longrightarrow> bindingId s = Some b \<Longrightarrow> phase (expire s) = phase s \<or> binding_spec (phase s) (phase (expire s))"
  by (cases "stopped s") (auto simp: expire_def phase_outcome, simp add: phase_def spec_expired)

lemma phase_fail:
  "bl_inv s \<Longrightarrow> \<not> stopped s \<Longrightarrow> k \<noteq> BindingExpired \<Longrightarrow> binding_spec (phase s) (phase (fail k s))"
  by (simp add: fail_def phase_outcome spec_failed open_phase_iff)

lemma phase_poll: "bl_inv s \<Longrightarrow> phase (poll now s) = phase s \<or> binding_spec (phase s) (phase (poll now s))"
proof (cases "bindingId s")
  case (Some b)
  assume inv: "bl_inv s"
  show ?thesis
  proof (cases "isActive s \<and> \<not> polling s \<and> now \<ge> deadline s")
    case True
    with Some have "poll now s = expire s" by (simp add: poll_def expire_not_polling)
    with phase_expire[OF inv Some] show ?thesis by simp
  next
    case False
    with Some show ?thesis by (auto simp: poll_def phase_def Let_def)
  qed
qed (simp add: poll_def)

lemma phase_fields [simp]:
  "phase (s\<lparr>intervalTimer := b\<rparr>) = phase s" "phase (s\<lparr>bl_foreground := b\<rparr>) = phase s"
  "phase (s\<lparr>polling := b\<rparr>) = phase s" "phase (s\<lparr>bl_starting := b\<rparr>) = phase s"
  "phase (s\<lparr>createsInFlight := n\<rparr>) = phase s" "phase (s\<lparr>statusInFlight := xs\<rparr>) = phase s"
  "phase (stopPolling s) = phase s"
  by (simp_all add: phase_def stopPolling_def)

lemma phase_emit: "\<not> terminal c \<Longrightarrow> phase (emit c s) = phase s"
  by (simp add: phase_def emit_def find_append split: option.splits)

lemma phase_poll_early: "now < deadline s \<Longrightarrow> phase (poll now s) = phase s"
  by (auto simp: poll_def phase_def split: option.splits)

lemma phase_startPolling:
  "bl_inv (s\<lparr>intervalTimer := True\<rparr>) \<Longrightarrow>
     phase (startPolling now s) = phase s \<or> binding_spec (phase s) (phase (startPolling now s))"
  using phase_poll[of "s\<lparr>intervalTimer := True\<rparr>" now] by (simp add: startPolling_def)

lemma phase_show: "bl_inv s \<Longrightarrow> phase (bl_show now s) = phase s \<or> binding_spec (phase s) (phase (bl_show now s))"
proof (cases "stopped s \<or> bindingId s = None")
  case True
  then show ?thesis by (auto simp: bl_show_def Let_def phase_emit)
next
  case False
  assume "bl_inv s"
  with False have "bl_inv (s\<lparr>bl_foreground := True, intervalTimer := True\<rparr>)" by (auto simp: bl_inv_def)
  from phase_startPolling[OF this, of now] False show ?thesis by (auto simp: bl_show_def Let_def)
qed

lemma phase_created:
  "bl_inv s \<Longrightarrow> createsInFlight s > 0 \<Longrightarrow>
     phase (show_created now bid url s) = phase s \<or> binding_spec (phase s) (phase (show_created now bid url s))"
proof (cases "isActive s")
  case True
  assume "bl_inv s" "createsInFlight s > 0"
  then have "bindingId s = None" by (auto simp: bl_inv_def split: if_splits)
  with True have "phase s = NoBinding" by (simp add: phase_def isActive_def)
  moreover have "phase (startPolling now t) = phase t" if "now < deadline t" for t
    using phase_poll_early[of now "t\<lparr>intervalTimer := True\<rparr>"] that by (simp add: startPolling_def)
  ultimately show ?thesis
    using True spec_opened
    by (simp add: show_created_def isActive_def Let_def emit_def bindingTimeoutMs_def)
      (auto simp: phase_def isActive_def spec_opened)
qed (simp add: show_created_def isActive_def Let_def)

lemma phase_step: "bl_inv s \<Longrightarrow> bl_enabled s e \<Longrightarrow> phase (bl_step s e) = phase s \<or> binding_spec (phase s) (phase (bl_step s e))"
proof (cases "stopped s")
  case True
  then show ?thesis using bl_stopped_step[OF True, of e] by (simp add: phase_def)
next
  case False
  assume inv: "bl_inv s" and en: "bl_enabled s e"
  note gone = inv False
  have leave: "binding_spec (phase s) (phase (stop s))" using phase_stop[OF gone] False by (simp add: spec_left open_phase_iff)
  show ?thesis
  proof (cases e)
    case (BlStatus now st)
    let ?t = "s\<lparr>statusInFlight := tl (statusInFlight s), polling := False\<rparr>"
    have t: "bl_inv ?t" "\<not> stopped ?t" using bl_inv_poll_done[OF inv] en BlStatus False by simp_all
    from inv en BlStatus obtain b where b: "bindingId s = Some b" by (auto simp: bl_inv_def split: if_splits)
    with False have w: "phase s = Waiting b" by (simp add: phase_def)
    have "phase (emit OnBound (stop ?t)) = Over (Some OnBound)" using phase_outcome[OF t] by simp
    then show ?thesis
      using BlStatus phase_expire[OF t(1)] b spec_bound[of b]
      by (auto simp: poll_resolved_eq Let_def w)
  next
    case BlDeadline
    with inv en False obtain b where "bindingId s = Some b" by (auto simp: bl_inv_def)
    with phase_expire[OF inv] BlDeadline show ?thesis by simp
  next
    case BlUnload
    have "bl_inv (bl_hide s)" using inv by (rule bl_inv_hide)
    with BlUnload False inv leave show ?thesis by (auto simp: bl_unload_def phase_def stopped_stop_frame)
  next
    case BlCreateRejected
    then show ?thesis using False inv
      by (auto simp: show_rejected_def Let_def fail_def phase_def isActive_def emit_def stopped_stop_frame
          open_no_outcome find_append spec_failed split: option.splits)
  next
    case BlStatusRejected
    then show ?thesis using False inv
      by (auto simp: poll_rejected_def Let_def fail_def phase_def isActive_def emit_def stopped_stop_frame
          open_no_outcome find_append spec_failed split: option.splits)
  qed (use inv en False leave phase_show phase_created phase_poll phase_fail[OF gone] in
      \<open>auto simp: bl_hide_def cancel_def webViewFailed_def\<close>)
qed

interpretation blr: refining_machine "\<lambda>s. s = bl_new" bl_enabled bl_step bl_inv phase "\<lambda>p. p = NoBinding" binding_spec
  by unfold_locales (auto simp: bl_new_def phase_def phase_step dest: phase_step)

section \<open>Properties\<close>

text \<open>
  C22. In every reachable state of the binding page at most one \<open>createBinding\<close> and at most one
  \<open>getStatus\<close> request is pending, and the latter is for the page's binding; the flags
  \<open>starting\<close> and \<open>polling\<close> say exactly whether one is. The page has reported an outcome (bound
  or failed) at most once and only after it stopped; a stopped page has no live timer; a page
  that is not stopped has a live deadline timer from the moment it has a binding, and a live
  poll timer exactly while it is also in the foreground.
\<close>

theorem binding_lifecycle_safe:
  assumes "bl_reach s"
  shows "createsInFlight s = (if bl_starting s then 1 else 0)
    \<and> statusInFlight s = (if polling s then [the (bindingId s)] else [])
    \<and> length (filter terminal (callbacks s)) \<le> (if stopped s then 1 else 0)
    \<and> (stopped s \<longrightarrow> \<not> intervalTimer s \<and> \<not> deadlineTimer s)
    \<and> (\<not> stopped s \<longrightarrow> deadlineTimer s = (bindingId s \<noteq> None)
         \<and> intervalTimer s = (bl_foreground s \<and> bindingId s \<noteq> None))"
  using bl.reach_inv[OF assms] unfolding bl_inv_def by blast

theorem binding_lifecycle_safe_witness:
  "\<exists>s. bl_reach s \<and> \<not> stopped s \<and> deadlineTimer s \<and> intervalTimer s \<and> polling s
     \<and> statusInFlight s = [js ''b1'']"
proof -
  let ?s = "bl_step (bl_step bl_new (BlShow 0)) (BlCreated 100 (js ''b1'') (js ''https://x''))"
  have r: "bl_reach ?s"
    by (intro reach_step reach_init) (auto simp: bl_show_def bl_new_def emit_def Let_def)
  have s: "\<not> stopped ?s" "bindingId ?s = Some (js ''b1'')" "bl_foreground ?s" "polling ?s"
    by code_simp+
  show ?thesis using binding_lifecycle_safe[OF r] s r by (intro exI[of _ ?s]) (simp only: if_True option.sel simp_thms option.simps)
qed

text \<open>
  C31. Stopping is final: from a reachable stopped state no sequence of events makes another
  callback or leaves the stopped state. Unloading or cancelling the page stops it.
\<close>

theorem binding_stopped_final:
  assumes "bl_reach s" "stopped s" "bl_runs s es = Some t"
  shows "stopped t \<and> callbacks t = callbacks s"
  using bls.stopped_runs bl.reach_inv assms by blast

theorem binding_stopped_final_witness:
  "\<exists>s t. bl_reach s \<and> stopped s \<and> bl_runs s [BlShow 7, BlHide] = Some t \<and> stopped t
     \<and> callbacks t = callbacks s"
proof -
  let ?s = "bl_step bl_new BlUnload"
  have r: "bl_reach ?s" by (intro reach_step reach_init) auto
  have st: "stopped ?s" by (simp add: bl_unload_def stop_def stopPolling_def Let_def bl_new_def)
  obtain t where t: "bl_runs ?s [BlShow 7, BlHide] = Some t" by simp
  show ?thesis using binding_stopped_final[OF r st t] r st t by blast
qed

text \<open>
  The page reports success only on the server's word and in time: a step that makes the
  \<open>onBound\<close> callback is the answer \<open>bound\<close> to a pending status request, delivered before the
  deadline while the page is in the foreground and not stopped; it stops the page.
\<close>

theorem binding_bound_only_on_status:
  assumes "OnBound \<in> set (callbacks (bl_step s e))" "OnBound \<notin> set (callbacks s)" "bl_enabled s e"
  shows "\<exists>now. e = BlStatus now Bound \<and> now < deadline s \<and> bl_foreground s \<and> \<not> stopped s
    \<and> statusInFlight s \<noteq> [] \<and> stopped (bl_step s e)"
proof -
  obtain now where e: "e = BlStatus now Bound" "now < deadline s" "isActive s"
    using onBound_step assms(1,2) by blast
  then have "stopped (bl_step s e)"
    by (simp add: poll_resolved_def isActive_def emit_def stopped_stop_frame Let_def)
  with e assms(3) show ?thesis by (auto simp: isActive_def)
qed

theorem binding_bound_only_on_status_witness:
  "\<exists>s. bl_enabled s (BlStatus 5 Bound) \<and> OnBound \<in> set (callbacks (bl_step s (BlStatus 5 Bound)))
     \<and> 5 < deadline s \<and> stopped (bl_step s (BlStatus 5 Bound))"
proof -
  let ?s = "bl_new\<lparr>bindingId := Some [], bl_foreground := True, deadline := 9, polling := True,
    statusInFlight := [[]]\<rparr>"
  have a: "OnBound \<in> set (callbacks (bl_step ?s (BlStatus 5 Bound)))" "OnBound \<notin> set (callbacks ?s)"
    "bl_enabled ?s (BlStatus 5 Bound)"
    by (simp_all add: bl_new_def poll_resolved_def isActive_def emit_def stop_def stopPolling_def Let_def)
  show ?thesis using binding_bound_only_on_status[OF a] a by blast
qed

text \<open>
  C32. The wait for a binding ends: whenever a page that is not stopped has a binding, its
  deadline timer is live, and when it fires the page stops and reports \<open>bindingExpired\<close>.
\<close>

theorem binding_deadline_stops:
  assumes "bl_reach s" "\<not> stopped s" "bindingId s \<noteq> None"
  shows "bl_enabled s BlDeadline \<and> stopped (bl_step s BlDeadline)
    \<and> callbacks (bl_step s BlDeadline) = callbacks s @ [OnError BindingExpired]"
  using bl.reach_inv[OF assms(1)] assms(2,3)
  by (simp add: bl_inv_def expire_def emit_def stopped_stop_frame)

theorem binding_deadline_stops_witness:
  "\<exists>s. bl_reach s \<and> \<not> stopped s \<and> stopped (bl_step s BlDeadline)"
proof -
  let ?s = "bl_step (bl_step bl_new (BlShow 0)) (BlCreated 100 (js ''b1'') (js ''https://x''))"
  have r: "bl_reach ?s"
    by (intro reach_step reach_init) (auto simp: bl_show_def bl_new_def emit_def Let_def)
  have s: "\<not> stopped ?s" "bindingId ?s \<noteq> None" by code_simp+
  show ?thesis using binding_deadline_stops[OF r s] r s by blast
qed

text \<open>
  C4. The page implements its specification: along every execution its phase starts without a binding and
  moves only as the specification allows. It waits for one binding, reports success or expiry only after
  waiting for it, and once over never leaves that phase.
\<close>

theorem binding_refines_spec:
  assumes "bl_reach s" "bl_runs s es = Some t"
  shows "binding_spec\<^sup>*\<^sup>* NoBinding (phase s) \<and> binding_spec\<^sup>*\<^sup>* (phase s) (phase t)"
  using blr.reach_refine[OF assms(1)] blr.runs_refine[OF bl.reach_inv[OF assms(1)] assms(2)] by blast

theorem binding_refines_spec_witness:
  "\<exists>s t. bl_reach s \<and> bl_runs s [BlStatus 200 Bound] = Some t \<and> phase s = Waiting (js ''b1'')
     \<and> phase t = Over (Some OnBound) \<and> binding_spec\<^sup>*\<^sup>* (phase s) (phase t)"
proof -
  let ?s = "bl_step (bl_step bl_new (BlShow 0)) (BlCreated 100 (js ''b1'') (js ''https://x''))"
  let ?t = "bl_step ?s (BlStatus 200 Bound)"
  have r: "bl_reach ?s"
    by (intro reach_step reach_init) (auto simp: bl_show_def bl_new_def emit_def Let_def)
  have "bl_enabled ?s (BlStatus 200 Bound)" "phase ?s = Waiting (js ''b1'')" "phase ?t = Over (Some OnBound)"
    by code_simp+
  moreover from this(1) have "bl_runs ?s [BlStatus 200 Bound] = Some ?t" by (simp del: bl_step.simps bl_enabled.simps)
  ultimately show ?thesis using binding_refines_spec[OF r] r by blast
qed

end
