(* ===== verification/Miniapp_Session.thy ===== *)
theory Miniapp_Session
  imports Js_Prelude
begin

text \<open>
  Session state of the mini program: the in-memory access session
  (\<open>miniapp/src/lib/session.ts\<close>) and the identifier of a running text test kept in the
  device's storage (\<open>miniapp/src/lib/pending-text-test.ts\<close>).

  The device storage is Taro's synchronous storage API: the one key the sources use is a cell,
  and each of the three calls may throw, which is a flag of the device. \<open>Date.now()\<close> is the
  argument \<open>now\<close> in milliseconds.
\<close>

section \<open>Pending text test\<close>

record taro_store =
  stored :: jsval
  getThrows :: bool
  setThrows :: bool
  removeThrows :: bool

definition is_hex_ci :: "int \<Rightarrow> bool" where
  "is_hex_ci u \<longleftrightarrow> (48 \<le> u \<and> u \<le> 57) \<or> (97 \<le> u \<and> u \<le> 102) \<or> (65 \<le> u \<and> u \<le> 70)"

text \<open>The pattern \<open>uuidV4Pattern\<close>, one test per position.\<close>

definition uuidV4Pattern :: "(int \<Rightarrow> bool) list" where
  "uuidV4Pattern =
     replicate 8 is_hex_ci @ [\<lambda>u. u = 45] @ replicate 4 is_hex_ci @ [\<lambda>u. u = 45] @
     [\<lambda>u. u = 52] @ replicate 3 is_hex_ci @ [\<lambda>u. u = 45] @
     [\<lambda>u. u \<in> {56, 57, 97, 98, 65, 66}] @ replicate 3 is_hex_ci @ [\<lambda>u. u = 45] @
     replicate 12 is_hex_ci"

fun matches :: "(int \<Rightarrow> bool) list \<Rightarrow> jsstr \<Rightarrow> bool" where
  "matches [] [] = True"
| "matches (p # ps) (u # us) = (p u \<and> matches ps us)"
| "matches _ _ = False"

definition isTextTestRequestID :: "jsval \<Rightarrow> bool" where
  "isTextTestRequestID v \<longleftrightarrow> is_str v \<and> matches uuidV4Pattern (str_of v)"

text \<open>Taro reads a missing key as the empty string.\<close>

definition clearPendingTextTestRequestID :: "taro_store \<Rightarrow> taro_store" where
  "clearPendingTextTestRequestID st = (if removeThrows st then st else st\<lparr>stored := JStr []\<rparr>)"

definition getPendingTextTestRequestID :: "taro_store \<Rightarrow> jsstr option \<times> taro_store" where
  "getPendingTextTestRequestID st =
     (if getThrows st then (None, st)
      else if isTextTestRequestID (stored st) then (Some (str_of (stored st)), st)
      else (None, clearPendingTextTestRequestID st))"

definition setPendingTextTestRequestID :: "jsstr option \<Rightarrow> taro_store \<Rightarrow> taro_store" where
  "setPendingTextTestRequestID r st =
     (case r of
        None \<Rightarrow> clearPendingTextTestRequestID st
      | Some requestID \<Rightarrow>
          if \<not> isTextTestRequestID (JStr requestID) then clearPendingTextTestRequestID st
          else if setThrows st then st
          else st\<lparr>stored := JStr requestID\<rparr>)"

section \<open>Access session\<close>

record MiniAppSession =
  accessToken :: jsstr
  accessExpiresAt :: jsnum
  sid :: jsstr

text \<open>The module-level variables of the mini program and its device storage.\<close>

record mini_state =
  currentSession :: "MiniAppSession option"
  pendingIdentityTicket :: "jsstr option"
  checkoutWebURL :: "jsstr option"
  device :: taro_store

definition setMiniAppSession :: "MiniAppSession \<Rightarrow> mini_state \<Rightarrow> mini_state" where
  "setMiniAppSession session st = st\<lparr>currentSession :=
     Some \<lparr>accessToken = trim (accessToken session), accessExpiresAt = accessExpiresAt session,
           sid = trim (sid session)\<rparr>\<rparr>"

definition clearMiniAppSession :: "mini_state \<Rightarrow> mini_state" where
  "clearMiniAppSession st =
     st\<lparr>currentSession := None, device := clearPendingTextTestRequestID (device st)\<rparr>"

definition now_seconds :: "int \<Rightarrow> jsnum" where
  "now_seconds now = int_num (now div 1000)"

definition getMiniAppSession :: "int \<Rightarrow> mini_state \<Rightarrow> MiniAppSession option \<times> mini_state" where
  "getMiniAppSession now st =
     (case currentSession st of
        None \<Rightarrow> (None, st)
      | Some s \<Rightarrow>
          if js_le (accessExpiresAt s) (now_seconds now) then (None, clearMiniAppSession st)
          else (Some s, st))"

section \<open>Lemmas\<close>

lemma clearMiniAppSession_simps [simp]:
  "currentSession (clearMiniAppSession st) = None"
  "pendingIdentityTicket (clearMiniAppSession st) = pendingIdentityTicket st"
  "checkoutWebURL (clearMiniAppSession st) = checkoutWebURL st"
  by (simp_all add: clearMiniAppSession_def)

lemma setMiniAppSession_simps [simp]:
  "pendingIdentityTicket (setMiniAppSession s st) = pendingIdentityTicket st"
  "checkoutWebURL (setMiniAppSession s st) = checkoutWebURL st"
  "device (setMiniAppSession s st) = device st"
  by (simp_all add: setMiniAppSession_def)

lemma getMiniAppSession_Some:
  "getMiniAppSession now st = (Some s, st') \<Longrightarrow>
     st' = st \<and> currentSession st = Some s \<and> \<not> js_le (accessExpiresAt s) (now_seconds now)"
  by (auto simp: getMiniAppSession_def split: option.splits if_splits)

lemma getMiniAppSession_None:
  "getMiniAppSession now st = (None, st') \<Longrightarrow> currentSession st' = None"
  by (auto simp: getMiniAppSession_def split: option.splits if_splits)

lemma getMiniAppSession_frame:
  "getMiniAppSession now st = (r, st') \<Longrightarrow> pendingIdentityTicket st' = pendingIdentityTicket st
     \<and> checkoutWebURL st' = checkoutWebURL st \<and> (currentSession st' = currentSession st \<or> currentSession st' = None)"
  by (auto simp: getMiniAppSession_def split: option.splits if_splits)

lemma getMiniAppSession_current:
  "currentSession (snd (getMiniAppSession now st)) = fst (getMiniAppSession now st)"
  by (auto simp: getMiniAppSession_def split: option.splits)

section \<open>Properties\<close>

text \<open>
  What the page stores as a running text test is what it reads back: a valid request
  identifier written to a working storage is returned by the next read, whatever was stored
  before; anything else reads as absent, and a read never returns an identifier that is not a
  version 4 UUID.
\<close>

theorem pending_text_test_roundtrip:
  assumes "\<not> getThrows st" "\<not> setThrows st" "\<not> removeThrows st"
  shows "fst (getPendingTextTestRequestID (setPendingTextTestRequestID r st)) =
      (case r of Some i \<Rightarrow> if isTextTestRequestID (JStr i) then Some i else None | None \<Rightarrow> None)
    \<and> (\<forall>i. fst (getPendingTextTestRequestID st) = Some i \<longrightarrow> isTextTestRequestID (JStr i))"
proof -
  have "\<not> isTextTestRequestID (JStr [])"
    by (simp add: isTextTestRequestID_def uuidV4Pattern_def numeral_eq_Suc)
  then show ?thesis
    using assms
    by (auto simp: getPendingTextTestRequestID_def setPendingTextTestRequestID_def
        clearPendingTextTestRequestID_def isTextTestRequestID_def is_str_iff split: option.splits)
qed

theorem pending_text_test_roundtrip_witness:
  "fst (getPendingTextTestRequestID (setPendingTextTestRequestID
      (Some (js ''0f8fad5b-d9cb-469f-a165-70867728950e''))
      \<lparr>stored = JStr (js ''junk''), getThrows = False, setThrows = False, removeThrows = False\<rparr>))
   = Some (js ''0f8fad5b-d9cb-469f-a165-70867728950e'')"
proof -
  let ?i = "js ''0f8fad5b-d9cb-469f-a165-70867728950e''"
  let ?st = "\<lparr>stored = JStr (js ''junk''), getThrows = False, setThrows = False, removeThrows = False\<rparr>"
  have "isTextTestRequestID (JStr ?i)" by code_simp
  moreover have "\<not> getThrows ?st" "\<not> setThrows ?st" "\<not> removeThrows ?st" by simp_all
  ultimately show ?thesis using pending_text_test_roundtrip[of ?st "Some ?i"] by simp
qed

text \<open>
  A session is handed out only while it is valid: what \<open>getMiniAppSession\<close> returns is the
  stored session and expires after the current second; when it returns nothing, no session is
  left in memory, and an expired one has been dropped together with the identifier of the
  running text test.
\<close>

theorem mini_session_never_expired:
  "case getMiniAppSession now st of
     (Some s, st') \<Rightarrow> st' = st \<and> currentSession st = Some s
       \<and> \<not> js_le (accessExpiresAt s) (now_seconds now)
   | (None, st') \<Rightarrow> currentSession st' = None
       \<and> st' = (if currentSession st = None then st else clearMiniAppSession st)"
  by (auto simp: getMiniAppSession_def split: option.splits)

end
