(* ===== verification/Miniapp_Api.thy ===== *)
theory Miniapp_Api
  imports Miniapp_Session
begin

text \<open>
  The HTTP client of the mini program (\<open>miniapp/src/lib/api.ts\<close>): it builds the request,
  attaches the authorization, retries a GET once, and turns every failure into a
  \<open>MiniAppApiError\<close>.

  Parameters of the model, collected in \<open>api_env\<close>: the configured base URL, the platform's URL
  parser, the clock, the random request identifier, and the network. The network answers the
  n-th attempt of a call with a response or a failure; nothing is assumed about it. A handler
  that throws a \<open>TypeError\<close> inside the \<open>try\<close> block (a message that is not a string) ends in
  the \<open>catch\<close> block like a network failure.
\<close>

section \<open>Model\<close>

record url =
  protocol :: jsstr
  hostname :: jsstr
  username :: jsstr
  password :: jsstr
  pathname :: jsstr
  search :: jsstr
  hash :: jsstr
  origin :: jsstr
  href :: jsstr

datatype ApiMethod = GET | POST | PUT | PATCH | DELETE

datatype RequestAuth = NoAuth | SessionAuth | BearerAuth jsstr

record ApiRequestOptions =
  path :: jsstr
  req_method :: ApiMethod
  req_data :: jsval
  auth :: RequestAuth
  timeout :: "jsnum option"

record MiniAppApiError =
  code :: jsval
  message :: jsstr
  status :: int
  requestId :: "jsstr option"

record taro_request =
  t_url :: jsstr
  t_method :: ApiMethod
  t_data :: jsval
  t_authorization :: "jsstr option"
  t_timeout :: jsnum

datatype taro_outcome =
    NetworkFailure
  | Response int jsval jsval

record api_env =
  baseUrlConfig :: jsval
  parseURL :: "jsstr \<Rightarrow> url option"
  clock :: int
  freshRequestId :: jsstr
  network :: "nat \<Rightarrow> taro_request \<Rightarrow> taro_outcome"

definition api_error :: "string \<Rightarrow> string \<Rightarrow> MiniAppApiError" where
  "api_error c m = \<lparr>code = JStr (js c), message = js m, status = 0, requestId = None\<rparr>"

definition requestTimeout :: jsnum where "requestTimeout = int_num 10000"

definition maximumRequestTimeout :: jsnum where "maximumRequestTimeout = int_num 20000"

definition miniAppApiPath :: jsstr where "miniAppApiPath = js ''/api/miniapp/v1''"

text \<open>\<open>s.replace(/\/$/, '')\<close>\<close>

definition drop_last_slash :: "jsstr \<Rightarrow> jsstr" where
  "drop_last_slash s = (if s \<noteq> [] \<and> last s = 47 then butlast s else s)"

definition getBaseUrl :: "api_env \<Rightarrow> MiniAppApiError + jsstr" where
  "getBaseUrl env =
     (let baseUrl = (if is_str (baseUrlConfig env) then trim (str_of (baseUrlConfig env)) else []) in
      if baseUrl = [] then Inl (api_error ''MINIAPP_CONFIG_ERROR'' ''Mini Program API is not configured'')
      else case parseURL env baseUrl of
        None \<Rightarrow> Inl (api_error ''MINIAPP_CONFIG_ERROR'' ''Mini Program API URL is invalid'')
      | Some parsed \<Rightarrow>
          if protocol parsed \<noteq> js ''https:'' \<or> hostname parsed = [] \<or> search parsed \<noteq> [] \<or> hash parsed \<noteq> []
          then Inl (api_error ''MINIAPP_CONFIG_ERROR'' ''Mini Program API URL must be an HTTPS origin'')
          else Inr (drop_last_slash (href parsed)))"

definition getRequestUrl :: "api_env \<Rightarrow> jsstr \<Rightarrow> MiniAppApiError + jsstr" where
  "getRequestUrl env p =
     (if \<not> starts_with p (js ''/'') then Inl (api_error ''MINIAPP_CONFIG_ERROR'' ''Mini Program API path is invalid'')
      else bind_sum (getBaseUrl env) (\<lambda>b. Inr (b @ miniAppApiPath @ p)))"

text \<open>An array has only index keys, which no header name equals.\<close>

definition getHeaderValue :: "jsval \<Rightarrow> jsstr \<Rightarrow> jsstr option" where
  "getHeaderValue headers name =
     (case headers of
        JObj ps \<Rightarrow>
          (case find (\<lambda>(k, v). to_lower k = to_lower name \<and> is_str v) ps of
             Some (k, v) \<Rightarrow> Some (str_of v)
           | None \<Rightarrow> None)
      | _ \<Rightarrow> None)"

definition sessionError :: "jsval \<Rightarrow> int \<Rightarrow> bool" where
  "sessionError c st \<longleftrightarrow>
     st = 401 \<or> c = JStr (js ''MINIAPP_SESSION_INVALID'') \<or> c = JStr (js ''AUTH_UNAUTHORIZED'')"

text \<open>\<open>None\<close>: the call of \<open>trim\<close> on a message that is not a string throws.\<close>

definition toApiError :: "int \<Rightarrow> jsval option \<Rightarrow> jsstr option \<Rightarrow> MiniAppApiError option" where
  "toApiError st envelope rid =
     (case envelope of
        None \<Rightarrow> Some \<lparr>code = JStr (js ''MINIAPP_INVALID_RESPONSE''),
                  message = js ''Mini Program API returned an invalid response'',
                  status = st, requestId = rid\<rparr>
      | Some e \<Rightarrow>
          let c = (if jget e (js ''code'') \<in> {JUndefined, JNull}
                   then JStr (js ''MINIAPP_REQUEST_FAILED'') else jget e (js ''code''));
              fallback = js ''Mini Program request failed''
          in case jget e (js ''message'') of
               JUndefined \<Rightarrow> Some \<lparr>code = c, message = fallback, status = st, requestId = rid\<rparr>
             | JNull \<Rightarrow> Some \<lparr>code = c, message = fallback, status = st, requestId = rid\<rparr>
             | JStr m \<Rightarrow> Some \<lparr>code = c, message = (if trim m = [] then fallback else trim m),
                                status = st, requestId = rid\<rparr>
             | _ \<Rightarrow> None)"

definition asEnvelope :: "jsval \<Rightarrow> jsval option" where
  "asEnvelope v = (if \<not> is_record v \<or> \<not> is_bool (jget v (js ''success'')) then None else Some v)"

definition networkError :: "jsstr \<Rightarrow> MiniAppApiError" where
  "networkError rid = \<lparr>code = JStr (js ''MINIAPP_NETWORK_ERROR''),
     message = js ''Mini Program network request failed'', status = 0, requestId = Some rid\<rparr>"

text \<open>
  One pass of the loop's \<open>try\<close> block: the result of the call, a retry with the error remembered,
  a \<open>MiniAppApiError\<close> to throw, or any other exception.
\<close>

datatype attempt_result =
    Returns jsval
  | Retries MiniAppApiError
  | Throws MiniAppApiError
  | ThrowsOther

definition attempt_response ::
  "ApiRequestOptions \<Rightarrow> jsstr \<Rightarrow> nat \<Rightarrow> nat \<Rightarrow> taro_outcome \<Rightarrow> attempt_result" where
  "attempt_response options rid attempt attemptLimit outcome =
     (case outcome of
        NetworkFailure \<Rightarrow> ThrowsOther
      | Response statusCode header data \<Rightarrow>
          let responseRequestId =
                (case getHeaderValue header (js ''x-oneapi-request-id'') of Some i \<Rightarrow> i | None \<Rightarrow> rid);
              envelope = asEnvelope data
          in if statusCode \<ge> 500 \<and> req_method options = GET \<and> attempt + 1 < attemptLimit then
               (case toApiError statusCode envelope (Some responseRequestId) of
                  None \<Rightarrow> ThrowsOther | Some e \<Rightarrow> Retries e)
             else if statusCode < 200 \<or> statusCode \<ge> 300 \<or> envelope = None
                     \<or> \<not> bool_of (jget data (js ''success'')) then
               (case toApiError statusCode envelope (Some responseRequestId) of
                  None \<Rightarrow> ThrowsOther | Some e \<Rightarrow> Throws e)
             else Returns (jget data (js ''data'')))"

text \<open>The loop; the second component is the number of requests sent.\<close>

fun request_loop ::
  "api_env \<Rightarrow> ApiRequestOptions \<Rightarrow> taro_request \<Rightarrow> nat \<Rightarrow> nat \<Rightarrow> MiniAppApiError option \<Rightarrow> mini_state
     \<Rightarrow> (MiniAppApiError + jsval) \<times> mini_state \<times> nat" where
  "request_loop env options req attempt 0 lastError st =
     (Inl (case lastError of Some e \<Rightarrow> e | None \<Rightarrow> networkError (freshRequestId env)), st, attempt)"
| "request_loop env options req attempt (Suc remaining) lastError st =
     (let attemptLimit = attempt + Suc remaining; rid = freshRequestId env in
      case attempt_response options rid attempt attemptLimit (network env attempt req) of
        Returns v \<Rightarrow> (Inr v, st, Suc attempt)
      | Retries e \<Rightarrow> request_loop env options req (Suc attempt) remaining (Some e) st
      | Throws e \<Rightarrow>
          (Inl e,
           (if auth options = SessionAuth \<and> sessionError (code e) (status e)
            then clearMiniAppSession st else st),
           Suc attempt)
      | ThrowsOther \<Rightarrow>
          if req_method options \<noteq> GET \<or> attempt + 1 \<ge> attemptLimit
          then (Inl (networkError rid), st, Suc attempt)
          else request_loop env options req (Suc attempt) remaining (Some (networkError rid)) st)"

definition authorization ::
  "api_env \<Rightarrow> ApiRequestOptions \<Rightarrow> mini_state \<Rightarrow> (MiniAppApiError + jsstr option) \<times> mini_state" where
  "authorization env options st =
     (case auth options of
        NoAuth \<Rightarrow> (Inr None, st)
      | SessionAuth \<Rightarrow>
          (case getMiniAppSession (clock env) st of
             (None, st') \<Rightarrow>
               (Inl (api_error ''MINIAPP_SESSION_UNAVAILABLE'' ''Mini Program session is unavailable''), st')
           | (Some s, st') \<Rightarrow> (Inr (Some (js ''Bearer '' @ accessToken s)), st'))
      | BearerAuth t \<Rightarrow>
          let token = trim t in
          if token = []
          then (Inl (api_error ''MINIAPP_AUTH_UNAVAILABLE'' ''Mini Program authorization is unavailable''), st)
          else (Inr (Some (js ''Bearer '' @ token)), st))"

definition valid_timeout :: "jsnum \<Rightarrow> bool" where
  "valid_timeout t \<longleftrightarrow> is_safe_integer_num t \<and> \<not> js_le t (int_num 0) \<and> \<not> js_lt maximumRequestTimeout t"

definition request ::
  "api_env \<Rightarrow> ApiRequestOptions \<Rightarrow> mini_state \<Rightarrow> (MiniAppApiError + jsval) \<times> mini_state \<times> nat" where
  "request env options st =
     (case getRequestUrl env (path options) of
        Inl e \<Rightarrow> (Inl e, st, 0)
      | Inr u \<Rightarrow>
          let t = (case timeout options of Some t \<Rightarrow> t | None \<Rightarrow> requestTimeout) in
          if \<not> valid_timeout t
          then (Inl (api_error ''MINIAPP_CONFIG_ERROR'' ''Mini Program API timeout is invalid''), st, 0)
          else
            case authorization env options st of
              (Inl e, st') \<Rightarrow> (Inl e, st', 0)
            | (Inr h, st') \<Rightarrow>
                request_loop env options
                  \<lparr>t_url = u, t_method = req_method options, t_data = req_data options,
                   t_authorization = h, t_timeout = t\<rparr>
                  0 (if req_method options = GET then 2 else 1) None st')"

section \<open>Lemmas\<close>

text \<open>What a caller may rely on: an accepted response.\<close>

definition accepted :: "taro_outcome \<Rightarrow> jsval \<Rightarrow> bool" where
  "accepted outcome v \<longleftrightarrow>
     (\<exists>statusCode header data. outcome = Response statusCode header data \<and> 200 \<le> statusCode
        \<and> statusCode < 300 \<and> is_record data \<and> jget data (js ''success'') = JBool True
        \<and> v = jget data (js ''data''))"

lemma attempt_Returns:
  "attempt_response options rid a l outcome = Returns v \<Longrightarrow> accepted outcome v"
  by (cases outcome)
    (auto simp: attempt_response_def accepted_def asEnvelope_def Let_def is_bool_iff
      split: if_splits option.splits)

lemma attempt_accepted:
  "accepted outcome v \<Longrightarrow> attempt_response options rid a l outcome = Returns v"
  by (auto simp: attempt_response_def accepted_def asEnvelope_def Let_def)

lemma attempt_Retries: "attempt_response options rid a l outcome = Retries e \<Longrightarrow> req_method options = GET"
  by (auto simp: attempt_response_def Let_def split: taro_outcome.splits if_splits option.splits)

lemma loop_sends:
  "request_loop env options req a n le st = (r, st', k) \<Longrightarrow> k \<le> a + n \<and> a \<le> k"
proof (induction n arbitrary: a le st)
  case (Suc n)
  from Suc.prems show ?case
    by (auto simp: Let_def split: attempt_result.splits if_splits dest!: Suc.IH)
qed simp

lemma loop_Inr:
  "request_loop env options req a n le st = (Inr v, st', k) \<Longrightarrow>
     st' = st \<and> a < k \<and> accepted (network env (k - 1) req) v"
proof (induction n arbitrary: a le st)
  case (Suc n)
  from Suc.prems show ?case
    by (auto simp: Let_def dest!: attempt_Returns Suc.IH split: attempt_result.splits if_splits)
qed simp

lemma loop_Inl:
  "request_loop env options req a n le st = (Inl e, st', k) \<Longrightarrow>
     st' = st \<or> (auth options = SessionAuth \<and> sessionError (code e) (status e) \<and> st' = clearMiniAppSession st)"
proof (induction n arbitrary: a le st)
  case (Suc n)
  from Suc.prems show ?case
    by (auto simp: Let_def dest!: Suc.IH split: attempt_result.splits if_splits)
qed auto

lemma loop_first_accepted:
  "0 < n \<Longrightarrow> accepted (network env a req) v \<Longrightarrow>
     request_loop env options req a n le st = (Inr v, st, Suc a)"
  by (cases n) (simp_all add: attempt_accepted Let_def)

lemma authorization_frame:
  "authorization env options st = (r, st') \<Longrightarrow>
     pendingIdentityTicket st' = pendingIdentityTicket st \<and> checkoutWebURL st' = checkoutWebURL st"
  by (auto simp: authorization_def Let_def dest: getMiniAppSession_frame
      split: RequestAuth.splits prod.splits option.splits if_splits)

lemma loop_frame:
  "request_loop env options req a n le st = (r, st', k) \<Longrightarrow>
     pendingIdentityTicket st' = pendingIdentityTicket st \<and> checkoutWebURL st' = checkoutWebURL st"
  by (cases r) (auto dest!: loop_Inl loop_Inr)

text \<open>The request that is sent, when one is.\<close>

definition sent_request :: "api_env \<Rightarrow> ApiRequestOptions \<Rightarrow> jsstr \<Rightarrow> jsstr option \<Rightarrow> taro_request" where
  "sent_request env options u h =
     \<lparr>t_url = u, t_method = req_method options, t_data = req_data options, t_authorization = h,
      t_timeout = (case timeout options of Some t \<Rightarrow> t | None \<Rightarrow> requestTimeout)\<rparr>"

lemma request_cases:
  assumes "request env options st = (r, st', k)"
  obtains (not_sent) e where "r = Inl e" "k = 0" "st' = st \<or> (\<exists>a. authorization env options st = (a, st'))"
    | (sent) u h s where "getRequestUrl env (path options) = Inr u"
        "authorization env options st = (Inr h, s)"
        "request_loop env options (sent_request env options u h) 0
           (if req_method options = GET then 2 else 1) None s = (r, st', k)"
        "valid_timeout (t_timeout (sent_request env options u h))"
proof (cases "getRequestUrl env (path options)")
  case (Inl e)
  with assms not_sent show ?thesis by (auto simp: request_def)
next
  case u: (Inr u)
  let ?t = "case timeout options of Some t \<Rightarrow> t | None \<Rightarrow> requestTimeout"
  show ?thesis
  proof (cases "valid_timeout ?t")
    case False
    with u assms not_sent show ?thesis by (auto simp: request_def Let_def)
  next
    case True
    obtain a s where a: "authorization env options st = (a, s)" by fastforce
    show ?thesis
    proof (cases a)
      case (Inl e)
      then have "r = Inl e" "k = 0" "st' = s"
        using a u True assms by (auto simp: request_def Let_def)
      with a not_sent show ?thesis by blast
    next
      case (Inr h)
      then have "request_loop env options (sent_request env options u h) 0
           (if req_method options = GET then 2 else 1) None s = (r, st', k)"
        using a u True assms by (simp add: request_def sent_request_def Let_def)
      with a u True Inr sent[of u h s] show ?thesis by (simp add: sent_request_def)
    qed
  qed
qed

lemma request_frame:
  assumes "request env options st = (r, st', k)"
  shows "pendingIdentityTicket st' = pendingIdentityTicket st \<and> checkoutWebURL st' = checkoutWebURL st"
  using assms
proof (cases rule: request_cases)
  case (not_sent e)
  then show ?thesis by (auto dest: authorization_frame)
next
  case (sent u h s)
  then show ?thesis by (auto dest!: authorization_frame loop_frame)
qed

lemma authorization_SessionAuth:
  assumes "authorization env options st = (Inr h, st')" "auth options = SessionAuth"
  shows "\<exists>s. currentSession st = Some s \<and> \<not> js_le (accessExpiresAt s) (now_seconds (clock env))
    \<and> h = Some (js ''Bearer '' @ accessToken s) \<and> st' = st"
  using assms
  by (auto simp: authorization_def dest: getMiniAppSession_Some split: prod.splits option.splits)

lemma authorization_session_after:
  "authorization env options st = (r, st') \<Longrightarrow>
     currentSession st' = currentSession st
     \<or> (currentSession st' = None \<and> auth options = SessionAuth
        \<and> (\<exists>s. currentSession st = Some s \<and> js_le (accessExpiresAt s) (now_seconds (clock env))))"
  by (auto simp: authorization_def getMiniAppSession_def Let_def
      split: RequestAuth.splits prod.splits option.splits if_splits)

lemma request_session:
  assumes "request env options st = (r, st', k)"
  shows "currentSession st' = currentSession st
    \<or> (currentSession st' = None \<and> auth options = SessionAuth \<and> (\<exists>e. r = Inl e))"
  using assms
proof (cases rule: request_cases)
  case (not_sent e)
  then show ?thesis by (auto dest: authorization_session_after)
next
  case (sent u h s)
  have s: "currentSession s = currentSession st"
    using authorization_SessionAuth[OF sent(2)] authorization_session_after[OF sent(2)] by metis
  show ?thesis
  proof (cases r)
    case (Inl e)
    with loop_Inl[OF sent(3)[unfolded Inl]] s show ?thesis by auto
  next
    case (Inr v)
    with loop_Inr[OF sent(3)[unfolded Inr]] s show ?thesis by auto
  qed
qed

section \<open>Properties\<close>

text \<open>
  C33. A call sends nothing when its URL, timeout or authorization is not in order, a GET at
  most twice and any other method at most once, so that no order, registration or token
  creation is ever submitted twice by a retry. Two requests are sent only for a GET.
\<close>

theorem request_sends_at_most:
  assumes "request env options st = (r, st', k)"
  shows "k \<le> (if req_method options = GET then 2 else 1) \<and> (k = 0 \<longrightarrow> (\<exists>e. r = Inl e))"
  using assms
proof (cases rule: request_cases)
  case (sent u h s)
  from loop_sends[OF sent(3)] have "k \<le> (if req_method options = GET then 2 else 1)" by simp
  moreover have "k = 0 \<longrightarrow> (\<exists>e. r = Inl e)"
    using loop_Inr sent(3) by (cases r) fastforce+
  ultimately show ?thesis by blast
qed simp

definition demo_url :: url where
  "demo_url = \<lparr>protocol = js ''https:'', hostname = js ''api.example.com'', username = [], password = [],
     pathname = js ''/'', search = [], hash = [], origin = js ''https://api.example.com'',
     href = js ''https://api.example.com/''\<rparr>"

definition demo_env :: "(nat \<Rightarrow> taro_request \<Rightarrow> taro_outcome) \<Rightarrow> api_env" where
  "demo_env net = \<lparr>baseUrlConfig = JStr (js ''https://api.example.com''),
     parseURL = (\<lambda>s. if s = js ''https://api.example.com'' then Some demo_url else None),
     clock = 1000000, freshRequestId = js ''rid'', network = net\<rparr>"

definition demo_state :: mini_state where
  "demo_state = \<lparr>currentSession = Some \<lparr>accessToken = js ''tok'', accessExpiresAt = int_num 5000, sid = js ''sid''\<rparr>,
     pendingIdentityTicket = None, checkoutWebURL = None,
     device = \<lparr>stored = JStr [], getThrows = False, setThrows = False, removeThrows = False\<rparr>\<rparr>"

definition demo_options :: "ApiMethod \<Rightarrow> RequestAuth \<Rightarrow> ApiRequestOptions" where
  "demo_options m a = \<lparr>path = js ''/tokens'', req_method = m, req_data = JUndefined, auth = a, timeout = None\<rparr>"

theorem request_sends_at_most_witness:
  "snd (snd (request (demo_env (\<lambda>n r. NetworkFailure)) (demo_options GET NoAuth) demo_state)) = 2
   \<and> snd (snd (request (demo_env (\<lambda>n r. NetworkFailure)) (demo_options POST NoAuth) demo_state)) \<le> 1"
proof -
  let ?e = "demo_env (\<lambda>n r. NetworkFailure)"
  have "snd (snd (request ?e (demo_options GET NoAuth) demo_state)) = 2" by code_simp
  moreover obtain r st' k where r: "request ?e (demo_options POST NoAuth) demo_state = (r, st', k)"
    by (cases "request ?e (demo_options POST NoAuth) demo_state") auto
  then have "snd (snd (request ?e (demo_options POST NoAuth) demo_state)) \<le> 1"
    using request_sends_at_most[OF r] by (simp add: demo_options_def)
  ultimately show ?thesis by blast
qed

text \<open>
  A call returns a value exactly when the last response it received has a status in the
  2xx range and a body whose \<open>success\<close> is true; the value is the \<open>data\<close> of that body. The session
  in memory is then the one the call started with.
\<close>

theorem request_returns_accepted:
  assumes "request env options st = (Inr v, st', k)"
  shows "\<exists>u h. getRequestUrl env (path options) = Inr u
    \<and> accepted (network env (k - 1) (sent_request env options u h)) v
    \<and> currentSession st' = currentSession st \<and> 0 < k"
  using assms
proof (cases rule: request_cases)
  case (sent u h s)
  then have "s = st' \<and> 0 < k \<and> accepted (network env (k - 1) (sent_request env options u h)) v"
    using loop_Inr by fastforce
  moreover have "currentSession s = currentSession st"
    using sent(2) authorization_SessionAuth[OF sent(2)]
    by (cases "auth options") (auto simp: authorization_def Let_def split: if_splits)
  ultimately show ?thesis using sent by blast
qed simp

definition demo_ok :: "jsval \<Rightarrow> taro_outcome" where
  "demo_ok v = Response 200 JUndefined (JObj [(js ''success'', JBool True), (js ''data'', v)])"

theorem request_returns_accepted_witness:
  "\<exists>u h. getRequestUrl (demo_env (\<lambda>n r. demo_ok (JBool True))) (js ''/tokens'') = Inr u
     \<and> accepted (network (demo_env (\<lambda>n r. demo_ok (JBool True))) 0
          (sent_request (demo_env (\<lambda>n r. demo_ok (JBool True))) (demo_options GET SessionAuth) u h)) (JBool True)"
proof -
  let ?e = "demo_env (\<lambda>n r. demo_ok (JBool True))"
  have "request ?e (demo_options GET SessionAuth) demo_state = (Inr (JBool True), demo_state, 1)"
    by code_simp
  from request_returns_accepted[OF this] show ?thesis
    by (auto simp: demo_options_def)
qed

text \<open>
  C34. A call made with session authorization that sends a request sends it with the token of
  the session in memory, which has not expired; without such a session it fails and sends
  nothing.
\<close>

theorem request_session_token:
  assumes "request env options st = (r, st', k)" "auth options = SessionAuth" "k > 0"
  shows "\<exists>s u. currentSession st = Some s \<and> \<not> js_le (accessExpiresAt s) (now_seconds (clock env))
    \<and> request_loop env options (sent_request env options u (Some (js ''Bearer '' @ accessToken s))) 0
        (if req_method options = GET then 2 else 1) None st = (r, st', k)"
  using assms(1)
proof (cases rule: request_cases)
  case (sent u h s)
  from authorization_SessionAuth[OF sent(2) assms(2)] sent(3) show ?thesis by blast
qed (use assms(3) in simp)

theorem request_session_token_witness:
  "\<exists>s. currentSession demo_state = Some s \<and> \<not> js_le (accessExpiresAt s) (now_seconds 1000000)"
proof -
  let ?e = "demo_env (\<lambda>n r. demo_ok (JBool True))" and ?o = "demo_options GET SessionAuth"
  have r: "request ?e ?o demo_state = (Inr (JBool True), demo_state, 1)" by code_simp
  have a: "auth ?o = SessionAuth" by (simp add: demo_options_def)
  from request_session_token[OF r a] show ?thesis by (auto simp: demo_env_def)
qed

text \<open>
  The client drops the session in memory for two reasons only: the session has expired, or
  a request made under it was answered with status 401 or one of the two session error codes,
  in which case the call fails with that error. Calls without session authorization never
  touch it, and no call ever installs a session.
\<close>

theorem request_drops_session_only_if:
  assumes "request env options st = (r, st', k)" "currentSession st' \<noteq> currentSession st"
  shows "currentSession st' = None \<and> auth options = SessionAuth
    \<and> ((\<exists>s. currentSession st = Some s \<and> js_le (accessExpiresAt s) (now_seconds (clock env)))
       \<or> (\<exists>e. r = Inl e \<and> sessionError (code e) (status e)))"
  using assms(1)
proof (cases rule: request_cases)
  case (not_sent e)
  then show ?thesis using assms(2) by (auto dest: authorization_session_after)
next
  case (sent u h s)
  show ?thesis
  proof (cases r)
    case (Inl e)
    with loop_Inl[OF sent(3)[unfolded Inl]] assms(2) authorization_session_after[OF sent(2)]
    show ?thesis by auto
  next
    case (Inr v)
    with loop_Inr[OF sent(3)[unfolded Inr]] assms(2) authorization_session_after[OF sent(2)]
    show ?thesis by auto
  qed
qed

theorem request_drops_session_only_if_witness:
  "\<exists>r st' k. request (demo_env (\<lambda>n r. Response 401 JUndefined JUndefined)) (demo_options POST SessionAuth)
      demo_state = (r, st', k) \<and> currentSession st' = None \<and> (\<exists>e. r = Inl e \<and> sessionError (code e) (status e))"
proof -
  let ?e = "demo_env (\<lambda>n r. Response 401 JUndefined JUndefined)" and ?o = "demo_options POST SessionAuth"
  obtain r st' k where r: "request ?e ?o demo_state = (r, st', k)" by (metis prod.exhaust)
  have "currentSession (fst (snd (request ?e ?o demo_state))) = None" by code_simp
  then have n: "currentSession st' = None" using r by simp
  have h: "currentSession st' \<noteq> currentSession demo_state" using n by (simp add: demo_state_def)
  have "\<not> js_le (int_num 5000) (now_seconds 1000000)" by code_simp
  then show ?thesis using request_drops_session_only_if[OF r h] r n
    by (auto simp: demo_state_def demo_env_def)
qed

end
