(* ===== verification/Js_Uri.thy ===== *)
theory Js_Uri
  imports Js_Prelude
begin

text \<open>
  \<open>encodeURIComponent\<close> of the ECMAScript library: the code points of the string are encoded in
  UTF-8 and every byte that is not an unreserved character is written as a percent escape. A
  lone surrogate makes it throw a \<open>URIError\<close> (\<open>None\<close>).
\<close>

definition unreserved :: "int \<Rightarrow> bool" where
  "unreserved u \<longleftrightarrow> (65 \<le> u \<and> u \<le> 90) \<or> (97 \<le> u \<and> u \<le> 122) \<or> (48 \<le> u \<and> u \<le> 57)
     \<or> u \<in> set [45, 95, 46, 33, 126, 42, 39, 40, 41]"

fun code_points_of :: "jsstr \<Rightarrow> int list option" where
  "code_points_of [] = Some []"
| "code_points_of (u # us) =
     (if 0xDC00 \<le> u \<and> u \<le> 0xDFFF then None
      else if 0xD800 \<le> u \<and> u \<le> 0xDBFF then
        (case us of
           [] \<Rightarrow> None
         | v # vs \<Rightarrow>
             if 0xDC00 \<le> v \<and> v \<le> 0xDFFF
             then map_option (Cons ((u - 0xD800) * 0x400 + (v - 0xDC00) + 0x10000)) (code_points_of vs)
             else None)
      else map_option (Cons u) (code_points_of us))"

definition utf8 :: "int \<Rightarrow> int list" where
  "utf8 c =
     (if c < 0x80 then [c]
      else if c < 0x800 then [0xC0 + c div 64, 0x80 + c mod 64]
      else if c < 0x10000 then [0xE0 + c div 4096, 0x80 + c div 64 mod 64, 0x80 + c mod 64]
      else [0xF0 + c div 262144, 0x80 + c div 4096 mod 64, 0x80 + c div 64 mod 64, 0x80 + c mod 64])"

definition hex_upper :: "int \<Rightarrow> int" where
  "hex_upper d = (if d mod 16 < 10 then 48 + d mod 16 else 55 + d mod 16)"

definition percent :: "int \<Rightarrow> jsstr" where
  "percent b = [37, hex_upper (b div 16), hex_upper b]"

definition encode_code_point :: "int \<Rightarrow> jsstr" where
  "encode_code_point c = (if unreserved c then [c] else concat (map percent (utf8 c)))"

definition encodeURIComponent :: "jsstr \<Rightarrow> jsstr option" where
  "encodeURIComponent s = map_option (\<lambda>cs. concat (map encode_code_point cs)) (code_points_of s)"

lemma hex_upper_unreserved: "unreserved (hex_upper d)"
proof -
  have "0 \<le> d mod 16" "d mod 16 < 16" by simp_all
  then show ?thesis by (auto simp: hex_upper_def unreserved_def)
qed

lemma encode_code_point_units: "u \<in> set (encode_code_point c) \<Longrightarrow> unreserved u \<or> u = 37"
  by (auto simp: encode_code_point_def percent_def hex_upper_unreserved split: if_splits)

lemma encodeURIComponent_units:
  "encodeURIComponent s = Some e \<Longrightarrow> u \<in> set e \<Longrightarrow> unreserved u \<or> u = 37"
  by (auto simp: encodeURIComponent_def dest: encode_code_point_units)

text \<open>An encoded component never introduces a separator of a URL.\<close>

lemma encodeURIComponent_no_separator:
  assumes "encodeURIComponent s = Some e"
  shows "47 \<notin> set e" "63 \<notin> set e" "35 \<notin> set e" "38 \<notin> set e" "61 \<notin> set e"
  using encodeURIComponent_units[OF assms] by (fastforce simp: unreserved_def)+

lemma encodeURIComponent_unreserved:
  "\<forall>u \<in> set s. unreserved u \<Longrightarrow> encodeURIComponent s = Some s"
proof -
  assume a: "\<forall>u \<in> set s. unreserved u"
  have "\<forall>u \<in> set s. u < 0xD800"
    using a by (auto simp: unreserved_def)
  then have "code_points_of s = Some s"
    by (induction s) auto
  moreover have "concat (map encode_code_point s) = s"
    using a by (induction s) (auto simp: encode_code_point_def)
  ultimately show ?thesis by (simp add: encodeURIComponent_def)
qed

end
