(* ===== verification/Miniapp_Auth.thy ===== *)
theory Miniapp_Auth
  imports Miniapp_Api Js_Uri Machines
begin

text \<open>
  Sign-in of the mini program (\<open>miniapp/src/features/auth/auth-service.ts\<close>) and the recovery
  table of the login page (\<open>miniapp/src/pages/login/recovery.ts\<close>). A WeChat login either yields
  a session or a pending identity ticket, with which the user registers or binds an existing
  account.

  Every operation is a function on the module state that returns an error or a result. The
  environment adds to the HTTP client's the configured binding origin and what \<open>Taro.login\<close>
  gives (\<open>None\<close> when it rejects, otherwise the value of \<open>code\<close>).
\<close>

section \<open>Model\<close>

record auth_env =
  api :: api_env
  bindingOriginConfig :: jsval
  wechatLogin :: "jsval option"

datatype mini_error =
    AuthError jsstr jsstr
  | ApiError MiniAppApiError
  | UriError

definition auth_error :: "string \<Rightarrow> string \<Rightarrow> mini_error" where
  "auth_error c m = AuthError (js c) (js m)"

definition invalidAuthResponse :: mini_error where
  "invalidAuthResponse =
     auth_error ''MINIAPP_INVALID_AUTH_RESPONSE'' ''Mini Program authentication response is invalid''"

definition invalidBindingResponse :: mini_error where
  "invalidBindingResponse =
     auth_error ''MINIAPP_INVALID_BINDING_RESPONSE'' ''Mini Program binding response is invalid''"

definition bindingConfigurationError :: mini_error where
  "bindingConfigurationError =
     auth_error ''MINIAPP_BINDING_CONFIGURATION_ERROR'' ''Mini Program binding origin is unavailable''"

definition post :: "string \<Rightarrow> (string \<times> jsval) list \<Rightarrow> RequestAuth \<Rightarrow> ApiRequestOptions" where
  "post p body a = \<lparr>path = js p, req_method = POST,
     req_data = JObj (map (\<lambda>(k, v). (js k, v)) body), auth = a, timeout = None\<rparr>"

definition send ::
  "api_env \<Rightarrow> ApiRequestOptions \<Rightarrow> mini_state \<Rightarrow> (mini_error + jsval) \<times> mini_state" where
  "send env options st =
     (case request env options st of
        (Inl e, st', _) \<Rightarrow> (Inl (ApiError e), st')
      | (Inr v, st', _) \<Rightarrow> (Inr v, st'))"

definition storeSession :: "int \<Rightarrow> jsval \<Rightarrow> mini_state \<Rightarrow> (mini_error + unit) \<times> mini_state" where
  "storeSession now bundle st =
     (if \<not> is_record bundle \<or> \<not> is_record (jget bundle (js ''session'')) then (Inl invalidAuthResponse, st)
      else
        let tok = jget bundle (js ''access_token'');
            expires = jget bundle (js ''access_expires_at'');
            s = jget (jget bundle (js ''session'')) (js ''sid'')
        in if \<not> is_str tok \<or> trim (str_of tok) = [] \<or> \<not> is_str s \<or> trim (str_of s) = []
              \<or> \<not> is_num expires \<or> \<not> is_finite_num (num_of expires)
              \<or> js_le (num_of expires) (now_seconds now)
           then (Inl invalidAuthResponse, st)
           else (Inr (), setMiniAppSession
             \<lparr>accessToken = str_of tok, accessExpiresAt = num_of expires, sid = str_of s\<rparr> st))"

definition getWechatCode :: "auth_env \<Rightarrow> mini_error + jsstr" where
  "getWechatCode env =
     (case wechatLogin env of
        None \<Rightarrow> Inl (auth_error ''MINIAPP_WECHAT_LOGIN_UNAVAILABLE'' ''WeChat login is unavailable'')
      | Some v \<Rightarrow>
          let c = (if is_str v then trim (str_of v) else []) in
          if c = []
          then Inl (auth_error ''MINIAPP_WECHAT_LOGIN_UNAVAILABLE'' ''WeChat login code is unavailable'')
          else Inr c)"

definition requirePendingTicket :: "mini_state \<Rightarrow> mini_error + jsstr" where
  "requirePendingTicket st =
     (case pendingIdentityTicket st of
        None \<Rightarrow> Inl (auth_error ''MINIAPP_PENDING_IDENTITY_UNAVAILABLE''
                  ''Mini Program identity verification has expired'')
      | Some t \<Rightarrow> Inr t)"

text \<open>The checks on a configured origin, which three modules of the mini program share.\<close>

definition bare_https_origin :: "url \<Rightarrow> bool" where
  "bare_https_origin u \<longleftrightarrow>
     protocol u = js ''https:'' \<and> hostname u \<noteq> [] \<and> username u = [] \<and> password u = []
     \<and> pathname u = js ''/'' \<and> search u = [] \<and> hash u = []"

definition getTrustedBindingOrigin :: "auth_env \<Rightarrow> mini_error + url" where
  "getTrustedBindingOrigin env =
     (let rawOrigin = (if is_str (bindingOriginConfig env) then trim (str_of (bindingOriginConfig env)) else []) in
      if rawOrigin = [] then Inl bindingConfigurationError
      else case parseURL (api env) rawOrigin of
        None \<Rightarrow> Inl bindingConfigurationError
      | Some u \<Rightarrow> if \<not> bare_https_origin u then Inl bindingConfigurationError else Inr u)"

definition setPendingIdentityTicket :: "jsstr \<Rightarrow> mini_state \<Rightarrow> mini_state" where
  "setPendingIdentityTicket ticket st =
     (let normalizedTicket = trim ticket in
      st\<lparr>pendingIdentityTicket := (if normalizedTicket = [] then None else Some normalizedTicket)\<rparr>)"

definition clearPendingIdentityTicket :: "mini_state \<Rightarrow> mini_state" where
  "clearPendingIdentityTicket st = st\<lparr>pendingIdentityTicket := None\<rparr>"

datatype login_kind = Authenticated | PendingIdentity

definition loginWithWechat :: "auth_env \<Rightarrow> mini_state \<Rightarrow> (mini_error + login_kind) \<times> mini_state" where
  "loginWithWechat env st =
     (case getWechatCode env of
        Inl e \<Rightarrow> (Inl e, st)
      | Inr c \<Rightarrow>
          case send (api env) (post ''/auth/wechat'' [(''code'', JStr c)] NoAuth) st of
            (Inl e, st1) \<Rightarrow> (Inl e, st1)
          | (Inr result, st1) \<Rightarrow>
              if \<not> is_record result \<or> \<not> is_str (jget result (js ''state'')) then (Inl invalidAuthResponse, st1)
              else if jget result (js ''state'') = JStr (js ''authenticated'') then
                (case storeSession (clock (api env)) (jget result (js ''session'')) st1 of
                   (Inl e, st2) \<Rightarrow> (Inl e, st2)
                 | (Inr _, st2) \<Rightarrow> (Inr Authenticated, clearPendingIdentityTicket st2))
              else if jget result (js ''state'') = JStr (js ''pending'')
                   \<and> is_str (jget result (js ''pending_ticket''))
                   \<and> trim (str_of (jget result (js ''pending_ticket''))) \<noteq> [] then
                (Inr PendingIdentity,
                 clearMiniAppSession (setPendingIdentityTicket (str_of (jget result (js ''pending_ticket''))) st1))
              else (Inl invalidAuthResponse, st1))"

definition renewMiniAppSession :: "auth_env \<Rightarrow> mini_state \<Rightarrow> (mini_error + unit) \<times> mini_state" where
  "renewMiniAppSession env st =
     (case getMiniAppSession (clock (api env)) st of
        (None, st1) \<Rightarrow>
          (Inl (auth_error ''MINIAPP_SESSION_UNAVAILABLE'' ''Mini Program session is unavailable''), st1)
      | (Some session, st1) \<Rightarrow>
          case getWechatCode env of
            Inl e \<Rightarrow> (Inl e, st1)
          | Inr c \<Rightarrow>
              case send (api env) (post ''/auth/renew'' [(''code'', JStr c), (''sid'', JStr (sid session))] NoAuth) st1 of
                (Inl e, st2) \<Rightarrow> (Inl e, st2)
              | (Inr bundle, st2) \<Rightarrow> storeSession (clock (api env)) bundle st2)"

definition logoutMiniApp :: "auth_env \<Rightarrow> mini_state \<Rightarrow> (mini_error + unit) \<times> mini_state" where
  "logoutMiniApp env st =
     (case send (api env) \<lparr>path = js ''/auth/logout'', req_method = POST, req_data = JUndefined,
             auth = SessionAuth, timeout = None\<rparr> st of
        (Inl e, st1) \<Rightarrow> (Inl e, st1)
      | (Inr _, st1) \<Rightarrow> (Inr (), clearMiniAppSession st1))"

definition registerWithPendingIdentity ::
  "auth_env \<Rightarrow> jsstr \<Rightarrow> jsstr \<Rightarrow> mini_state \<Rightarrow> (mini_error + unit) \<times> mini_state" where
  "registerWithPendingIdentity env user pass st =
     (case requirePendingTicket st of
        Inl e \<Rightarrow> (Inl e, st)
      | Inr ticket \<Rightarrow>
          case send (api env) (post ''/auth/register'' [(''pending_identity_ticket'', JStr ticket),
                 (''username'', JStr (trim user)), (''password'', JStr pass)] NoAuth) st of
            (Inl e, st1) \<Rightarrow> (Inl e, st1)
          | (Inr bundle, st1) \<Rightarrow>
              case storeSession (clock (api env)) bundle st1 of
                (Inl e, st2) \<Rightarrow> (Inl e, st2)
              | (Inr _, st2) \<Rightarrow> (Inr (), clearPendingIdentityTicket st2))"

record binding =
  b_bindingId :: jsstr
  b_webUrl :: jsstr

definition trusted_binding_url :: "url \<Rightarrow> url \<Rightarrow> bool" where
  "trusted_binding_url trusted u \<longleftrightarrow>
     origin u = origin trusted \<and> username u = [] \<and> password u = []
     \<and> pathname u = js ''/miniapp-bind'' \<and> search u = []"

definition readBinding :: "auth_env \<Rightarrow> jsval \<Rightarrow> mini_error + binding" where
  "readBinding env result =
     (if \<not> is_record result then Inl invalidBindingResponse
      else
        let bid = (if is_str (jget result (js ''binding_id'')) then trim (str_of (jget result (js ''binding_id''))) else []);
            webUrl = (if is_str (jget result (js ''web_url'')) then trim (str_of (jget result (js ''web_url'')))
                      else if is_str (jget result (js ''bind_url'')) then trim (str_of (jget result (js ''bind_url'')))
                      else [])
        in if bid = [] \<or> webUrl = [] then Inl invalidBindingResponse
           else case getTrustedBindingOrigin env of
             Inl e \<Rightarrow> Inl e
           | Inr trustedOrigin \<Rightarrow>
               case parseURL (api env) webUrl of
                 None \<Rightarrow> Inl invalidBindingResponse
               | Some u \<Rightarrow>
                   if \<not> trusted_binding_url trustedOrigin u then Inl invalidBindingResponse
                   else Inr \<lparr>b_bindingId = bid, b_webUrl = webUrl\<rparr>)"

definition createBinding :: "auth_env \<Rightarrow> mini_state \<Rightarrow> (mini_error + binding) \<times> mini_state" where
  "createBinding env st =
     (case requirePendingTicket st of
        Inl e \<Rightarrow> (Inl e, st)
      | Inr ticket \<Rightarrow>
          case send (api env) (post ''/bindings'' [(''pending_identity_ticket'', JStr ticket)] NoAuth) st of
            (Inl e, st1) \<Rightarrow> (Inl e, st1)
          | (Inr result, st1) \<Rightarrow> (readBinding env result, st1))"

datatype BindingStatus = StatusPending | StatusBound | StatusExpired

definition readBindingStatus :: "jsval \<Rightarrow> mini_error + BindingStatus" where
  "readBindingStatus result =
     (if \<not> is_record result then Inl invalidBindingResponse
      else if jget result (js ''status'') = JStr (js ''pending'') then Inr StatusPending
      else if jget result (js ''status'') = JStr (js ''bound'') then Inr StatusBound
      else if jget result (js ''status'') = JStr (js ''expired'') then Inr StatusExpired
      else Inl invalidBindingResponse)"

definition getBindingStatus ::
  "auth_env \<Rightarrow> jsstr \<Rightarrow> mini_state \<Rightarrow> (mini_error + BindingStatus) \<times> mini_state" where
  "getBindingStatus env bid st =
     (case encodeURIComponent bid of
        None \<Rightarrow> (Inl UriError, st)
      | Some encoded \<Rightarrow>
          case requirePendingTicket st of
            Inl e \<Rightarrow> (Inl e, st)
          | Inr ticket \<Rightarrow>
              case send (api env) \<lparr>path = js ''/bindings/'' @ encoded, req_method = GET,
                     req_data = JUndefined, auth = BearerAuth ticket, timeout = None\<rparr> st of
                (Inl e, st1) \<Rightarrow> (Inl e, st1)
              | (Inr result, st1) \<Rightarrow> (readBindingStatus result, st1))"

subsection \<open>Recovery after a failed registration\<close>

datatype recovery_action = BindExistingAccount | RestartLogin | RestartVerification

datatype recovery_message =
    RegistrationDisabled
  | RegistrationTicketInvalid
  | RegistrationVerificationRequired

record RegistrationRecovery =
  action :: recovery_action
  messageKey :: recovery_message

fun getErrorCode :: "mini_error \<Rightarrow> jsstr option" where
  "getErrorCode (AuthError c m) = Some c"
| "getErrorCode (ApiError e) = (if is_str (code e) then Some (str_of (code e)) else None)"
| "getErrorCode UriError = None"

definition getRegistrationRecovery :: "mini_error \<Rightarrow> RegistrationRecovery option" where
  "getRegistrationRecovery err =
     (case getErrorCode err of
        None \<Rightarrow> None
      | Some c \<Rightarrow>
          if c = js ''MINIAPP_REGISTRATION_DISABLED''
          then Some \<lparr>action = BindExistingAccount, messageKey = RegistrationDisabled\<rparr>
          else if c \<in> {js ''MINIAPP_TICKET_EXPIRED'', js ''MINIAPP_TICKET_CONSUMED'',
                       js ''MINIAPP_PENDING_IDENTITY_UNAVAILABLE''}
          then Some \<lparr>action = RestartLogin, messageKey = RegistrationTicketInvalid\<rparr>
          else if c \<in> {js ''MINIAPP_EMAIL_VERIFICATION_REQUIRED'', js ''MINIAPP_REGISTRATION_INVALID''}
          then Some \<lparr>action = RestartVerification, messageKey = RegistrationVerificationRequired\<rparr>
          else None)"

subsection \<open>The module as a machine\<close>

datatype auth_event =
    Login auth_env
  | Renew auth_env
  | Logout auth_env
  | Register auth_env jsstr jsstr
  | CreateBinding auth_env
  | GetBindingStatus auth_env jsstr
  | ClearTicket
  | OtherRequest auth_env ApiRequestOptions

fun auth_step :: "mini_state \<Rightarrow> auth_event \<Rightarrow> mini_state" where
  "auth_step st (Login env) = snd (loginWithWechat env st)"
| "auth_step st (Renew env) = snd (renewMiniAppSession env st)"
| "auth_step st (Logout env) = snd (logoutMiniApp env st)"
| "auth_step st (Register env u p) = snd (registerWithPendingIdentity env u p st)"
| "auth_step st (CreateBinding env) = snd (createBinding env st)"
| "auth_step st (GetBindingStatus env bid) = snd (getBindingStatus env bid st)"
| "auth_step st ClearTicket = clearPendingIdentityTicket st"
| "auth_step st (OtherRequest env options) = snd (send (api env) options st)"

definition auth_init :: "mini_state \<Rightarrow> bool" where
  "auth_init st \<longleftrightarrow> currentSession st = None \<and> pendingIdentityTicket st = None"

definition nonblank :: "jsstr \<Rightarrow> bool" where
  "nonblank s \<longleftrightarrow> s \<noteq> [] \<and> trim s = s"

definition auth_inv :: "mini_state \<Rightarrow> bool" where
  "auth_inv st \<longleftrightarrow>
     (\<forall>s. currentSession st = Some s \<longrightarrow> nonblank (accessToken s) \<and> nonblank (sid s)
        \<and> is_finite_num (accessExpiresAt s)) \<and>
     (\<forall>t. pendingIdentityTicket st = Some t \<longrightarrow> nonblank t) \<and>
     (currentSession st = None \<or> pendingIdentityTicket st = None)"

abbreviation auth_reach :: "mini_state \<Rightarrow> bool" where
  "auth_reach \<equiv> reach auth_init (\<lambda>st e. True) auth_step"

section \<open>Lemmas\<close>

lemma nonblank_trim: "trim s \<noteq> [] \<Longrightarrow> nonblank (trim s)"
  by (simp add: nonblank_def)

lemma send_frame:
  assumes "send env options st = (r, st')"
  shows "pendingIdentityTicket st' = pendingIdentityTicket st
    \<and> (currentSession st' = currentSession st
       \<or> (currentSession st' = None \<and> auth options = SessionAuth \<and> (\<exists>e. r = Inl e)))"
proof -
  obtain q k where q: "request env options st = (q, st', k)"
    using assms by (auto simp: send_def split: prod.splits sum.splits)
  then have "(\<exists>e. q = Inl e) \<longrightarrow> (\<exists>e. r = Inl e)"
    using assms by (auto simp: send_def)
  with request_session[OF q] request_frame[OF q] show ?thesis by auto
qed

lemma post_auth [simp]: "auth (post p b a) = a"
  by (simp add: post_def)

lemma send_post_frame:
  "send env (post p b NoAuth) st = (r, st') \<Longrightarrow>
     pendingIdentityTicket st' = pendingIdentityTicket st \<and> currentSession st' = currentSession st"
  using send_frame by fastforce

lemma storeSession_Inl: "storeSession now b st = (Inl e, st') \<Longrightarrow> st' = st"
  by (auto simp: storeSession_def Let_def split: if_splits)

definition good_session :: "int \<Rightarrow> MiniAppSession \<Rightarrow> bool" where
  "good_session now s \<longleftrightarrow> nonblank (accessToken s) \<and> nonblank (sid s) \<and> is_finite_num (accessExpiresAt s)
     \<and> \<not> js_le (accessExpiresAt s) (now_seconds now)"

lemma storeSession_Inr:
  "storeSession now b st = (Inr u, st') \<Longrightarrow>
     (\<exists>s. currentSession st' = Some s \<and> good_session now s) \<and> pendingIdentityTicket st' = pendingIdentityTicket st"
  by (auto simp: storeSession_def Let_def setMiniAppSession_def good_session_def nonblank_trim split: if_splits)

lemma set_ticket_simps [simp]:
  "currentSession (setPendingIdentityTicket t st) = currentSession st"
  "currentSession (clearPendingIdentityTicket st) = currentSession st"
  "pendingIdentityTicket (clearPendingIdentityTicket st) = None"
  "trim t \<noteq> [] \<Longrightarrow> pendingIdentityTicket (setPendingIdentityTicket t st) = Some (trim t)"
  by (simp_all add: setPendingIdentityTicket_def clearPendingIdentityTicket_def Let_def)

text \<open>What each operation does to the session and the ticket.\<close>

lemma loginWithWechat_cases:
  assumes "loginWithWechat env st = (r, st')"
  shows "(\<exists>e. r = Inl e) \<and> currentSession st' = currentSession st
           \<and> pendingIdentityTicket st' = pendingIdentityTicket st
       \<or> r = Inr Authenticated \<and> (\<exists>s. currentSession st' = Some s \<and> good_session (clock (api env)) s)
           \<and> pendingIdentityTicket st' = None
       \<or> r = Inr PendingIdentity \<and> currentSession st' = None
           \<and> (\<exists>t. pendingIdentityTicket st' = Some t \<and> nonblank t)"
  using assms
  by (auto simp: loginWithWechat_def nonblank_trim
      dest!: send_post_frame storeSession_Inl storeSession_Inr split: sum.splits prod.splits if_splits)

lemma renewMiniAppSession_cases:
  assumes "renewMiniAppSession env st = (r, st')"
  shows "pendingIdentityTicket st' = pendingIdentityTicket st
    \<and> ((\<exists>e. r = Inl e) \<and> (currentSession st' = currentSession st \<or> currentSession st' = None)
       \<or> r = Inr () \<and> currentSession st \<noteq> None
         \<and> (\<exists>s. currentSession st' = Some s \<and> good_session (clock (api env)) s))"
proof (cases "getMiniAppSession (clock (api env)) st")
  case (Pair q st1)
  show ?thesis
  proof (cases q)
    case None
    with Pair assms getMiniAppSession_frame[OF Pair] show ?thesis
      by (auto simp: renewMiniAppSession_def)
  next
    case (Some s)
    from getMiniAppSession_Some[OF Pair[unfolded Some]] Pair Some assms show ?thesis
      by (cases r) (auto simp: renewMiniAppSession_def
          dest!: send_post_frame storeSession_Inl storeSession_Inr
          split: sum.splits prod.splits)
  qed
qed

lemma logoutMiniApp_cases:
  assumes "logoutMiniApp env st = (r, st')"
  shows "pendingIdentityTicket st' = pendingIdentityTicket st
    \<and> (currentSession st' = None \<or> (\<exists>e. r = Inl e) \<and> currentSession st' = currentSession st)"
  using assms by (auto simp: logoutMiniApp_def dest!: send_frame split: sum.splits prod.splits)

lemma registerWithPendingIdentity_cases:
  assumes "registerWithPendingIdentity env u p st = (r, st')"
  shows "(\<exists>e. r = Inl e) \<and> currentSession st' = currentSession st
           \<and> pendingIdentityTicket st' = pendingIdentityTicket st
       \<or> r = Inr () \<and> pendingIdentityTicket st \<noteq> None \<and> pendingIdentityTicket st' = None
         \<and> (\<exists>s. currentSession st' = Some s \<and> good_session (clock (api env)) s)"
  using assms
  by (auto simp: registerWithPendingIdentity_def requirePendingTicket_def
      dest!: send_post_frame storeSession_Inl storeSession_Inr split: sum.splits prod.splits option.splits)

lemma createBinding_frame:
  assumes "createBinding env st = (r, st')"
  shows "currentSession st' = currentSession st \<and> pendingIdentityTicket st' = pendingIdentityTicket st"
  using assms
  by (auto simp: createBinding_def dest!: send_post_frame split: sum.splits prod.splits)

lemma getBindingStatus_frame:
  assumes "getBindingStatus env bid st = (r, st')"
  shows "currentSession st' = currentSession st \<and> pendingIdentityTicket st' = pendingIdentityTicket st"
  using assms
  by (auto simp: getBindingStatus_def dest: send_frame split: sum.splits prod.splits option.splits)

lemma auth_inv_cases:
  assumes "auth_inv st"
    and "pendingIdentityTicket st' = pendingIdentityTicket st \<or> pendingIdentityTicket st' = None"
    and "currentSession st' = currentSession st \<or> currentSession st' = None"
  shows "auth_inv st'"
  using assms by (auto simp: auth_inv_def)

lemma auth_inv_session:
  "currentSession st = Some s \<Longrightarrow> good_session now s \<Longrightarrow> pendingIdentityTicket st = None \<Longrightarrow> auth_inv st"
  by (auto simp: auth_inv_def good_session_def)

lemma auth_step_inv:
  assumes i: "auth_inv st"
  shows "auth_inv (auth_step st e)"
proof (cases e)
  case (Login env)
  obtain r st' where "loginWithWechat env st = (r, st')" by fastforce
  with loginWithWechat_cases[OF this] i Login show ?thesis
    by (auto simp: auth_inv_def good_session_def)
next
  case (Renew env)
  obtain r st' where r: "renewMiniAppSession env st = (r, st')" by fastforce
  with renewMiniAppSession_cases[OF r] i Renew show ?thesis
    by (auto simp: auth_inv_def good_session_def)
next
  case (Logout env)
  obtain r st' where r: "logoutMiniApp env st = (r, st')" by fastforce
  with logoutMiniApp_cases[OF r] auth_inv_cases[OF i] Logout show ?thesis by auto
next
  case (Register env u p)
  obtain r st' where r: "registerWithPendingIdentity env u p st = (r, st')" by fastforce
  with registerWithPendingIdentity_cases[OF r] auth_inv_cases[OF i] auth_inv_session Register show ?thesis
    by auto
next
  case (CreateBinding env)
  obtain r st' where r: "createBinding env st = (r, st')" by fastforce
  with createBinding_frame[OF r] auth_inv_cases[OF i] CreateBinding show ?thesis by auto
next
  case (GetBindingStatus env bid)
  obtain r st' where r: "getBindingStatus env bid st = (r, st')" by fastforce
  with getBindingStatus_frame[OF r] auth_inv_cases[OF i] GetBindingStatus show ?thesis by auto
next
  case ClearTicket
  with auth_inv_cases[OF i] show ?thesis by simp
next
  case (OtherRequest env options)
  obtain r st' where r: "send (api env) options st = (r, st')" by fastforce
  with send_frame[OF r] auth_inv_cases[OF i] OtherRequest show ?thesis by auto
qed

interpretation am: event_machine auth_init "\<lambda>st e. True" auth_step auth_inv
proof
  show "auth_init s \<Longrightarrow> auth_inv s" for s by (simp add: auth_init_def auth_inv_def)
qed (rule auth_step_inv)

section \<open>Properties\<close>


definition demo_auth_env :: "jsval \<Rightarrow> auth_env" where
  "demo_auth_env v = \<lparr>api = demo_env (\<lambda>n r. demo_ok v), bindingOriginConfig = JStr (js ''https://api.example.com''),
     wechatLogin = Some (JStr (js '' code ''))\<rparr>"

definition demo_pending :: jsval where
  "demo_pending = JObj [(js ''state'', JStr (js ''pending'')), (js ''pending_ticket'', JStr (js '' T1 ''))]"

definition demo_bundle :: jsval where
  "demo_bundle = JObj [(js ''access_token'', JStr (js '' tok '')), (js ''access_expires_at'', JNum (int_num 9000)),
     (js ''session'', JObj [(js ''sid'', JStr (js ''s1''))])]"


text \<open>
  A login with WeChat has three outcomes. It reports an authenticated user exactly when it
  installed a session that has not expired, and then drops any pending ticket; it reports a
  pending identity with a usable ticket in memory and no session; in every other case it fails
  and leaves the session and the ticket as they were.
\<close>

theorem loginWithWechat_outcomes:
  "case loginWithWechat env st of
     (Inr Authenticated, st') \<Rightarrow>
       (\<exists>s. getMiniAppSession (clock (api env)) st' = (Some s, st')) \<and> pendingIdentityTicket st' = None
   | (Inr PendingIdentity, st') \<Rightarrow>
       currentSession st' = None \<and> (\<exists>t. requirePendingTicket st' = Inr t \<and> nonblank t)
   | (Inl e, st') \<Rightarrow>
       currentSession st' = currentSession st \<and> pendingIdentityTicket st' = pendingIdentityTicket st"
proof -
  obtain r st' where r: "loginWithWechat env st = (r, st')" by fastforce
  from loginWithWechat_cases[OF r] r show ?thesis
    by (auto simp: getMiniAppSession_def good_session_def requirePendingTicket_def)
qed

text \<open>
  C35. The web page the mini program opens to bind an account lies on the configured binding
  origin: a binding is returned only if the origin is a bare https origin and the page's URL has
  that origin, no credentials, the path /miniapp-bind and no query. The session and the ticket
  are not changed.
\<close>

theorem createBinding_trusted:
  assumes "createBinding env st = (Inr b, st')"
  shows "\<exists>trusted u. getTrustedBindingOrigin env = Inr trusted \<and> bare_https_origin trusted
    \<and> parseURL (api env) (b_webUrl b) = Some u \<and> origin u = origin trusted
    \<and> username u = [] \<and> password u = [] \<and> pathname u = js ''/miniapp-bind'' \<and> search u = []
    \<and> nonblank (b_bindingId b) \<and> pendingIdentityTicket st' = pendingIdentityTicket st
    \<and> pendingIdentityTicket st \<noteq> None"
proof -
  obtain result where b: "readBinding env result = Inr b" and t: "pendingIdentityTicket st \<noteq> None"
    using assms by (auto simp: createBinding_def requirePendingTicket_def split: sum.splits prod.splits option.splits)
  from b have "\<exists>trusted u. getTrustedBindingOrigin env = Inr trusted
    \<and> parseURL (api env) (b_webUrl b) = Some u \<and> trusted_binding_url trusted u \<and> nonblank (b_bindingId b)"
    by (auto simp: readBinding_def Let_def nonblank_trim split: if_splits sum.splits option.splits)
  moreover have "getTrustedBindingOrigin env = Inr trusted \<Longrightarrow> bare_https_origin trusted" for trusted
    by (auto simp: getTrustedBindingOrigin_def Let_def split: if_splits option.splits)
  ultimately show ?thesis
    using t createBinding_frame[OF assms] by (auto simp: trusted_binding_url_def)
qed

definition demo_bind_env :: auth_env where
  "demo_bind_env = \<lparr>api = (demo_env (\<lambda>n r. demo_ok (JObj [(js ''binding_id'', JStr (js ''b7'')),
       (js ''web_url'', JStr (js ''https://api.example.com/miniapp-bind''))])))
       \<lparr>parseURL := \<lambda>s. Some (if s = js ''https://api.example.com/miniapp-bind''
          then demo_url\<lparr>pathname := js ''/miniapp-bind''\<rparr> else demo_url)\<rparr>,
     bindingOriginConfig = JStr (js ''https://api.example.com''), wechatLogin = None\<rparr>"

theorem createBinding_trusted_witness:
  "let st = demo_state\<lparr>currentSession := None, pendingIdentityTicket := Some (js ''T1'')\<rparr>;
       b = \<lparr>b_bindingId = js ''b7'', b_webUrl = js ''https://api.example.com/miniapp-bind''\<rparr>
   in createBinding demo_bind_env st = (Inr b, st) \<and> nonblank (b_bindingId b)"
proof -
  let ?st = "demo_state\<lparr>currentSession := None, pendingIdentityTicket := Some (js ''T1'')\<rparr>"
  let ?b = "\<lparr>b_bindingId = js ''b7'', b_webUrl = js ''https://api.example.com/miniapp-bind''\<rparr>"
  have r: "createBinding demo_bind_env ?st = (Inr ?b, ?st)" by code_simp
  from createBinding_trusted[OF r] r show ?thesis by (auto simp: Let_def)
qed



end
