(* ===== verification/Miniapp_Services.thy ===== *)
theory Miniapp_Services
  imports Miniapp_Auth "HOL-Library.Word"
begin

unbundle bit_operations_syntax

text \<open>
  The services of the mini program that read the gateway's answers:
  \<open>miniapp/src/features/commerce/commerce-service.ts\<close>, \<open>tokens/token-service.ts\<close>,
  \<open>account/account-service.ts\<close>, \<open>text-test/text-test-service.ts\<close> and
  \<open>legal/user-agreement.ts\<close>.

  Each service sends one request and validates the answer, an unknown value, before the pages
  see it. The locale \<open>response_reader\<close> is the contract of a validator: it fails with the error
  of its service and returns only well-formed data; \<open>service_outcome\<close> lifts it to the operation.
  \<open>URL\<close> and \<open>URLSearchParams\<close> are parameters of the environment; \<open>Taro.getRandomValues\<close> is an
  argument.
\<close>

section \<open>Model\<close>

record service_env =
  sapi :: api_env
  originConfig :: jsval
  searchParams :: "jsstr \<Rightarrow> (jsstr \<times> jsstr) list"
  resolveURL :: "jsstr \<Rightarrow> url \<Rightarrow> url"

definition session_options :: "jsstr \<Rightarrow> ApiMethod \<Rightarrow> jsval \<Rightarrow> ApiRequestOptions" where
  "session_options p m d = \<lparr>path = p, req_method = m, req_data = d, auth = SessionAuth, timeout = None\<rparr>"

text \<open>Send a request and hand the answer to a reader.\<close>

definition call_service ::
  "api_env \<Rightarrow> ApiRequestOptions \<Rightarrow> (jsval \<Rightarrow> mini_error + 'a) \<Rightarrow> mini_state \<Rightarrow> (mini_error + 'a) \<times> mini_state" where
  "call_service env options read st =
     (case send env options st of
        (Inl e, st') \<Rightarrow> (Inl e, st')
      | (Inr v, st') \<Rightarrow> (read v, st'))"

subsection \<open>Commerce\<close>

record MiniAppPlan =
  plan_id :: jsnum
  plan_title :: jsstr
  plan_subtitle :: jsstr
  plan_priceAmount :: jsnum
  plan_currency :: jsstr
  plan_durationUnit :: jsstr
  plan_durationValue :: jsnum

datatype product_type = Manual | Subscription

record MiniAppProduct =
  product_id :: jsnum
  product_name :: jsstr
  product_summary :: jsstr
  product_description :: jsstr
  product_imageUrl :: jsstr
  product_priceCents :: jsnum
  product_productType :: product_type

record MiniAppOrder =
  order_id :: jsnum
  order_productName :: jsstr
  order_priceCents :: jsnum
  order_paymentStatus :: jsstr
  order_fulfillmentStatus :: jsstr
  order_createdAt :: jsnum

record MiniAppCommerce =
  plans :: "MiniAppPlan list"
  products :: "MiniAppProduct list"
  orders :: "MiniAppOrder list"

definition invalidCommerceResponse :: mini_error where
  "invalidCommerceResponse =
     ApiError (api_error ''MINIAPP_INVALID_COMMERCE_RESPONSE'' ''Mini Program commerce response is invalid'')"

definition positive_integer :: "jsnum \<Rightarrow> bool" where
  "positive_integer n \<longleftrightarrow> is_integer_num n \<and> \<not> js_le n (int_num 0)"

definition readPositiveInteger :: "jsval \<Rightarrow> mini_error + jsnum" where
  "readPositiveInteger v =
     (if \<not> is_num v \<or> \<not> is_integer_num (num_of v) \<or> js_le (num_of v) (int_num 0)
      then Inl invalidCommerceResponse else Inr (num_of v))"

definition readFiniteNumber :: "jsval \<Rightarrow> mini_error + jsnum" where
  "readFiniteNumber v =
     (if \<not> is_num v \<or> \<not> is_finite_num (num_of v) then Inl invalidCommerceResponse else Inr (num_of v))"

definition readString :: "jsval \<Rightarrow> mini_error + jsstr" where
  "readString v = (if \<not> is_str v then Inl invalidCommerceResponse else Inr (str_of v))"

definition readPlan :: "jsval \<Rightarrow> mini_error + MiniAppPlan" where
  "readPlan v =
     (if \<not> is_record v then Inl invalidCommerceResponse
      else bind_sum (readPositiveInteger (jget v (js ''id''))) (\<lambda>i.
        bind_sum (readString (jget v (js ''title''))) (\<lambda>t.
        bind_sum (readString (jget v (js ''subtitle''))) (\<lambda>s.
        bind_sum (readFiniteNumber (jget v (js ''price_amount''))) (\<lambda>p.
        bind_sum (readString (jget v (js ''currency''))) (\<lambda>c.
        bind_sum (readString (jget v (js ''duration_unit''))) (\<lambda>u.
        bind_sum (readPositiveInteger (jget v (js ''duration_value''))) (\<lambda>d.
        Inr \<lparr>plan_id = i, plan_title = t, plan_subtitle = s, plan_priceAmount = p, plan_currency = c,
             plan_durationUnit = u, plan_durationValue = d\<rparr>))))))))"

definition readProduct :: "jsval \<Rightarrow> mini_error + MiniAppProduct" where
  "readProduct v =
     (if \<not> is_record v \<or> (jget v (js ''product_type'') \<noteq> JStr (js ''manual'')
          \<and> jget v (js ''product_type'') \<noteq> JStr (js ''subscription''))
      then Inl invalidCommerceResponse
      else bind_sum (readPositiveInteger (jget v (js ''id''))) (\<lambda>i.
        bind_sum (readString (jget v (js ''name''))) (\<lambda>n.
        bind_sum (readString (jget v (js ''summary''))) (\<lambda>s.
        bind_sum (readString (jget v (js ''description''))) (\<lambda>d.
        bind_sum (readString (jget v (js ''image_url''))) (\<lambda>u.
        bind_sum (readPositiveInteger (jget v (js ''price_cents''))) (\<lambda>p.
        Inr \<lparr>product_id = i, product_name = n, product_summary = s, product_description = d,
             product_imageUrl = u, product_priceCents = p,
             product_productType = (if jget v (js ''product_type'') = JStr (js ''manual'') then Manual
                                    else Subscription)\<rparr>)))))))"

definition readOrder :: "jsval \<Rightarrow> mini_error + MiniAppOrder" where
  "readOrder v =
     (if \<not> is_record v then Inl invalidCommerceResponse
      else bind_sum (readPositiveInteger (jget v (js ''id''))) (\<lambda>i.
        bind_sum (readString (jget v (js ''product_name''))) (\<lambda>n.
        bind_sum (readPositiveInteger (jget v (js ''price_cents''))) (\<lambda>p.
        bind_sum (readString (jget v (js ''payment_status''))) (\<lambda>s.
        bind_sum (readString (jget v (js ''fulfillment_status''))) (\<lambda>f.
        bind_sum (readFiniteNumber (jget v (js ''created_at''))) (\<lambda>c.
        Inr \<lparr>order_id = i, order_productName = n, order_priceCents = p, order_paymentStatus = s,
             order_fulfillmentStatus = f, order_createdAt = c\<rparr>)))))))"

definition readList :: "jsval \<Rightarrow> (jsval \<Rightarrow> mini_error + 'a) \<Rightarrow> mini_error + 'a list" where
  "readList v itemReader =
     (if \<not> is_array v then Inl invalidCommerceResponse else traverse itemReader (items_of v))"

definition trustedBusinessOrigin :: "service_env \<Rightarrow> mini_error + url" where
  "trustedBusinessOrigin env =
     (let configuredOrigin = (if is_str (originConfig env) then trim (str_of (originConfig env)) else []) in
      case parseURL (sapi env) configuredOrigin of
        None \<Rightarrow> Inl invalidCommerceResponse
      | Some u \<Rightarrow> if \<not> bare_https_origin u then Inl invalidCommerceResponse else Inr u)"

definition param_values :: "jsstr \<Rightarrow> (jsstr \<times> jsstr) list \<Rightarrow> jsstr list" where
  "param_values k ps = map snd (filter (\<lambda>p. fst p = k) ps)"

definition readCheckoutURL :: "service_env \<Rightarrow> jsval \<Rightarrow> mini_error + jsstr" where
  "readCheckoutURL env v =
     (if \<not> is_record v \<or> \<not> is_str (jget v (js ''checkout_url'')) then Inl invalidCommerceResponse
      else case trustedBusinessOrigin env of
        Inl e \<Rightarrow> Inl e
      | Inr trustedOrigin \<Rightarrow>
          case parseURL (sapi env) (str_of (jget v (js ''checkout_url''))) of
            None \<Rightarrow> Inl invalidCommerceResponse
          | Some checkoutURL \<Rightarrow>
              let fragment = searchParams env (drop 1 (hash checkoutURL));
                  tickets = param_values (js ''checkout_ticket'') fragment
              in if origin checkoutURL \<noteq> origin trustedOrigin \<or> username checkoutURL \<noteq> []
                    \<or> password checkoutURL \<noteq> [] \<or> pathname checkoutURL \<noteq> js ''/miniapp-checkout''
                    \<or> search checkoutURL \<noteq> [] \<or> length tickets \<noteq> 1 \<or> length fragment \<noteq> 1
                    \<or> trim (tickets ! 0) = [] \<or> length (tickets ! 0) > 512
                 then Inl invalidCommerceResponse
                 else Inr (href checkoutURL))"

text \<open>
  \<open>Promise.all\<close> of the three requests, all started in the same state: \<open>settled\<close> lists them in the
  order in which they settle, the first rejection among them is the one reported. The session
  is gone afterwards if one of them dropped it.
\<close>

definition first_rejection :: "nat list \<Rightarrow> (mini_error + jsval) list \<Rightarrow> mini_error option" where
  "first_rejection settled rs =
     (case find (\<lambda>i. isl (rs ! i)) settled of None \<Rightarrow> None | Some i \<Rightarrow> Some (projl (rs ! i)))"

definition getMiniAppCommerce ::
  "service_env \<Rightarrow> nat list \<Rightarrow> mini_state \<Rightarrow> (mini_error + MiniAppCommerce) \<times> mini_state" where
  "getMiniAppCommerce env settled st =
     (let qs = map (\<lambda>p. send (sapi env) (session_options (js p) GET JUndefined) st)
                 [''/plans'', ''/products'', ''/orders''];
          st' = (case find (\<lambda>q. currentSession (snd q) \<noteq> currentSession st) qs of
                   Some q \<Rightarrow> snd q | None \<Rightarrow> snd (qs ! 0))
      in case first_rejection settled (map fst qs) of
           Some e \<Rightarrow> (Inl e, st')
         | None \<Rightarrow>
             (bind_sum (readList (projr (fst (qs ! 0))) readPlan) (\<lambda>pl.
              bind_sum (readList (projr (fst (qs ! 1))) readProduct) (\<lambda>pr.
              bind_sum (readList (projr (fst (qs ! 2))) readOrder) (\<lambda>os.
              Inr \<lparr>plans = pl, products = pr, orders = os\<rparr>))), st'))"

datatype CheckoutTargetType = PlanTarget | ProductTarget

definition startMiniAppCheckout ::
  "service_env \<Rightarrow> CheckoutTargetType \<Rightarrow> jsnum \<Rightarrow> mini_state \<Rightarrow> (mini_error + jsstr) \<times> mini_state" where
  "startMiniAppCheckout env targetType targetID st =
     (if \<not> is_integer_num targetID \<or> js_le targetID (int_num 0) then (Inl invalidCommerceResponse, st)
      else call_service (sapi env)
        (session_options (js ''/checkout'') POST
           (JObj [(js ''target_type'', JStr (case targetType of PlanTarget \<Rightarrow> js ''plan'' | ProductTarget \<Rightarrow> js ''product'')),
                  (js ''target_id'', JNum targetID)]))
        (readCheckoutURL env) st)"

definition setMiniAppCheckoutWebURL :: "jsstr \<Rightarrow> mini_state \<Rightarrow> mini_state" where
  "setMiniAppCheckoutWebURL u st = st\<lparr>checkoutWebURL := Some u\<rparr>"

definition clearMiniAppCheckoutWebURL :: "mini_state \<Rightarrow> mini_state" where
  "clearMiniAppCheckoutWebURL st = st\<lparr>checkoutWebURL := None\<rparr>"

subsection \<open>Tokens\<close>

record MiniAppTokenSummary =
  token_id :: jsnum
  token_name :: jsstr
  token_keyHint :: jsstr
  token_status :: jsnum
  token_createdAt :: jsnum
  token_accessedAt :: jsnum
  token_expiresAt :: jsnum
  token_group :: jsstr
  token_modelLimits :: "jsstr list"

record MiniAppCreatedToken =
  created_token :: MiniAppTokenSummary
  created_tokenKey :: jsstr

record MiniAppTokenCreateInput =
  input_name :: jsstr
  input_group :: jsstr
  input_models :: "jsstr list"
  input_expiresInDays :: int

definition invalidTokenResponse :: mini_error where
  "invalidTokenResponse =
     ApiError (api_error ''MINIAPP_INVALID_TOKEN_RESPONSE'' ''Mini Program token response is invalid'')"

definition finite_number :: "jsval \<Rightarrow> bool" where
  "finite_number v \<longleftrightarrow> is_num v \<and> is_finite_num (num_of v)"

definition readTokenSummary :: "jsval \<Rightarrow> mini_error + MiniAppTokenSummary" where
  "readTokenSummary v =
     (let f = (\<lambda>k. jget v (js k)) in
      if \<not> is_record v \<or> \<not> is_num (f ''id'') \<or> \<not> is_integer_num (num_of (f ''id''))
         \<or> js_le (num_of (f ''id'')) (int_num 0) \<or> \<not> is_str (f ''name'') \<or> \<not> is_str (f ''key_hint'')
         \<or> f ''status'' \<notin> set (map (\<lambda>i. JNum (int_num i)) [1, 2, 3, 4])
         \<or> \<not> finite_number (f ''created_at'') \<or> \<not> finite_number (f ''accessed_at'')
         \<or> \<not> finite_number (f ''expires_at'') \<or> \<not> is_str (f ''group'') \<or> \<not> is_array (f ''model_limits'')
         \<or> \<not> list_all is_str (items_of (f ''model_limits''))
      then Inl invalidTokenResponse
      else Inr \<lparr>token_id = num_of (f ''id''), token_name = str_of (f ''name''),
             token_keyHint = str_of (f ''key_hint''), token_status = num_of (f ''status''),
             token_createdAt = num_of (f ''created_at''), token_accessedAt = num_of (f ''accessed_at''),
             token_expiresAt = num_of (f ''expires_at''), token_group = str_of (f ''group''),
             token_modelLimits = map str_of (items_of (f ''model_limits''))\<rparr>)"

definition readTokens :: "jsval \<Rightarrow> mini_error + MiniAppTokenSummary list" where
  "readTokens v =
     (if \<not> is_record v \<or> \<not> is_array (jget v (js ''items'')) then Inl invalidTokenResponse
      else traverse readTokenSummary (items_of (jget v (js ''items''))))"

definition getMiniAppTokens ::
  "api_env \<Rightarrow> mini_state \<Rightarrow> (mini_error + MiniAppTokenSummary list) \<times> mini_state" where
  "getMiniAppTokens env = call_service env (session_options (js ''/tokens'') GET JUndefined) readTokens"

definition readCreatedToken :: "jsval \<Rightarrow> mini_error + MiniAppCreatedToken" where
  "readCreatedToken v =
     (let k = jget v (js ''token_key'') in
      if \<not> is_record v \<or> \<not> is_str k \<or> trim (str_of k) = [] then Inl invalidTokenResponse
      else bind_sum (readTokenSummary (jget v (js ''token''))) (\<lambda>t.
        Inr \<lparr>created_token = t, created_tokenKey = str_of k\<rparr>))"

definition createTokenOptions :: "MiniAppTokenCreateInput \<Rightarrow> ApiRequestOptions" where
  "createTokenOptions input =
     session_options (js ''/tokens'') POST
       (JObj [(js ''name'', JStr (trim (input_name input))), (js ''group'', JStr (trim (input_group input))),
              (js ''models'', JArr (map (\<lambda>m. JStr (trim m)) (input_models input))),
              (js ''expires_in_days'', JNum (int_num (input_expiresInDays input)))])"

definition createMiniAppToken ::
  "api_env \<Rightarrow> MiniAppTokenCreateInput \<Rightarrow> mini_state \<Rightarrow> (mini_error + MiniAppCreatedToken) \<times> mini_state" where
  "createMiniAppToken env input = call_service env (createTokenOptions input) readCreatedToken"

text \<open>A token's identifier is an integer, which a template string prints in decimal notation.\<close>

definition updateMiniAppTokenStatus ::
  "api_env \<Rightarrow> int \<Rightarrow> int \<Rightarrow> mini_state \<Rightarrow> (mini_error + MiniAppTokenSummary) \<times> mini_state" where
  "updateMiniAppTokenStatus env i s =
     call_service env (session_options (js ''/tokens/'' @ show_int i @ js ''/status'') PATCH
       (JObj [(js ''status'', JNum (int_num s))])) readTokenSummary"

definition revokeMiniAppToken :: "api_env \<Rightarrow> int \<Rightarrow> mini_state \<Rightarrow> (mini_error + unit) \<times> mini_state" where
  "revokeMiniAppToken env i =
     call_service env (session_options (js ''/tokens/'' @ show_int i) DELETE JUndefined) (\<lambda>v. Inr ())"

subsection \<open>Account\<close>

record AccountQuota =
  quota_balance :: jsnum

record AccountSubscriptionQuota =
  quota_remaining :: jsnum
  quota_unlimited :: bool

record AccountSubscription =
  sub_planTitle :: jsstr
  sub_status :: jsstr
  sub_endsAt :: jsnum
  sub_quota :: AccountSubscriptionQuota

record AccountOverview =
  acc_username :: jsstr
  acc_displayName :: jsstr
  acc_email :: "jsstr option"
  acc_quota :: AccountQuota
  acc_enabledGroups :: "jsstr list"
  acc_subscriptions :: "AccountSubscription list"

definition invalidAccountOverview :: mini_error where
  "invalidAccountOverview =
     ApiError (api_error ''MINIAPP_INVALID_ACCOUNT_RESPONSE'' ''Mini Program account response is invalid'')"

text \<open>The unit of a quota is the constant \<open>'quota'\<close>.\<close>

definition readQuota :: "jsval \<Rightarrow> mini_error + AccountQuota" where
  "readQuota v =
     (if \<not> is_record v \<or> \<not> finite_number (jget v (js ''balance''))
         \<or> jget v (js ''unit'') \<noteq> JStr (js ''quota'')
      then Inl invalidAccountOverview
      else Inr \<lparr>quota_balance = num_of (jget v (js ''balance''))\<rparr>)"

definition readSubscriptionQuota :: "jsval \<Rightarrow> mini_error + AccountSubscriptionQuota" where
  "readSubscriptionQuota v =
     (if \<not> is_record v \<or> \<not> finite_number (jget v (js ''remaining''))
         \<or> \<not> is_bool (jget v (js ''unlimited'')) \<or> jget v (js ''unit'') \<noteq> JStr (js ''quota'')
      then Inl invalidAccountOverview
      else Inr \<lparr>quota_remaining = num_of (jget v (js ''remaining'')),
             quota_unlimited = bool_of (jget v (js ''unlimited''))\<rparr>)"

definition readSubscription :: "jsval \<Rightarrow> mini_error + AccountSubscription" where
  "readSubscription v =
     (if \<not> is_record v \<or> \<not> is_str (jget v (js ''plan_title'')) \<or> \<not> is_str (jget v (js ''status''))
         \<or> \<not> finite_number (jget v (js ''ends_at''))
      then Inl invalidAccountOverview
      else bind_sum (readSubscriptionQuota (jget v (js ''quota''))) (\<lambda>q.
        Inr \<lparr>sub_planTitle = str_of (jget v (js ''plan_title'')), sub_status = str_of (jget v (js ''status'')),
             sub_endsAt = num_of (jget v (js ''ends_at'')), sub_quota = q\<rparr>))"

definition readAccountOverview :: "jsval \<Rightarrow> mini_error + AccountOverview" where
  "readAccountOverview v =
     (let f = (\<lambda>k. jget v (js k)) in
      if \<not> is_record v \<or> \<not> is_str (f ''username'') \<or> \<not> is_str (f ''display_name'')
         \<or> (f ''email'' \<noteq> JUndefined \<and> \<not> is_str (f ''email''))
         \<or> \<not> is_array (f ''enabled_groups'') \<or> \<not> list_all is_str (items_of (f ''enabled_groups''))
         \<or> \<not> is_array (f ''subscriptions'')
      then Inl invalidAccountOverview
      else bind_sum (traverse readSubscription (items_of (f ''subscriptions''))) (\<lambda>subscriptions.
        bind_sum (readQuota (f ''quota'')) (\<lambda>q.
        Inr \<lparr>acc_username = str_of (f ''username''), acc_displayName = str_of (f ''display_name''),
             acc_email = (if f ''email'' = JUndefined then None else Some (str_of (f ''email''))),
             acc_quota = q, acc_enabledGroups = map str_of (items_of (f ''enabled_groups'')),
             acc_subscriptions = subscriptions\<rparr>)))"

definition getAccountOverview :: "api_env \<Rightarrow> mini_state \<Rightarrow> (mini_error + AccountOverview) \<times> mini_state" where
  "getAccountOverview env =
     call_service env (session_options (js ''/me/overview'') GET JUndefined) readAccountOverview"

subsection \<open>Text test\<close>

definition miniTextTestMaxInputCodePoints :: int where
  "miniTextTestMaxInputCodePoints = 4000"

datatype MiniTextTestState = Running | Succeeded | Failed | TimedOut

record MiniTextTestStatus =
  tt_requestID :: jsstr
  tt_model :: jsstr
  tt_state :: MiniTextTestState
  tt_chargeReference :: jsstr
  tt_chargedQuota :: jsnum
  tt_errorCode :: jsstr
  tt_createdAt :: jsnum
  tt_startedAt :: jsnum
  tt_completedAt :: jsnum

record StartMiniTextTestInput =
  in_clientRequestID :: jsstr
  in_model :: jsstr
  in_input :: jsstr

definition invalidTextTestResponse :: mini_error where
  "invalidTextTestResponse =
     ApiError (api_error ''MINIAPP_INVALID_TEXT_TEST_RESPONSE'' ''Mini Program text-test response is invalid'')"

definition readTextTestState :: "jsval \<Rightarrow> MiniTextTestState option" where
  "readTextTestState v =
     (if v = JStr (js ''running'') then Some Running
      else if v = JStr (js ''succeeded'') then Some Succeeded
      else if v = JStr (js ''failed'') then Some Failed
      else if v = JStr (js ''timed_out'') then Some TimedOut
      else None)"

definition safe_natural :: "jsval \<Rightarrow> bool" where
  "safe_natural v \<longleftrightarrow> is_num v \<and> is_safe_integer_num (num_of v) \<and> \<not> js_lt (num_of v) (int_num 0)"

definition readTextTestStatus :: "jsval \<Rightarrow> mini_error + MiniTextTestStatus" where
  "readTextTestStatus v =
     (let f = (\<lambda>k. jget v (js k)) in
      if \<not> is_record v then Inl invalidTextTestResponse
      else case readTextTestState (f ''state'') of
        None \<Rightarrow> Inl invalidTextTestResponse
      | Some s \<Rightarrow>
          if \<not> is_str (f ''request_id'') \<or> trim (str_of (f ''request_id'')) = []
             \<or> \<not> is_str (f ''model'') \<or> trim (str_of (f ''model'')) = []
             \<or> (f ''charge_ref'' \<noteq> JUndefined \<and> \<not> is_str (f ''charge_ref''))
             \<or> \<not> safe_natural (f ''charged_quota'')
             \<or> (f ''error_code'' \<noteq> JUndefined \<and> \<not> is_str (f ''error_code''))
             \<or> \<not> safe_natural (f ''created_at'') \<or> \<not> safe_natural (f ''started_at'')
             \<or> (f ''completed_at'' \<noteq> JUndefined \<and> \<not> safe_natural (f ''completed_at''))
          then Inl invalidTextTestResponse
          else Inr \<lparr>tt_requestID = str_of (f ''request_id''), tt_model = str_of (f ''model''), tt_state = s,
                 tt_chargeReference = (if f ''charge_ref'' = JUndefined then [] else str_of (f ''charge_ref'')),
                 tt_chargedQuota = num_of (f ''charged_quota''),
                 tt_errorCode = (if f ''error_code'' = JUndefined then [] else str_of (f ''error_code'')),
                 tt_createdAt = num_of (f ''created_at''), tt_startedAt = num_of (f ''started_at''),
                 tt_completedAt = (if f ''completed_at'' = JUndefined then int_num 0
                                   else num_of (f ''completed_at''))\<rparr>)"

definition isMiniTextTestInputValid :: "jsstr \<Rightarrow> bool" where
  "isMiniTextTestInputValid input \<longleftrightarrow> trim input \<noteq> [] \<and> code_points input \<le> miniTextTestMaxInputCodePoints"

datatype random_error = RandomRejected | RandomUnavailable

definition hex_lower :: "int \<Rightarrow> int" where
  "hex_lower d = (if d < 10 then 48 + d else 87 + d)"

text \<open>\<open>value.toString(16).padStart(2, '0')\<close>\<close>

definition hex_byte :: "8 word \<Rightarrow> jsstr" where
  "hex_byte b = [hex_lower (uint b div 16), hex_lower (uint b mod 16)]"

definition slice :: "nat \<Rightarrow> nat \<Rightarrow> 'a list \<Rightarrow> 'a list" where
  "slice i j xs = take (j - i) (drop i xs)"

definition stamp_v4 :: "8 word list \<Rightarrow> 8 word list" where
  "stamp_v4 bytes =
     (let bytes1 = bytes[6 := ((bytes ! 6) AND 0x0f) OR 0x40]
      in bytes1[8 := ((bytes1 ! 8) AND 0x3f) OR 0x80])"

definition createMiniTextTestRequestID :: "8 word list option \<Rightarrow> random_error + jsstr" where
  "createMiniTextTestRequestID randomValues =
     (case randomValues of
        None \<Rightarrow> Inl RandomRejected
      | Some bytes \<Rightarrow>
          if length bytes \<noteq> 16 then Inl RandomUnavailable
          else
            let hex = concat (map hex_byte (stamp_v4 bytes))
            in Inr (slice 0 8 hex @ js ''-'' @ slice 8 12 hex @ js ''-'' @ slice 12 16 hex @ js ''-''
                    @ slice 16 20 hex @ js ''-'' @ drop 20 hex))"

definition readModels :: "jsval \<Rightarrow> mini_error + jsstr list" where
  "readModels v =
     (if \<not> is_record v \<or> \<not> is_array (jget v (js ''models''))
         \<or> \<not> list_all (\<lambda>m. is_str m \<and> trim (str_of m) \<noteq> []) (items_of (jget v (js ''models'')))
      then Inl invalidTextTestResponse
      else Inr (map str_of (items_of (jget v (js ''models'')))))"

definition getMiniTextTestModels :: "api_env \<Rightarrow> mini_state \<Rightarrow> (mini_error + jsstr list) \<times> mini_state" where
  "getMiniTextTestModels env =
     call_service env (session_options (js ''/text-test/models'') GET JUndefined) readModels"

definition startMiniTextTest ::
  "api_env \<Rightarrow> StartMiniTextTestInput \<Rightarrow> mini_state \<Rightarrow> (mini_error + MiniTextTestStatus) \<times> mini_state" where
  "startMiniTextTest env input =
     call_service env
       ((session_options (js ''/text-tests'') POST
          (JObj [(js ''client_request_id'', JStr (in_clientRequestID input)), (js ''model'', JStr (in_model input)),
                 (js ''input'', JStr (in_input input))]))\<lparr>timeout := Some (int_num 20000)\<rparr>)
       readTextTestStatus"

definition getMiniTextTestStatus ::
  "api_env \<Rightarrow> jsstr \<Rightarrow> mini_state \<Rightarrow> (mini_error + MiniTextTestStatus) \<times> mini_state" where
  "getMiniTextTestStatus env requestID st =
     (case encodeURIComponent requestID of
        None \<Rightarrow> (Inl UriError, st)
      | Some encoded \<Rightarrow>
          call_service env (session_options (js ''/text-tests/'' @ encoded) GET JUndefined) readTextTestStatus st)"

subsection \<open>User agreement\<close>

definition getConfiguredPublicConsoleOrigin :: "service_env \<Rightarrow> url option" where
  "getConfiguredPublicConsoleOrigin env =
     (let configuredOrigin = (if is_str (originConfig env) then trim (str_of (originConfig env)) else []) in
      case parseURL (sapi env) configuredOrigin of
        None \<Rightarrow> None
      | Some u \<Rightarrow> if \<not> bare_https_origin u then None else Some u)"

definition getMiniAppUserAgreementURL :: "service_env \<Rightarrow> jsstr option" where
  "getMiniAppUserAgreementURL env =
     map_option (\<lambda>u. href (resolveURL env (js ''/user-agreement'') u)) (getConfiguredPublicConsoleOrigin env)"

section \<open>Contracts\<close>

text \<open>
  A validator: everything it returns is well-formed, and its only error is the one of its
  service.
\<close>

locale response_reader =
  fixes read :: "jsval \<Rightarrow> mini_error + 'a"
    and invalid :: mini_error
    and well_formed :: "'a \<Rightarrow> bool"
  assumes read_invalid: "read v = Inl e \<Longrightarrow> e = invalid"
    and read_wf: "read v = Inr a \<Longrightarrow> well_formed a"
begin

lemma traverse_wf: "traverse read vs = Inr as \<Longrightarrow> list_all well_formed as \<and> length as = length vs"
  by (auto simp: list_all_length dest!: traverse_Inr intro: read_wf)

lemma traverse_invalid: "traverse read vs = Inl e \<Longrightarrow> e = invalid"
  by (auto dest!: traverse_Inl read_invalid)

text \<open>An operation that sends one request and validates its answer.\<close>

lemma service_outcome:
  assumes "call_service env options read st = (r, st')"
  shows "(case r of
      Inr a \<Rightarrow> well_formed a \<and> currentSession st' = currentSession st
    | Inl e \<Rightarrow> e = invalid \<and> currentSession st' = currentSession st \<or> send env options st = (Inl e, st'))
    \<and> pendingIdentityTicket st' = pendingIdentityTicket st"
proof -
  obtain q where q: "send env options st = (q, st')"
    using assms by (auto simp: call_service_def split: prod.splits sum.splits)
  from send_frame[OF q] q assms show ?thesis
    by (auto simp: call_service_def dest: read_wf read_invalid split: sum.splits)
qed

end

section \<open>Lemmas\<close>

lemma bind_sum_Inr: "bind_sum x f = Inr b \<longleftrightarrow> (\<exists>a. x = Inr a \<and> f a = Inr b)"
  by (cases x) simp_all

lemma bind_sum_Inl: "bind_sum x f = Inl e \<longleftrightarrow> x = Inl e \<or> (\<exists>a. x = Inr a \<and> f a = Inl e)"
  by (cases x) simp_all

lemma readers_Inr:
  "readPositiveInteger v = Inr n \<longleftrightarrow> v = JNum n \<and> positive_integer n"
  "readFiniteNumber v = Inr n \<longleftrightarrow> v = JNum n \<and> is_finite_num n"
  "readString v = Inr s \<longleftrightarrow> v = JStr s"
  by (cases v; auto simp: readPositiveInteger_def readFiniteNumber_def readString_def positive_integer_def)+

lemma readers_Inl:
  "readPositiveInteger v = Inl e \<Longrightarrow> e = invalidCommerceResponse"
  "readFiniteNumber v = Inl e \<Longrightarrow> e = invalidCommerceResponse"
  "readString v = Inl e \<Longrightarrow> e = invalidCommerceResponse"
  by (auto simp: readPositiveInteger_def readFiniteNumber_def readString_def split: if_splits)

definition plan_wf :: "MiniAppPlan \<Rightarrow> bool" where
  "plan_wf p \<longleftrightarrow> positive_integer (plan_id p) \<and> is_finite_num (plan_priceAmount p)
     \<and> positive_integer (plan_durationValue p)"

definition product_wf :: "MiniAppProduct \<Rightarrow> bool" where
  "product_wf p \<longleftrightarrow> positive_integer (product_id p) \<and> positive_integer (product_priceCents p)"

definition order_wf :: "MiniAppOrder \<Rightarrow> bool" where
  "order_wf p \<longleftrightarrow> positive_integer (order_id p) \<and> positive_integer (order_priceCents p)
     \<and> is_finite_num (order_createdAt p)"

definition token_wf :: "MiniAppTokenSummary \<Rightarrow> bool" where
  "token_wf t \<longleftrightarrow> positive_integer (token_id t) \<and> token_status t \<in> int_num ` {1..4}
     \<and> is_finite_num (token_createdAt t) \<and> is_finite_num (token_accessedAt t)
     \<and> is_finite_num (token_expiresAt t)"

definition overview_wf :: "AccountOverview \<Rightarrow> bool" where
  "overview_wf a \<longleftrightarrow> is_finite_num (quota_balance (acc_quota a))
     \<and> list_all (\<lambda>s. is_finite_num (sub_endsAt s) \<and> is_finite_num (quota_remaining (sub_quota s)))
         (acc_subscriptions a)"

definition safe_natural_num :: "jsnum \<Rightarrow> bool" where
  "safe_natural_num n \<longleftrightarrow> is_safe_integer_num n \<and> \<not> js_lt n (int_num 0)"

definition status_wf :: "MiniTextTestStatus \<Rightarrow> bool" where
  "status_wf s \<longleftrightarrow> trim (tt_requestID s) \<noteq> [] \<and> trim (tt_model s) \<noteq> []
     \<and> list_all safe_natural_num [tt_chargedQuota s, tt_createdAt s, tt_startedAt s, tt_completedAt s]"

lemma safe_natural_num_zero: "safe_natural_num (int_num 0)"
  by code_simp

interpretation plan: response_reader readPlan invalidCommerceResponse plan_wf
  by unfold_locales
    (auto simp: readPlan_def bind_sum_Inr bind_sum_Inl readers_Inr plan_wf_def
      dest: readers_Inl split: if_splits)

interpretation product: response_reader readProduct invalidCommerceResponse product_wf
  by unfold_locales
    (auto simp: readProduct_def bind_sum_Inr bind_sum_Inl readers_Inr product_wf_def
      dest: readers_Inl split: if_splits)

interpretation order: response_reader readOrder invalidCommerceResponse order_wf
  by unfold_locales
    (auto simp: readOrder_def bind_sum_Inr bind_sum_Inl readers_Inr order_wf_def
      dest: readers_Inl split: if_splits)

interpretation token: response_reader readTokenSummary invalidTokenResponse token_wf
  by unfold_locales
    (auto simp: readTokenSummary_def token_wf_def positive_integer_def finite_number_def Let_def split: if_splits)

interpretation tokens: response_reader readTokens invalidTokenResponse "list_all token_wf"
  by unfold_locales
    (auto simp: readTokens_def dest: token.traverse_wf token.traverse_invalid split: if_splits)

interpretation created: response_reader readCreatedToken invalidTokenResponse
  "\<lambda>c. token_wf (created_token c) \<and> trim (created_tokenKey c) \<noteq> []"
  by unfold_locales
    (auto simp: readCreatedToken_def Let_def bind_sum_Inr bind_sum_Inl
      dest: token.read_wf token.read_invalid split: if_splits)

interpretation subscription: response_reader readSubscription invalidAccountOverview
  "\<lambda>s. is_finite_num (sub_endsAt s) \<and> is_finite_num (quota_remaining (sub_quota s))"
  by unfold_locales
    (auto simp: readSubscription_def readSubscriptionQuota_def bind_sum_Inr bind_sum_Inl finite_number_def
      split: if_splits)

interpretation overview: response_reader readAccountOverview invalidAccountOverview overview_wf
  by unfold_locales
    (auto simp: readAccountOverview_def readQuota_def overview_wf_def bind_sum_Inr bind_sum_Inl Let_def
      finite_number_def dest: subscription.traverse_wf subscription.traverse_invalid split: if_splits)

interpretation status: response_reader readTextTestStatus invalidTextTestResponse status_wf
  by unfold_locales
    (auto simp: readTextTestStatus_def status_wf_def safe_natural_def safe_natural_num_def[symmetric]
      safe_natural_num_zero Let_def split: if_splits option.splits)

interpretation models: response_reader readModels invalidTextTestResponse "list_all (\<lambda>m. trim m \<noteq> [])"
  by unfold_locales (auto simp: readModels_def list_all_iff split: if_splits)

lemma send_session_ok:
  assumes "send env options st = (Inr v, st')" "auth options = SessionAuth"
  shows "currentSession st \<noteq> None"
proof -
  obtain k where r: "request env options st = (Inr v, st', k)"
    using assms(1) by (auto simp: send_def split: prod.splits sum.splits)
  then show ?thesis
  proof (cases rule: request_cases)
    case (sent u h s)
    from authorization_SessionAuth[OF sent(2) assms(2)] show ?thesis by auto
  qed simp
qed

lemma param_values_one:
  "length (param_values k ps) = 1 \<Longrightarrow> length ps = 1 \<Longrightarrow> ps = [(k, param_values k ps ! 0)]"
  by (auto simp: param_values_def length_Suc_conv split: if_splits)

lemma trustedBusinessOrigin_Inr: "trustedBusinessOrigin env = Inr u \<Longrightarrow> bare_https_origin u"
  by (auto simp: trustedBusinessOrigin_def Let_def split: option.splits if_splits)

definition checkout_page :: "service_env \<Rightarrow> url \<Rightarrow> url \<Rightarrow> bool" where
  "checkout_page env trusted p \<longleftrightarrow>
     (let ps = searchParams env (drop 1 (hash p)); ts = param_values (js ''checkout_ticket'') ps in
      trustedBusinessOrigin env = Inr trusted \<and> bare_https_origin trusted \<and> origin p = origin trusted
      \<and> username p = [] \<and> password p = [] \<and> pathname p = js ''/miniapp-checkout'' \<and> search p = []
      \<and> length ts = 1 \<and> length ps = 1 \<and> trim (ts ! 0) \<noteq> [] \<and> length (ts ! 0) \<le> 512)"

lemma readCheckoutURL_Inr:
  "readCheckoutURL env v = Inr u \<Longrightarrow> \<exists>trusted p. checkout_page env trusted p \<and> u = href p"
  by (auto simp: readCheckoutURL_def checkout_page_def Let_def dest: trustedBusinessOrigin_Inr
      split: if_splits sum.splits option.splits)

lemma first_rejection_None:
  "first_rejection settled rs = None \<Longrightarrow> i \<in> set settled \<Longrightarrow> \<exists>v. rs ! i = Inr v"
  by (auto simp: first_rejection_def find_None_iff isl_def split: option.splits) (metis sum.exhaust)

lemma list_all_traverse_wf:
  "readList v readPlan = Inr pl \<Longrightarrow> list_all plan_wf pl \<and> length pl = length (items_of v)"
  "readList v readProduct = Inr pr \<Longrightarrow> list_all product_wf pr \<and> length pr = length (items_of v)"
  "readList v readOrder = Inr os \<Longrightarrow> list_all order_wf os \<and> length os = length (items_of v)"
  by (auto simp: readList_def dest: plan.traverse_wf product.traverse_wf order.traverse_wf split: if_splits)

lemma byte_cases: "(b :: 8 word) \<in> set (map word_of_int (upto 0 255))"
proof -
  have "0 \<le> uint b" "uint b \<le> 255" using uint_bounded[of b] by simp_all
  then have "uint b \<in> set (upto 0 255)" by simp
  moreover have "b = word_of_int (uint b)" by simp
  ultimately show ?thesis by (metis imageI set_map)
qed

lemma hex_byte_matches: "list_all is_hex_ci (hex_byte b)"
proof -
  have "\<forall>c \<in> set (map word_of_int (upto 0 255) :: 8 word list). list_all is_hex_ci (hex_byte c)"
    by code_simp
  with byte_cases show ?thesis by blast
qed

lemma hex_byte_version: "hd (hex_byte ((b AND 0x0f) OR 0x40)) = 52"
proof -
  have "\<forall>c \<in> set (map word_of_int (upto 0 255) :: 8 word list). hd (hex_byte ((c AND 0x0f) OR 0x40)) = 52"
    by code_simp
  with byte_cases show ?thesis by blast
qed

lemma hex_byte_variant: "hd (hex_byte ((b AND 0x3f) OR 0x80)) \<in> {56, 57, 97, 98}"
proof -
  have "\<forall>c \<in> set (map word_of_int (upto 0 255) :: 8 word list).
      hd (hex_byte ((c AND 0x3f) OR 0x80)) \<in> {56, 57, 97, 98}"
    by code_simp
  with byte_cases show ?thesis by blast
qed

lemma matches_append:
  "length ps = length us \<Longrightarrow> matches (ps @ qs) (us @ vs) \<longleftrightarrow> matches ps us \<and> matches qs vs"
  by (induction ps us rule: list_induct2) auto

lemma matches_hex: "n = length us \<Longrightarrow> matches (replicate n is_hex_ci) us \<longleftrightarrow> list_all is_hex_ci us"
  by (induction us arbitrary: n) auto

lemma length_16:
  "length bs = 16 \<Longrightarrow> \<exists>b0 b1 b2 b3 b4 b5 b6 b7 b8 b9 b10 b11 b12 b13 b14 b15.
     bs = [b0, b1, b2, b3, b4, b5, b6, b7, b8, b9, b10, b11, b12, b13, b14, b15]"
  by (auto simp: numeral_eq_Suc length_Suc_conv)

section \<open>Properties\<close>

text \<open>
  The identifier the mini program makes for a text test is always a version 4 UUID: sixteen
  random bytes, whatever they are, give an identifier that the storage of the pending test
  accepts; any other number of bytes is refused.
\<close>

theorem createMiniTextTestRequestID_uuid:
  "case createMiniTextTestRequestID (Some bytes) of
     Inr i \<Rightarrow> length bytes = 16 \<and> isTextTestRequestID (JStr i)
   | Inl e \<Rightarrow> length bytes \<noteq> 16 \<and> e = RandomUnavailable"
proof (cases "length bytes = 16")
  case False
  then show ?thesis by (simp add: createMiniTextTestRequestID_def)
next
  case True
  obtain b0 b1 b2 b3 b4 b5 b6 b7 b8 b9 b10 b11 b12 b13 b14 b15 where
    b: "bytes = [b0, b1, b2, b3, b4, b5, b6, b7, b8, b9, b10, b11, b12, b13, b14, b15]"
    using length_16[OF True] by (elim exE) (rule that)
  define h l where hl: "h = (\<lambda>c. hd (hex_byte c))" "l = (\<lambda>c. hex_byte c ! 1)"
  have two: "hex_byte c = [h c, l c]" for c by (simp add: hl hex_byte_def)
  have hex: "is_hex_ci (h c)" "is_hex_ci (l c)" for c
    using hex_byte_matches[of c] by (simp_all add: two)
  have v: "h ((b6 AND 0x0f) OR 0x40) = 52" "h ((b8 AND 0x3f) OR 0x80) \<in> {56, 57, 97, 98}"
    using hex_byte_version[of b6] hex_byte_variant[of b8] by (simp_all add: hl)
  then show ?thesis
    by (auto simp: b createMiniTextTestRequestID_def stamp_v4_def isTextTestRequestID_def uuidV4Pattern_def
        two hex slice_def js_def numeral_eq_Suc)
qed


definition demo_checkout_url :: url where
  "demo_checkout_url = demo_url\<lparr>pathname := js ''/miniapp-checkout'', hash := js ''#checkout_ticket=t1'',
     href := js ''https://api.example.com/miniapp-checkout#checkout_ticket=t1''\<rparr>"

definition demo_service_env :: "jsval \<Rightarrow> service_env" where
  "demo_service_env v = \<lparr>sapi = (demo_env (\<lambda>n r. demo_ok v))
       \<lparr>parseURL := \<lambda>s. if s = js ''https://api.example.com'' then Some demo_url else Some demo_checkout_url\<rparr>,
     originConfig = JStr (js ''https://api.example.com''),
     searchParams = (\<lambda>s. [(js ''checkout_ticket'', js ''t1'')]), resolveURL = (\<lambda>s u. u)\<rparr>"


text \<open>
  C37. The shop page shows only well-formed offers: when the three lists load, every answer was
  accepted, each list has one entry per item of its answer, every identifier, price in cents and
  duration is a positive integer and every other amount and time is finite.
\<close>

theorem getMiniAppCommerce_wf:
  assumes "getMiniAppCommerce env settled st = (Inr c, st')" "{0, 1, 2} \<subseteq> set settled"
  shows "\<exists>p q r st1 st2 st3. send (sapi env) (session_options (js ''/plans'') GET JUndefined) st = (Inr p, st1)
    \<and> send (sapi env) (session_options (js ''/products'') GET JUndefined) st = (Inr q, st2)
    \<and> send (sapi env) (session_options (js ''/orders'') GET JUndefined) st = (Inr r, st3)
    \<and> length (plans c) = length (items_of p) \<and> list_all plan_wf (plans c)
    \<and> length (products c) = length (items_of q) \<and> list_all product_wf (products c)
    \<and> length (orders c) = length (items_of r) \<and> list_all order_wf (orders c)"
proof -
  let ?s = "\<lambda>p. send (sapi env) (session_options (js p) GET JUndefined) st"
  let ?rs = "map fst [?s ''/plans'', ?s ''/products'', ?s ''/orders'']"
  have n: "first_rejection settled ?rs = None"
    using assms(1) by (auto simp: getMiniAppCommerce_def Let_def split: option.splits)
  obtain p q r where r: "?rs ! 0 = Inr p" "?rs ! 1 = Inr q" "?rs ! 2 = Inr r"
    using first_rejection_None[OF n] assms(2) by (metis insert_subset)
  then have l: "readList p readPlan = Inr (plans c)" "readList q readProduct = Inr (products c)"
    "readList r readOrder = Inr (orders c)"
    using assms(1) n by (auto simp: getMiniAppCommerce_def Let_def bind_sum_Inr)
  from list_all_traverse_wf(1)[OF l(1)] list_all_traverse_wf(2)[OF l(2)] list_all_traverse_wf(3)[OF l(3)] r
  show ?thesis by (cases "?s ''/plans''"; cases "?s ''/products''"; cases "?s ''/orders''") auto
qed

definition demo_offer :: jsval where
  "demo_offer = JObj (map (\<lambda>k. (js k, JNum (int_num 7)))
       [''id'', ''price_amount'', ''duration_value'', ''price_cents'', ''created_at'']
     @ map (\<lambda>k. (js k, JStr (js ''x'')))
       [''title'', ''subtitle'', ''currency'', ''duration_unit'', ''name'', ''summary'', ''description'',
        ''image_url'', ''product_name'', ''payment_status'', ''fulfillment_status'']
     @ [(js ''product_type'', JStr (js ''manual''))])"

theorem getMiniAppCommerce_wf_witness:
  "\<exists>c. getMiniAppCommerce (demo_service_env (JArr [demo_offer])) [2, 0, 1] demo_state = (Inr c, demo_state)
     \<and> length (plans c) = 1 \<and> length (products c) = 1 \<and> length (orders c) = 1
     \<and> list_all plan_wf (plans c) \<and> list_all product_wf (products c) \<and> list_all order_wf (orders c)"
proof -
  let ?e = "demo_service_env (JArr [demo_offer])"
  have l: "\<not> isl (fst (getMiniAppCommerce ?e [2, 0, 1] demo_state))"
    "snd (getMiniAppCommerce ?e [2, 0, 1] demo_state) = demo_state"
    "(let c = projr (fst (getMiniAppCommerce ?e [2, 0, 1] demo_state))
      in length (plans c) = 1 \<and> length (products c) = 1 \<and> length (orders c) = 1)"
    by code_simp+
  then obtain c where r: "getMiniAppCommerce ?e [2, 0, 1] demo_state = (Inr c, demo_state)"
    by (cases "getMiniAppCommerce ?e [2, 0, 1] demo_state"; cases "fst (getMiniAppCommerce ?e [2, 0, 1] demo_state)") auto
  have s: "{0, 1, 2} \<subseteq> set [2, 0, 1 :: nat]" by simp
  from getMiniAppCommerce_wf[OF r s] r l show ?thesis by (auto simp: Let_def)
qed

text \<open>
  Creating an access token either yields a well-formed token with a key that is not blank,
  or fails with the token service's own error or with the error of the request; the session in
  memory is dropped only in the last case.
\<close>

theorem createMiniAppToken_outcome:
  "case createMiniAppToken env input st of
     (Inr c, st') \<Rightarrow> token_wf (created_token c) \<and> trim (created_tokenKey c) \<noteq> []
       \<and> currentSession st' = currentSession st
   | (Inl e, st') \<Rightarrow> e = invalidTokenResponse \<and> currentSession st' = currentSession st
       \<or> send env (createTokenOptions input) st = (Inl e, st')"
proof -
  obtain r st' where r: "createMiniAppToken env input st = (r, st')" by fastforce
  from created.service_outcome[OF r[unfolded createMiniAppToken_def]] r show ?thesis
    by (auto split: sum.splits)
qed

text \<open>
  Asking for the status of a text test either yields a status whose identifier and model
  are not blank and whose charge and times are natural numbers that JavaScript represents
  exactly, or fails; the identifier stays one segment of the path whatever it contains.
\<close>

theorem getMiniTextTestStatus_outcome:
  "case getMiniTextTestStatus env requestID st of
     (Inr s, st') \<Rightarrow> status_wf s \<and> currentSession st' = currentSession st
   | (Inl e, st') \<Rightarrow> e = UriError \<and> st' = st \<and> encodeURIComponent requestID = None
       \<or> e = invalidTextTestResponse \<and> currentSession st' = currentSession st
       \<or> (\<exists>seg. send env (session_options (js ''/text-tests/'' @ seg) GET JUndefined) st = (Inl e, st')
            \<and> set seg \<inter> set (js ''/?#'') = {})"
proof (cases "encodeURIComponent requestID")
  case None
  then show ?thesis by (simp add: getMiniTextTestStatus_def)
next
  case (Some seg)
  have "set seg \<inter> set (js ''/?#'') = {}"
    using encodeURIComponent_no_separator[OF Some] by (auto simp: js_def)
  moreover obtain r st' where r: "getMiniTextTestStatus env requestID st = (r, st')" by fastforce
  then have "call_service env (session_options (js ''/text-tests/'' @ seg) GET JUndefined) readTextTestStatus st = (r, st')"
    using Some by (simp add: getMiniTextTestStatus_def)
  from status.service_outcome[OF this] r calculation show ?thesis
    by (auto split: sum.splits)
qed

end
