(* ===== verification/Text_Test_Lifecycle.thy ===== *)
theory Text_Test_Lifecycle
  imports Miniapp_Services Machines
begin

text \<open>
  The controller of the text-test page
  (\<open>miniapp/src/features/text-test/text-test-lifecycle.ts\<close>): it starts a billed test once,
  remembers its identifier, and polls the status while the page is in the foreground.

  The state holds the private fields, the module-level set \<open>inFlightStartRequestIDs\<close>, the
  persisted identifier, the calls that have not settled yet (\<open>waits\<close>) and the calls and
  callbacks made so far, newest first (\<open>calls\<close>). \<open>pollTimer\<close> says that the field holds a
  handle, \<open>timerLive\<close> that the host will still fire it. Each method runs to its next \<open>await\<close>;
  the time and the outcome of a settled call are arguments. The callbacks of the page only
  update what it displays; \<open>onError\<close> may also reset the session.
\<close>

section \<open>Model\<close>

definition pollDelayMilliseconds :: int where
  "pollDelayMilliseconds = 1500"

definition foregroundPollLimitMilliseconds :: int where
  "foregroundPollLimitMilliseconds = 20000"

datatype wait =
    AwaitCreate (wait_op: int)
  | AwaitStart (wait_op: int) jsstr
  | AwaitStatus (wait_op: int) jsstr

datatype tt_call =
    CallCreateRequestID
  | CallStart jsstr
  | CallGetStatus jsstr int
  | OnStatus MiniTextTestStatus
  | OnPending jsstr
  | OnError mini_error
  | OnRequestIDChange "jsstr option"
  | OnStartChange bool

record tt_page =
  active :: bool
  foreground :: bool
  foregroundDeadline :: int
  operation :: int
  pendingRequestID :: "jsstr option"
  starting :: bool
  pollTimer :: bool
  timerLive :: bool
  inFlightStartRequestIDs :: "jsstr list"
  persisted :: "jsstr option"
  waits :: "wait list"
  calls :: "tt_call list"

definition tt_new :: "jsstr option \<Rightarrow> jsstr list \<Rightarrow> tt_page" where
  "tt_new persistedID inFlight =
     \<lparr>active = True, foreground = False, foregroundDeadline = 0, operation = 0,
      pendingRequestID = persistedID, starting = False, pollTimer = False, timerLive = False,
      inFlightStartRequestIDs = inFlight, persisted = persistedID, waits = [], calls = []\<rparr>"

definition note_call :: "tt_call \<Rightarrow> tt_page \<Rightarrow> tt_page" where
  "note_call c s = s\<lparr>calls := c # calls s\<rparr>"

definition current :: "int \<Rightarrow> tt_page \<Rightarrow> bool" where
  "current oper s \<longleftrightarrow> active s \<and> foreground s \<and> oper = operation s"

definition clearPollTimer :: "tt_page \<Rightarrow> tt_page" where
  "clearPollTimer s = (if \<not> pollTimer s then s else s\<lparr>pollTimer := False, timerLive := False\<rparr>)"

definition setPersistedRequestID :: "jsstr option \<Rightarrow> tt_page \<Rightarrow> tt_page" where
  "setPersistedRequestID i s = s\<lparr>persisted := i\<rparr>"

definition clearPendingRequestID :: "tt_page \<Rightarrow> tt_page" where
  "clearPendingRequestID s =
     note_call (OnRequestIDChange None) (setPersistedRequestID None (s\<lparr>pendingRequestID := None\<rparr>))"

definition setStarting :: "bool \<Rightarrow> tt_page \<Rightarrow> tt_page" where
  "setStarting b s = (if starting s = b then s else note_call (OnStartChange b) (s\<lparr>starting := b\<rparr>))"

definition schedulePoll :: "int \<Rightarrow> tt_page \<Rightarrow> tt_page" where
  "schedulePoll now s =
     (case pendingRequestID s of
        None \<Rightarrow> s
      | Some requestID \<Rightarrow>
          if \<not> active s \<or> \<not> foreground s then s
          else
            let s1 = clearPollTimer s in
            if now \<ge> foregroundDeadline s1 then note_call (OnPending requestID) s1
            else s1\<lparr>pollTimer := True, timerLive := True\<rparr>)"

definition handleStatus :: "MiniTextTestStatus \<Rightarrow> int \<Rightarrow> tt_page \<Rightarrow> tt_page" where
  "handleStatus st now s =
     (let s1 = note_call (OnStatus st) s in
      if tt_state st = Running then schedulePoll now s1
      else clearPollTimer ((clearPendingRequestID s1)\<lparr>foregroundDeadline := 0\<rparr>))"

definition checkStatus :: "int \<Rightarrow> tt_page \<Rightarrow> tt_page" where
  "checkStatus now s =
     (case pendingRequestID s of
        None \<Rightarrow> s
      | Some requestID \<Rightarrow>
          if \<not> active s \<or> \<not> foreground s then s
          else if starting s \<or> requestID \<in> set (inFlightStartRequestIDs s) then schedulePoll now s
          else
            let s1 = clearPollTimer s in
            if now \<ge> foregroundDeadline s1 then note_call (OnPending requestID) s1
            else
              let s2 = s1\<lparr>operation := operation s1 + 1\<rparr> in
              note_call (CallGetStatus requestID now)
                (s2\<lparr>waits := AwaitStatus (operation s2) requestID # waits s2\<rparr>))"

definition tt_show :: "int \<Rightarrow> tt_page \<Rightarrow> tt_page" where
  "tt_show now s =
     (if \<not> active s then s
      else
        let s1 = s\<lparr>foreground := True\<rparr> in
        if pendingRequestID s1 \<noteq> None
        then checkStatus now (s1\<lparr>foregroundDeadline := now + foregroundPollLimitMilliseconds\<rparr>)
        else s1)"

definition tt_hide :: "tt_page \<Rightarrow> tt_page" where
  "tt_hide s = clearPollTimer (s\<lparr>foreground := False, operation := operation s + 1\<rparr>)"

definition tt_unload :: "tt_page \<Rightarrow> tt_page" where
  "tt_unload s = (tt_hide (s\<lparr>active := False\<rparr>))\<lparr>foregroundDeadline := 0\<rparr>"

definition resetSession :: "tt_page \<Rightarrow> tt_page" where
  "resetSession s = clearPendingRequestID (tt_unload s)"

text \<open>
  The \<open>catch\<close> blocks of \<open>submit\<close> and \<open>checkStatus\<close>. The page decides whether an error is
  retryable, and its \<open>onError\<close> resets the session when the user has to log in again.
\<close>

datatype reaction = Reaction (retryable: bool) (resets: bool)

definition handle_error :: "int \<Rightarrow> mini_error \<Rightarrow> reaction \<Rightarrow> int \<Rightarrow> tt_page \<Rightarrow> tt_page" where
  "handle_error oper e r now s =
     (if \<not> current oper s then s
      else
        let s1 = note_call (OnError e) (if retryable r then s else clearPendingRequestID s);
            s2 = (if resets r then resetSession s1 else s1)
        in if retryable r then schedulePoll now s2 else s2)"

text \<open>The \<open>finally\<close> block of \<open>submit\<close>.\<close>

definition submit_finally :: "int \<Rightarrow> jsstr option \<Rightarrow> int \<Rightarrow> tt_page \<Rightarrow> tt_page" where
  "submit_finally oper requestID now s =
     (let s1 = (case requestID of None \<Rightarrow> s
                | Some i \<Rightarrow> s\<lparr>inFlightStartRequestIDs := removeAll i (inFlightStartRequestIDs s)\<rparr>);
          s2 = setStarting False s1
      in if \<not> current oper s2 \<and> active s2 \<and> foreground s2 \<and> pendingRequestID s2 \<noteq> None
         then checkStatus now s2 else s2)"

definition submit :: "int \<Rightarrow> tt_page \<Rightarrow> tt_page" where
  "submit now s =
     (if \<not> active s \<or> \<not> foreground s \<or> starting s then s
      else if pendingRequestID s \<noteq> None
      then checkStatus now (s\<lparr>foregroundDeadline := now + foregroundPollLimitMilliseconds\<rparr>)
      else
        let s1 = setStarting True s;
            s2 = s1\<lparr>operation := operation s1 + 1\<rparr>
        in note_call CallCreateRequestID (s2\<lparr>waits := AwaitCreate (operation s2) # waits s2\<rparr>))"

definition submit_created :: "int \<Rightarrow> jsstr \<Rightarrow> int \<Rightarrow> tt_page \<Rightarrow> tt_page" where
  "submit_created oper requestID now s =
     (if \<not> current oper s then submit_finally oper (Some requestID) now s
      else
        let s1 = setPersistedRequestID (Some requestID) (s\<lparr>pendingRequestID := Some requestID\<rparr>);
            s2 = note_call (OnRequestIDChange (Some requestID)) s1;
            s3 = s2\<lparr>foregroundDeadline := now + foregroundPollLimitMilliseconds,
                    inFlightStartRequestIDs := List.insert requestID (inFlightStartRequestIDs s2)\<rparr>
        in note_call (CallStart requestID) (s3\<lparr>waits := AwaitStart oper requestID # waits s3\<rparr>))"

definition submit_create_rejected :: "int \<Rightarrow> mini_error \<Rightarrow> reaction \<Rightarrow> int \<Rightarrow> tt_page \<Rightarrow> tt_page" where
  "submit_create_rejected oper e r now s =
     submit_finally oper None now (handle_error oper e r now s)"

definition submit_started :: "int \<Rightarrow> jsstr \<Rightarrow> MiniTextTestStatus \<Rightarrow> int \<Rightarrow> tt_page \<Rightarrow> tt_page" where
  "submit_started oper requestID st now s =
     submit_finally oper (Some requestID) now (if current oper s then handleStatus st now s else s)"

definition submit_start_rejected :: "int \<Rightarrow> jsstr \<Rightarrow> mini_error \<Rightarrow> reaction \<Rightarrow> int \<Rightarrow> tt_page \<Rightarrow> tt_page" where
  "submit_start_rejected oper requestID e r now s =
     submit_finally oper (Some requestID) now (handle_error oper e r now s)"

definition status_resolved :: "int \<Rightarrow> jsstr \<Rightarrow> MiniTextTestStatus \<Rightarrow> int \<Rightarrow> tt_page \<Rightarrow> tt_page" where
  "status_resolved oper requestID st now s =
     (if \<not> current oper s \<or> pendingRequestID s \<noteq> Some requestID then s else handleStatus st now s)"

definition status_rejected :: "int \<Rightarrow> mini_error \<Rightarrow> reaction \<Rightarrow> int \<Rightarrow> tt_page \<Rightarrow> tt_page" where
  "status_rejected oper e r now s = handle_error oper e r now s"

subsection \<open>Events\<close>

text \<open>
  \<open>Other_Start_Settled\<close> is the \<open>finally\<close> block of an earlier controller, which shares the set of
  identifiers in flight; identifiers are random, so it is not one this controller has in flight.
\<close>

datatype tt_event =
    Show int
  | Hide
  | Unload
  | Reset_Session
  | Submit int
  | Timer int
  | Create_Resolved wait jsstr int
  | Create_Rejected wait mini_error reaction int
  | Start_Resolved wait MiniTextTestStatus int
  | Start_Rejected wait mini_error reaction int
  | Status_Resolved wait MiniTextTestStatus int
  | Status_Rejected wait mini_error reaction int
  | Other_Start_Settled jsstr

definition settle :: "wait \<Rightarrow> tt_page \<Rightarrow> tt_page" where
  "settle w s = s\<lparr>waits := remove1 w (waits s)\<rparr>"

fun tt_enabled :: "tt_page \<Rightarrow> tt_event \<Rightarrow> bool" where
  "tt_enabled s (Timer now) \<longleftrightarrow> timerLive s"
| "tt_enabled s (Create_Resolved w i now) \<longleftrightarrow> w \<in> set (waits s) \<and> (\<exists>oper. w = AwaitCreate oper)"
| "tt_enabled s (Create_Rejected w e r now) \<longleftrightarrow> w \<in> set (waits s) \<and> (\<exists>oper. w = AwaitCreate oper)"
| "tt_enabled s (Start_Resolved w st now) \<longleftrightarrow> w \<in> set (waits s) \<and> (\<exists>oper i. w = AwaitStart oper i)"
| "tt_enabled s (Start_Rejected w e r now) \<longleftrightarrow> w \<in> set (waits s) \<and> (\<exists>oper i. w = AwaitStart oper i)"
| "tt_enabled s (Status_Resolved w st now) \<longleftrightarrow> w \<in> set (waits s) \<and> (\<exists>oper i. w = AwaitStatus oper i)"
| "tt_enabled s (Status_Rejected w e r now) \<longleftrightarrow> w \<in> set (waits s) \<and> (\<exists>oper i. w = AwaitStatus oper i)"
| "tt_enabled s (Other_Start_Settled i) \<longleftrightarrow> (\<forall>oper. AwaitStart oper i \<notin> set (waits s))"
| "tt_enabled s _ \<longleftrightarrow> True"

fun tt_step :: "tt_page \<Rightarrow> tt_event \<Rightarrow> tt_page" where
  "tt_step s (Show now) = tt_show now s"
| "tt_step s Hide = tt_hide s"
| "tt_step s Unload = tt_unload s"
| "tt_step s Reset_Session = resetSession s"
| "tt_step s (Submit now) = submit now s"
| "tt_step s (Timer now) = checkStatus now (s\<lparr>timerLive := False\<rparr>)"
| "tt_step s (Create_Resolved w i now) = submit_created (wait_op w) i now (settle w s)"
| "tt_step s (Create_Rejected w e r now) = submit_create_rejected (wait_op w) e r now (settle w s)"
| "tt_step s (Start_Resolved w st now) =
     (case w of AwaitStart oper i \<Rightarrow> submit_started oper i st now (settle w s) | _ \<Rightarrow> s)"
| "tt_step s (Start_Rejected w e r now) =
     (case w of AwaitStart oper i \<Rightarrow> submit_start_rejected oper i e r now (settle w s) | _ \<Rightarrow> s)"
| "tt_step s (Status_Resolved w st now) =
     (case w of AwaitStatus oper i \<Rightarrow> status_resolved oper i st now (settle w s) | _ \<Rightarrow> s)"
| "tt_step s (Status_Rejected w e r now) = status_rejected (wait_op w) e r now (settle w s)"
| "tt_step s (Other_Start_Settled i) =
     s\<lparr>inFlightStartRequestIDs := removeAll i (inFlightStartRequestIDs s)\<rparr>"

definition tt_init :: "tt_page \<Rightarrow> bool" where
  "tt_init s \<longleftrightarrow> (\<exists>p f. s = tt_new p f)"

abbreviation tt_reach :: "tt_page \<Rightarrow> bool" where
  "tt_reach \<equiv> reach tt_init tt_enabled tt_step"

section \<open>Invariant\<close>

fun is_submit :: "wait \<Rightarrow> bool" where
  "is_submit (AwaitStatus oper i) = False"
| "is_submit _ = True"

fun about :: "jsstr \<Rightarrow> wait \<Rightarrow> bool" where
  "about i (AwaitCreate oper) = False"
| "about i (AwaitStart oper j) = (i = j)"
| "about i (AwaitStatus oper j) = (i = j)"

definition ops_ok :: "tt_page \<Rightarrow> bool" where
  "ops_ok s \<longleftrightarrow> distinct (map wait_op (waits s)) \<and> (\<forall>w \<in> set (waits s). wait_op w \<le> operation s)"

definition pending_ok :: "tt_page \<Rightarrow> bool" where
  "pending_ok s \<longleftrightarrow> persisted s = pendingRequestID s
     \<and> (\<forall>w \<in> set (waits s). \<forall>i. about i w \<longrightarrow> wait_op w = operation s \<longrightarrow> pendingRequestID s = Some i)
     \<and> (\<forall>oper. AwaitCreate oper \<in> set (waits s) \<longrightarrow> pendingRequestID s = None)"

definition timer_ok :: "tt_page \<Rightarrow> bool" where
  "timer_ok s \<longleftrightarrow> (timerLive s \<longrightarrow> pollTimer s \<and> active s \<and> foreground s)"

definition flight_ok :: "tt_page \<Rightarrow> bool" where
  "flight_ok s \<longleftrightarrow> (\<forall>oper i. AwaitStart oper i \<in> set (waits s) \<longrightarrow> i \<in> set (inFlightStartRequestIDs s))"

definition core :: "tt_page \<Rightarrow> bool" where
  "core s \<longleftrightarrow> ops_ok s \<and> pending_ok s \<and> timer_ok s \<and> flight_ok s"

definition submits_ok :: "tt_page \<Rightarrow> bool" where
  "submits_ok s \<longleftrightarrow> length (filter is_submit (waits s)) = (if starting s then 1 else 0)"

text \<open>A running test the page shows is being followed: by a timer, by a call, or the user was told.\<close>

definition followed :: "tt_page \<Rightarrow> bool" where
  "followed s \<longleftrightarrow>
     (\<forall>i. active s \<and> foreground s \<and> pendingRequestID s = Some i \<longrightarrow>
        timerLive s \<or> (\<exists>w \<in> set (waits s). wait_op w = operation s \<and> about i w)
        \<or> OnPending i \<in> set (calls s))"

definition tt_inv :: "tt_page \<Rightarrow> bool" where
  "tt_inv s \<longleftrightarrow> core s \<and> submits_ok s \<and> followed s"

text \<open>No call is pending under the present operation number.\<close>

definition idle :: "tt_page \<Rightarrow> bool" where
  "idle s \<longleftrightarrow> (\<forall>w \<in> set (waits s). wait_op w \<noteq> operation s)"

named_theorems tt_ops

declare note_call_def [tt_ops] clearPollTimer_def [tt_ops] setPersistedRequestID_def [tt_ops]
  clearPendingRequestID_def [tt_ops] setStarting_def [tt_ops]

named_theorems tt_core

declare core_def [tt_core] ops_ok_def [tt_core] pending_ok_def [tt_core] timer_ok_def [tt_core]
  flight_ok_def [tt_core]

section \<open>Preservation\<close>

subsection \<open>What the methods leave alone\<close>

lemma waits_frame [simp]:
  "waits (note_call c s) = waits s"
  "waits (clearPollTimer s) = waits s"
  "waits (clearPendingRequestID s) = waits s"
  "waits (setStarting b s) = waits s"
  "waits (schedulePoll now s) = waits s"
  "waits (handleStatus st now s) = waits s"
  "waits (resetSession s) = waits s"
  "waits (handle_error oper e r now s) = waits s"
  by (simp_all add: tt_ops schedulePoll_def handleStatus_def resetSession_def tt_unload_def tt_hide_def
      handle_error_def Let_def split: option.splits)

lemma starting_frame [simp]:
  "starting (note_call c s) = starting s"
  "starting (clearPollTimer s) = starting s"
  "starting (clearPendingRequestID s) = starting s"
  "starting (setStarting b s) = b"
  "starting (schedulePoll now s) = starting s"
  "starting (handleStatus st now s) = starting s"
  "starting (checkStatus now s) = starting s"
  "starting (resetSession s) = starting s"
  "starting (handle_error oper e r now s) = starting s"
  by (simp_all add: tt_ops schedulePoll_def handleStatus_def checkStatus_def resetSession_def tt_unload_def
      tt_hide_def handle_error_def Let_def split: option.splits)

lemma submits_checkStatus [simp]:
  "filter is_submit (waits (checkStatus now s)) = filter is_submit (waits s)"
  by (simp add: checkStatus_def Let_def split: option.splits)

lemma submits_submit_finally:
  "submits_ok (submit_finally oper i now s) \<longleftrightarrow> filter is_submit (waits s) = []"
  by (auto simp: submits_ok_def submit_finally_def Let_def split: option.splits)

subsection \<open>The core invariant\<close>

lemma core_note_call [simp]: "core (note_call c s) = core s"
  by (simp add: tt_core note_call_def)

lemma core_clearPollTimer: "core s \<Longrightarrow> core (clearPollTimer s)"
  by (auto simp: tt_core clearPollTimer_def)

lemma core_clearPendingRequestID: "core s \<Longrightarrow> idle s \<Longrightarrow> core (clearPendingRequestID s)"
  by (auto simp: tt_core tt_ops idle_def)

lemma core_setStarting: "core s \<Longrightarrow> core (setStarting b s)"
  by (auto simp: tt_core tt_ops)

lemma core_schedulePoll: "core s \<Longrightarrow> core (schedulePoll now s)"
  by (auto simp: tt_core tt_ops schedulePoll_def Let_def split: option.splits)

lemma core_deadline: "core s \<Longrightarrow> core (s\<lparr>foregroundDeadline := t\<rparr>)"
  by (simp add: tt_core)

lemma core_handleStatus: "core s \<Longrightarrow> idle s \<Longrightarrow> core (handleStatus st now s)"
  by (auto simp: handleStatus_def Let_def idle_def note_call_def
      intro!: core_schedulePoll core_clearPollTimer core_deadline core_clearPendingRequestID)
    (simp_all add: tt_core)

lemma core_checkStatus: "core s \<Longrightarrow> core (checkStatus now s)"
proof (cases "pendingRequestID s")
  case (Some i)
  assume c: "core s"
  have "core (note_call (CallGetStatus i now)
      (s\<lparr>operation := operation s + 1, waits := AwaitStatus (operation s + 1) i # waits s\<rparr>))"
    if "core s" "pendingRequestID s = Some i" for s
    using that by (fastforce simp: tt_core note_call_def)
  from this[OF core_clearPollTimer[OF c]] Some c core_clearPollTimer[OF c] core_schedulePoll[OF c] show ?thesis
    by (simp add: checkStatus_def Let_def) (simp add: clearPollTimer_def)
qed (simp add: checkStatus_def)

lemma distinct_map_remove1: "distinct (map f xs) \<Longrightarrow> distinct (map f (remove1 x xs))"
  by (induction xs) (auto dest: notin_set_remove1 simp: image_iff)

lemma settle_simps [simp]:
  "waits (settle w s) = remove1 w (waits s)" "operation (settle w s) = operation s"
  "starting (settle w s) = starting s" "active (settle w s) = active s"
  "foreground (settle w s) = foreground s" "pendingRequestID (settle w s) = pendingRequestID s"
  "inFlightStartRequestIDs (settle w s) = inFlightStartRequestIDs s" "calls (settle w s) = calls s"
  "timerLive (settle w s) = timerLive s"
  by (simp_all add: settle_def)

lemma core_settle: "core s \<Longrightarrow> core (settle w s)"
  by (auto simp: tt_core settle_def distinct_map_remove1 dest!: subsetD[OF set_remove1_subset])

lemma idle_settle:
  "core s \<Longrightarrow> w \<in> set (waits s) \<Longrightarrow> wait_op w = operation s \<Longrightarrow> idle (settle w s)"
  by (auto simp: core_def ops_ok_def idle_def set_remove1_eq distinct_map inj_on_def)

lemma core_hide: "core s \<Longrightarrow> core (tt_hide s)"
  by (fastforce simp: tt_core tt_hide_def clearPollTimer_def)

lemma core_unload: "core s \<Longrightarrow> core (tt_unload s)"
proof -
  assume "core s"
  then have "core (tt_hide (s\<lparr>active := False\<rparr>))"
    by (fastforce simp: tt_core tt_hide_def clearPollTimer_def)
  then show ?thesis by (simp add: tt_unload_def core_deadline)
qed

lemma idle_unload: "core s \<Longrightarrow> idle (tt_unload s)"
  by (fastforce simp: idle_def core_def ops_ok_def tt_unload_def tt_hide_def clearPollTimer_def)

lemma core_resetSession: "core s \<Longrightarrow> core (resetSession s)"
  by (simp add: resetSession_def core_clearPendingRequestID core_unload idle_unload)

lemma idle_frame [simp]:
  "idle (note_call c s) = idle s"
  "idle (clearPendingRequestID s) = idle s"
  by (simp_all add: idle_def tt_ops)

lemma core_handle_error:
  "core s \<Longrightarrow> (current oper s \<Longrightarrow> idle s) \<Longrightarrow> core (handle_error oper e r now s)"
  by (auto simp: handle_error_def Let_def intro!: core_schedulePoll core_resetSession core_clearPendingRequestID)

lemma core_unflight:
  "core s \<Longrightarrow> (\<forall>oper. AwaitStart oper i \<notin> set (waits s)) \<Longrightarrow>
     core (s\<lparr>inFlightStartRequestIDs := removeAll i (inFlightStartRequestIDs s)\<rparr>)"
  by (auto simp: tt_core)

lemma core_submit_finally:
  assumes "core s" "filter is_submit (waits s) = []"
  shows "core (submit_finally oper i now s)"
proof -
  have "AwaitStart op j \<notin> set (waits s)" for op j
    using assms(2) by (auto simp: filter_empty_conv)
  then have "core (case i of None \<Rightarrow> s
      | Some i \<Rightarrow> s\<lparr>inFlightStartRequestIDs := removeAll i (inFlightStartRequestIDs s)\<rparr>)"
    using assms(1) by (auto intro: core_unflight split: option.splits)
  then show ?thesis
    by (simp add: submit_finally_def Let_def core_checkStatus core_setStarting)
qed

lemma submits_settled:
  "submits_ok s \<Longrightarrow> w \<in> set (waits s) \<Longrightarrow> is_submit w \<Longrightarrow> filter is_submit (remove1 w (waits s)) = []"
proof -
  assume s: "submits_ok s" "w \<in> set (waits s)" "is_submit w"
  then have "w \<in> set (filter is_submit (waits s))" by simp
  moreover have "length (filter is_submit (waits s)) \<le> 1"
    using s(1) by (simp add: submits_ok_def)
  ultimately have "filter is_submit (waits s) = [w]"
    by (cases "filter is_submit (waits s)") (auto simp del: set_filter)
  then show ?thesis using s(3) by (simp add: filter_remove1)
qed

subsection \<open>Following a running test\<close>

lemma followed_schedulePoll: "followed (schedulePoll now s)"
  by (auto simp: followed_def schedulePoll_def tt_ops Let_def split: option.splits)

lemma followed_checkStatus: "followed (checkStatus now s)"
proof -
  have "followed (note_call (OnPending i) s)" if "pendingRequestID s = Some i" for i s
    using that by (simp add: followed_def note_call_def)
  then show ?thesis
    by (auto simp: checkStatus_def Let_def followed_schedulePoll clearPollTimer_def split: option.splits)
      (auto simp: followed_def note_call_def)
qed

lemma followed_no_pending: "pendingRequestID s = None \<Longrightarrow> followed s"
  by (simp add: followed_def)

lemma followed_background: "\<not> active s \<or> \<not> foreground s \<Longrightarrow> followed s"
  by (auto simp: followed_def)

lemma followed_handleStatus: "followed (handleStatus st now s)"
  by (auto simp: handleStatus_def Let_def followed_schedulePoll intro!: followed_no_pending)
    (simp add: tt_ops)

lemma resetSession_simps [simp]:
  "active (resetSession s) = False" "pendingRequestID (resetSession s) = None"
  by (simp_all add: resetSession_def tt_unload_def tt_hide_def tt_ops)

lemma pending_frame [simp]:
  "pendingRequestID (clearPendingRequestID s) = None"
  "pendingRequestID (note_call c s) = pendingRequestID s"
  by (simp_all add: tt_ops)

lemma followed_handle_error:
  "current oper s \<or> followed s \<Longrightarrow> followed (handle_error oper e r now s)"
  by (cases "current oper s"; cases "retryable r"; cases "resets r")
    (simp_all add: handle_error_def Let_def followed_schedulePoll followed_background followed_no_pending)

lemma followed_submit_finally:
  assumes "current oper s \<Longrightarrow> followed s"
  shows "followed (submit_finally oper i now s)"
proof -
  let ?s1 = "case i of None \<Rightarrow> s
      | Some i \<Rightarrow> s\<lparr>inFlightStartRequestIDs := removeAll i (inFlightStartRequestIDs s)\<rparr>"
  let ?s2 = "setStarting False ?s1"
  have c: "current oper ?s2 = current oper s" "active ?s2 = active s" "foreground ?s2 = foreground s"
    "pendingRequestID ?s2 = pendingRequestID s"
    by (auto simp: current_def tt_ops split: option.splits)
  have "followed s \<Longrightarrow> followed ?s2"
    by (auto simp: followed_def tt_ops split: option.splits)
  then show ?thesis
    using assms c by (auto simp: submit_finally_def Let_def followed_checkStatus
        intro: followed_background followed_no_pending)
qed

lemma followed_settle:
  "followed s \<Longrightarrow> wait_op w \<noteq> operation s \<or> (\<forall>i. \<not> about i w) \<Longrightarrow> followed (settle w s)"
  by (simp add: followed_def) (metis in_set_remove1)

subsection \<open>Every event\<close>

lemma submits_frame [simp]:
  "submits_ok (checkStatus now s) = submits_ok s"
  "submits_ok (handleStatus st now s) = submits_ok s"
  "submits_ok (handle_error oper e r now s) = submits_ok s"
  "submits_ok (resetSession s) = submits_ok s"
  "submits_ok (s\<lparr>foregroundDeadline := t\<rparr>) = submits_ok s"
  "submits_ok (s\<lparr>foreground := b\<rparr>) = submits_ok s"
  by (simp_all add: submits_ok_def)

lemma core_foreground: "core s \<Longrightarrow> core (s\<lparr>foreground := True\<rparr>)"
  by (auto simp: tt_core)

lemma inv_show: "tt_inv s \<Longrightarrow> tt_inv (tt_show now s)"
  by (auto simp: tt_inv_def tt_show_def Let_def core_checkStatus core_deadline core_foreground
      followed_checkStatus followed_no_pending)

lemma hide_simps [simp]:
  "active (tt_hide s) = active s" "foreground (tt_hide s) = False"
  "waits (tt_hide s) = waits s" "starting (tt_hide s) = starting s"
  by (simp_all add: tt_hide_def clearPollTimer_def)

lemma unload_simps [simp]:
  "active (tt_unload s) = False" "waits (tt_unload s) = waits s" "starting (tt_unload s) = starting s"
  by (simp_all add: tt_unload_def)

lemma inv_hide: "tt_inv s \<Longrightarrow> tt_inv (tt_hide s)"
  by (simp add: tt_inv_def core_hide followed_background submits_ok_def)

lemma inv_unload: "tt_inv s \<Longrightarrow> tt_inv (tt_unload s)"
  by (simp add: tt_inv_def core_unload followed_background submits_ok_def)

lemma inv_resetSession: "tt_inv s \<Longrightarrow> tt_inv (resetSession s)"
  by (simp add: tt_inv_def core_resetSession followed_background)

lemma inv_submit: "tt_inv s \<Longrightarrow> tt_inv (submit now s)"
proof (cases "\<not> active s \<or> \<not> foreground s \<or> starting s")
  case False
  assume i: "tt_inv s"
  show ?thesis
  proof (cases "pendingRequestID s")
    case (Some j)
    with False i show ?thesis
      by (simp add: tt_inv_def submit_def core_checkStatus core_deadline followed_checkStatus)
  next
    case None
    have "core (submit now s)" "submits_ok (submit now s)" "pendingRequestID (submit now s) = None"
      using False None i
      by (fastforce simp: tt_inv_def submit_def Let_def tt_core tt_ops,
          auto simp: tt_inv_def submit_def Let_def submits_ok_def tt_ops)
    then show ?thesis by (simp add: tt_inv_def followed_no_pending)
  qed
qed (simp add: submit_def)

lemma inv_timer: "tt_inv s \<Longrightarrow> tt_inv (checkStatus now (s\<lparr>timerLive := False\<rparr>))"
proof -
  assume "tt_inv s"
  then have "core (s\<lparr>timerLive := False\<rparr>)" "submits_ok (s\<lparr>timerLive := False\<rparr>)"
    by (auto simp: tt_inv_def tt_core submits_ok_def)
  then show ?thesis by (simp add: tt_inv_def core_checkStatus followed_checkStatus)
qed

lemma inv_submit_finally:
  assumes "core s" "filter is_submit (waits s) = []" "current oper s \<Longrightarrow> followed s"
  shows "tt_inv (submit_finally oper i now s)"
  using assms by (simp add: tt_inv_def core_submit_finally submits_submit_finally followed_submit_finally)

lemma inv_created:
  assumes "tt_inv s" "AwaitCreate oper \<in> set (waits s)"
  shows "tt_inv (submit_created oper i now (settle (AwaitCreate oper) s))"
proof -
  let ?s = "settle (AwaitCreate oper) s"
  have c: "core ?s" "filter is_submit (waits ?s) = []" "followed ?s" "starting s"
    using assms submits_settled[of s "AwaitCreate oper"]
    by (auto simp: tt_inv_def core_settle followed_settle submits_ok_def filter_empty_conv split: if_splits)
  show ?thesis
  proof (cases "current oper ?s")
    case False
    with c show ?thesis by (simp add: submit_created_def inv_submit_finally)
  next
    case True
    have n: "AwaitCreate oper' \<notin> set (waits ?s)" "AwaitStart oper' j \<notin> set (waits ?s)" for oper' j
      using c(2) by (auto simp: filter_empty_conv simp del: settle_simps(1))
    have "idle ?s"
      using True assms by (intro idle_settle) (auto simp: tt_inv_def current_def)
    then have "core (submit_created oper i now ?s)"
      using True c(1) n by (fastforce simp: submit_created_def Let_def tt_core tt_ops idle_def current_def
          simp del: settle_simps(1))
    moreover have "submits_ok (submit_created oper i now ?s)"
      using True c by (simp add: submit_created_def Let_def submits_ok_def tt_ops del: settle_simps(1))
    moreover have "followed (submit_created oper i now ?s)"
      using True by (simp add: submit_created_def Let_def followed_def tt_ops current_def)
    ultimately show ?thesis by (simp add: tt_inv_def)
  qed
qed

lemma settled_submit:
  assumes "tt_inv s" "w \<in> set (waits s)" "is_submit w"
  shows "core (settle w s)" "filter is_submit (waits (settle w s)) = []"
    "current (wait_op w) (settle w s) \<Longrightarrow> idle (settle w s)"
  using assms submits_settled[of s w] idle_settle[of s w]
  by (auto simp: tt_inv_def core_settle current_def)

lemma inv_submit_rejected:
  assumes "tt_inv s" "w \<in> set (waits s)" "is_submit w"
  shows "tt_inv (submit_finally (wait_op w) i now (handle_error (wait_op w) e r now (settle w s)))"
proof (rule inv_submit_finally)
  note c = settled_submit[OF assms]
  show "core (handle_error (wait_op w) e r now (settle w s))" using c by (intro core_handle_error)
  show "filter is_submit (waits (handle_error (wait_op w) e r now (settle w s))) = []" using c by simp
  assume "current (wait_op w) (handle_error (wait_op w) e r now (settle w s))"
  then have "current (wait_op w) (settle w s)" by (auto simp: handle_error_def split: if_splits)
  then show "followed (handle_error (wait_op w) e r now (settle w s))" by (simp add: followed_handle_error)
qed

lemma inv_create_rejected:
  assumes "tt_inv s" "AwaitCreate oper \<in> set (waits s)"
  shows "tt_inv (submit_create_rejected oper e r now (settle (AwaitCreate oper) s))"
  using inv_submit_rejected[OF assms] by (simp add: submit_create_rejected_def)

lemma inv_started:
  assumes "tt_inv s" "AwaitStart oper i \<in> set (waits s)"
  shows "tt_inv (submit_started oper i st now (settle (AwaitStart oper i) s))"
  using settled_submit[OF assms]
  by (auto simp: submit_started_def intro!: inv_submit_finally core_handleStatus followed_handleStatus)

lemma inv_start_rejected:
  assumes "tt_inv s" "AwaitStart oper i \<in> set (waits s)"
  shows "tt_inv (submit_start_rejected oper i e r now (settle (AwaitStart oper i) s))"
  using inv_submit_rejected[OF assms] by (simp add: submit_start_rejected_def)

lemma settled_status:
  assumes "tt_inv s" "AwaitStatus oper i \<in> set (waits s)"
  shows "core (settle (AwaitStatus oper i) s)" "submits_ok (settle (AwaitStatus oper i) s)"
    "current oper (settle (AwaitStatus oper i) s) \<Longrightarrow>
       idle (settle (AwaitStatus oper i) s) \<and> pendingRequestID s = Some i"
    "\<not> current oper (settle (AwaitStatus oper i) s) \<Longrightarrow> followed (settle (AwaitStatus oper i) s)"
proof -
  let ?s = "settle (AwaitStatus oper i) s"
  have c: "core s" "submits_ok s" "followed s" using assms(1) by (simp_all add: tt_inv_def)
  show "core ?s" using c(1) by (rule core_settle)
  show "submits_ok ?s" using c(2) by (simp add: submits_ok_def filter_remove1)
  have "oper = operation s \<Longrightarrow> pendingRequestID s = Some i"
    using c(1) assms(2) unfolding core_def pending_ok_def by fastforce
  then show "current oper ?s \<Longrightarrow> idle ?s \<and> pendingRequestID s = Some i"
    using idle_settle[OF c(1) assms(2)] by (simp add: current_def)
  show "followed ?s" if "\<not> current oper ?s"
  proof (cases "oper = operation s")
    case True
    with that show ?thesis by (intro followed_background) (auto simp: current_def)
  next
    case False
    with c(3) show ?thesis by (simp add: followed_settle)
  qed
qed

lemma inv_status_resolved:
  assumes "tt_inv s" "AwaitStatus oper i \<in> set (waits s)"
  shows "tt_inv (status_resolved oper i st now (settle (AwaitStatus oper i) s))"
  using settled_status[OF assms]
  by (auto simp: status_resolved_def tt_inv_def core_handleStatus followed_handleStatus)

lemma inv_status_rejected:
  assumes "tt_inv s" "AwaitStatus oper i \<in> set (waits s)"
  shows "tt_inv (status_rejected oper e r now (settle (AwaitStatus oper i) s))"
  using settled_status[OF assms]
  by (auto simp: status_rejected_def tt_inv_def intro!: core_handle_error followed_handle_error)

lemma tt_inv_step: "tt_inv s \<Longrightarrow> tt_enabled s e \<Longrightarrow> tt_inv (tt_step s e)"
proof (cases e)
  case (Other_Start_Settled i)
  assume "tt_inv s" "tt_enabled s e"
  with Other_Start_Settled show ?thesis
    by (auto simp: tt_inv_def core_unflight submits_ok_def followed_def)
qed (auto simp: inv_show inv_hide inv_unload inv_resetSession inv_submit inv_timer inv_created
    inv_create_rejected inv_started inv_start_rejected inv_status_resolved inv_status_rejected)

lemma tt_inv_init: "tt_init s \<Longrightarrow> tt_inv s"
  by (auto simp: tt_init_def tt_new_def tt_inv_def tt_core submits_ok_def followed_def)

subsection \<open>Calls\<close>

fun is_poll :: "tt_call \<Rightarrow> bool" where
  "is_poll (CallGetStatus i t) = True"
| "is_poll _ = False"

fun is_start :: "tt_call \<Rightarrow> bool" where
  "is_start (CallStart i) = True"
| "is_start _ = False"

abbreviation polls :: "tt_page \<Rightarrow> tt_call list" where
  "polls s \<equiv> filter is_poll (calls s)"

abbreviation starts :: "tt_page \<Rightarrow> tt_call list" where
  "starts s \<equiv> filter is_start (calls s)"

lemma calls_frame [simp]:
  "calls (clearPollTimer s) = calls s"
  "calls (tt_hide s) = calls s"
  "calls (tt_unload s) = calls s"
  "calls (note_call c s) = c # calls s"
  by (simp_all add: tt_ops tt_hide_def tt_unload_def)

lemma polls_frame [simp]:
  "polls (clearPendingRequestID s) = polls s"
  "polls (setStarting b s) = polls s"
  "polls (schedulePoll now s) = polls s"
  "polls (handleStatus st now s) = polls s"
  "polls (resetSession s) = polls s"
  "polls (handle_error oper e r now s) = polls s"
  by (simp_all add: tt_ops schedulePoll_def handleStatus_def resetSession_def tt_hide_def tt_unload_def
      handle_error_def Let_def split: option.splits)

lemma starts_frame [simp]:
  "starts (clearPendingRequestID s) = starts s"
  "starts (setStarting b s) = starts s"
  "starts (schedulePoll now s) = starts s"
  "starts (handleStatus st now s) = starts s"
  "starts (resetSession s) = starts s"
  "starts (handle_error oper e r now s) = starts s"
  "starts (checkStatus now s) = starts s"
  by (simp_all add: tt_ops schedulePoll_def handleStatus_def resetSession_def tt_hide_def tt_unload_def
      handle_error_def checkStatus_def Let_def split: option.splits)

lemma starts_submit_finally [simp]: "starts (submit_finally oper i now s) = starts s"
  by (simp add: submit_finally_def Let_def split: option.splits)

definition may_poll :: "jsstr \<Rightarrow> int \<Rightarrow> tt_page \<Rightarrow> bool" where
  "may_poll i t s \<longleftrightarrow> active s \<and> foreground s \<and> \<not> starting s \<and> pendingRequestID s = Some i
     \<and> i \<notin> set (inFlightStartRequestIDs s) \<and> t < foregroundDeadline s"

definition polls_from :: "tt_page \<Rightarrow> tt_page \<Rightarrow> bool" where
  "polls_from s s' \<longleftrightarrow>
     polls s' = polls s \<or> (\<exists>i t. polls s' = CallGetStatus i t # polls s \<and> may_poll i t s')"

lemma polls_from_checkStatus: "polls s' = polls s \<Longrightarrow> polls_from s (checkStatus now s')"
  unfolding polls_from_def checkStatus_def may_poll_def
  by (auto simp: Let_def note_call_def clearPollTimer_def split: option.splits)

lemma polls_from_refl: "polls s' = polls s \<Longrightarrow> polls_from s s'"
  by (simp add: polls_from_def)

lemma polls_from_submit_finally: "polls s' = polls s \<Longrightarrow> polls_from s (submit_finally oper i now s')"
  by (simp add: submit_finally_def Let_def polls_from_refl polls_from_checkStatus split: option.splits)

lemma polls_step: "polls_from s (tt_step s e)"
proof (cases e)
  case (Show now)
  then show ?thesis
    by (simp add: tt_show_def Let_def polls_from_refl polls_from_checkStatus)
next
  case (Submit now)
  then show ?thesis
    by (simp add: submit_def Let_def polls_from_refl polls_from_checkStatus)
next
  case (Create_Resolved w i now)
  then show ?thesis
    by (simp add: submit_created_def Let_def setPersistedRequestID_def polls_from_refl polls_from_submit_finally)
qed (simp_all add: submit_create_rejected_def submit_started_def submit_start_rejected_def
    status_resolved_def status_rejected_def polls_from_refl polls_from_checkStatus polls_from_submit_finally
    split: wait.splits)

lemma starts_step:
  assumes "starts (tt_step s e) \<noteq> starts s"
  obtains w i now where "e = Create_Resolved w i now" "current (wait_op w) (settle w s)"
    "starts (tt_step s e) = CallStart i # starts s"
proof (cases e)
  case (Create_Resolved w i now)
  then have "current (wait_op w) (settle w s)" "starts (tt_step s e) = CallStart i # starts s"
    using assms by (auto simp: submit_created_def Let_def setPersistedRequestID_def split: if_splits)
  with Create_Resolved that show ?thesis by blast
qed (use assms in \<open>auto simp: tt_show_def submit_def submit_create_rejected_def submit_started_def
    submit_start_rejected_def status_resolved_def status_rejected_def Let_def split: if_splits wait.splits\<close>)

interpretation ttm: event_machine tt_init tt_enabled tt_step tt_inv
  by unfold_locales (fact tt_inv_init, fact tt_inv_step)

fun is_report :: "tt_call \<Rightarrow> bool" where
  "is_report (OnRequestIDChange i) = False"
| "is_report (OnStartChange b) = False"
| "is_report _ = True"

abbreviation reports :: "tt_page \<Rightarrow> tt_call list" where
  "reports s \<equiv> filter is_report (calls s)"

lemma inactive_methods:
  assumes "\<not> active s"
  shows "checkStatus now s = s" "schedulePoll now s = s" "handle_error oper e r now s = s"
    "current oper s = False"
  using assms by (simp_all add: checkStatus_def schedulePoll_def handle_error_def current_def split: option.splits)

lemma setStarting_inactive [simp]: "active (setStarting b s) = active s" "reports (setStarting b s) = reports s"
  by (simp_all add: tt_ops)

lemma inactive_submit_finally:
  "\<not> active s \<Longrightarrow> \<not> active (submit_finally oper i now s) \<and> reports (submit_finally oper i now s) = reports s"
  by (simp add: submit_finally_def Let_def split: option.splits)

lemma inactive_step:
  assumes "\<not> active s"
  shows "\<not> active (tt_step s e) \<and> reports (tt_step s e) = reports s"
proof -
  have "\<not> active (resetSession s) \<and> reports (resetSession s) = reports s"
    by (simp add: resetSession_def tt_ops)
  with assms show ?thesis
    by (cases e)
      (simp_all add: tt_show_def submit_def submit_created_def submit_create_rejected_def submit_started_def
        submit_start_rejected_def status_resolved_def status_rejected_def inactive_methods
        inactive_submit_finally split: wait.splits)
qed

interpretation tts: stopping_machine tt_init tt_enabled tt_step tt_inv "\<lambda>s. \<not> active s" reports
  by unfold_locales (use inactive_step in blast)

section \<open>Properties\<close>


definition demo_status :: "MiniTextTestState \<Rightarrow> MiniTextTestStatus" where
  "demo_status st = \<lparr>tt_requestID = js ''r1'', tt_model = js ''m'', tt_state = st, tt_chargeReference = [],
     tt_chargedQuota = int_num 3, tt_errorCode = [], tt_createdAt = int_num 1, tt_startedAt = int_num 2,
     tt_completedAt = int_num 0\<rparr>"

definition demo_page :: tt_page where
  "demo_page = foldl tt_step (tt_new None [])
     [Show 0, Submit 10, Create_Resolved (AwaitCreate 1) (js ''r1'') 20,
      Start_Resolved (AwaitStart 1 (js ''r1'')) (demo_status Running) 30]"

lemma demo_page_reach: "tt_reach demo_page"
proof -
  let ?s0 = "tt_new None []"
  let ?s1 = "tt_step ?s0 (Show 0)"
  let ?s2 = "tt_step ?s1 (Submit 10)"
  let ?s3 = "tt_step ?s2 (Create_Resolved (AwaitCreate 1) (js ''r1'') 20)"
  have "tt_reach ?s0" by (intro reach_init) (auto simp: tt_init_def)
  then have r2: "tt_reach ?s2" by (intro reach_step) simp_all
  have "AwaitCreate 1 \<in> set (waits ?s2)" by code_simp
  then have r3: "tt_reach ?s3" by (intro reach_step[OF r2]) simp
  have "AwaitStart 1 (js ''r1'') \<in> set (waits ?s3)" by code_simp
  then have "tt_reach (tt_step ?s3 (Start_Resolved (AwaitStart 1 (js ''r1'')) (demo_status Running) 30))"
    by (intro reach_step[OF r3]) simp
  then show ?thesis by (simp add: demo_page_def)
qed


text \<open>
  The status of a test is only asked for while the page is active and in the foreground, no
  submission is under way, the start request for that very test is not still in flight, and the
  foreground time limit has not passed; one event sends at most one status request.
\<close>

theorem text_test_polls_safely:
  "polls (tt_step s e) = polls s
   \<or> (\<exists>i t. polls (tt_step s e) = CallGetStatus i t # polls s \<and> active (tt_step s e)
        \<and> foreground (tt_step s e) \<and> \<not> starting (tt_step s e)
        \<and> pendingRequestID (tt_step s e) = Some i
        \<and> i \<notin> set (inFlightStartRequestIDs (tt_step s e)) \<and> t < foregroundDeadline (tt_step s e))"
  using polls_step[of s e] by (auto simp: polls_from_def may_poll_def)



text \<open>
  Once the page is unloaded the controller is silent for good: whatever settles later, it
  neither reports a status, a pending test or an error, nor sends any request.
\<close>

theorem text_test_unloaded_silent:
  assumes "tt_reach s" "\<not> active s" "runs tt_enabled tt_step s es = Some t"
  shows "\<not> active t \<and> reports t = reports s"
  using tts.stopped_runs[OF ttm.reach_inv[OF assms(1)] assms(2,3)] .

theorem text_test_unloaded_silent_witness:
  "let s = tt_step demo_page Unload in tt_reach s \<and> \<not> active s
     \<and> (\<exists>t. runs tt_enabled tt_step s [Show 40, Submit 50] = Some t \<and> reports t = reports s)"
proof -
  let ?s = "tt_step demo_page Unload"
  have r: "tt_reach ?s" using demo_page_reach by (rule reach_step) simp
  have a: "\<not> active ?s" by simp
  obtain t where t: "runs tt_enabled tt_step ?s [Show 40, Submit 50] = Some t" by simp
  from text_test_unloaded_silent[OF r a t] r a t show ?thesis by (auto simp: Let_def)
qed

end
