(* ===== verification/Auth_Session.thy ===== *)
theory Auth_Session
  imports Js_Prelude Machines
begin

text \<open>
  Browser sign-in of the console: the store \<open>web/src/stores/auth-store.ts\<close>, the session refresh
  \<open>web/src/lib/auth-session.ts\<close> and the synchronisation of tabs
  \<open>web/src/lib/auth-session-sync.ts\<close> with its handler in \<open>web/src/routes/__root.tsx\<close>.

  A \<open>tab\<close> holds the store and the module-level variables of one browser tab. A refresh awaits the
  network; meanwhile other code of the tab runs store operations. The environment of a refresh
  therefore gives, per request, the answer of the HTTP client and the list of operations that
  run before it arrives; nothing is assumed about either. A user keeps the fields the code
  checks and the raw value.
\<close>

section \<open>Model\<close>

subsection \<open>Store\<close>

record AuthUser =
  user_id :: jsnum
  user_username :: jsstr
  user_role :: jsnum
  user_raw :: jsval

record LoginSession =
  sid :: jsstr
  current_session :: bool
  login_method :: jsstr
  session_ip :: jsstr
  user_agent :: jsstr
  created_at :: jsnum
  last_active_at :: jsnum
  expires_at :: jsnum

record AuthBundle =
  access_token :: jsstr
  token_type :: jsstr
  access_expires_at :: jsnum
  bundle_user :: AuthUser
  bundle_session :: LoginSession

datatype AuthBootstrapState = Idle | Checking | Complete

datatype sync_kind = Authenticated | SignedOut

record tab =
  user :: "AuthUser option"
  accessToken :: "jsstr option"
  accessExpiresAt :: "jsnum option"
  session :: "LoginSession option"
  pending2FAFlowToken :: "jsstr option"
  bootstrapState :: AuthBootstrapState
  authEpoch :: int
  refreshPromise :: bool
  published :: "(sync_kind \<times> jsstr) list"
  queryClears :: int

definition new_tab :: tab where
  "new_tab = \<lparr>user = None, accessToken = None, accessExpiresAt = None, session = None,
     pending2FAFlowToken = None, bootstrapState = Idle, authEpoch = 0, refreshPromise = False,
     published = [], queryClears = 0\<rparr>"

definition setBundle :: "AuthBundle \<Rightarrow> tab \<Rightarrow> tab" where
  "setBundle b w = w\<lparr>user := Some (bundle_user b), accessToken := Some (access_token b),
     accessExpiresAt := Some (access_expires_at b), session := Some (bundle_session b),
     pending2FAFlowToken := None, bootstrapState := Complete\<rparr>"

definition setUser :: "AuthUser option \<Rightarrow> tab \<Rightarrow> tab" where
  "setUser u w = w\<lparr>user := u\<rparr>"

definition setPending2FAFlowToken :: "jsstr option \<Rightarrow> tab \<Rightarrow> tab" where
  "setPending2FAFlowToken t w = w\<lparr>pending2FAFlowToken := t\<rparr>"

definition setBootstrapState :: "AuthBootstrapState \<Rightarrow> tab \<Rightarrow> tab" where
  "setBootstrapState b w = w\<lparr>bootstrapState := b\<rparr>"

definition reset :: "AuthBootstrapState \<Rightarrow> tab \<Rightarrow> tab" where
  "reset b w = w\<lparr>user := None, accessToken := None, accessExpiresAt := None, session := None,
     pending2FAFlowToken := None, bootstrapState := b\<rparr>"

definition current_sid :: "tab \<Rightarrow> jsstr option" where
  "current_sid w = map_option sid (session w)"

subsection \<open>Tab synchronisation\<close>

text \<open>The message of an event, as the other tabs receive it.\<close>

definition sync_message :: "jsstr \<Rightarrow> jsstr \<Rightarrow> int \<Rightarrow> sync_kind \<times> jsstr \<Rightarrow> jsval" where
  "sync_message src nonce now e =
     JObj [(js ''kind'', JStr (case fst e of Authenticated \<Rightarrow> js ''authenticated'' | SignedOut \<Rightarrow> js ''signed_out'')),
           (js ''sid'', JStr (snd e)), (js ''source'', JStr src), (js ''nonce'', JStr nonce),
           (js ''timestamp'', JNum (int_num now))]"

definition publishAuthSessionEvent :: "sync_kind \<Rightarrow> jsstr \<Rightarrow> tab \<Rightarrow> tab" where
  "publishAuthSessionEvent k s w = (if s = [] then w else w\<lparr>published := (k, s) # published w\<rparr>)"

definition isAuthSessionSyncEvent :: "jsval \<Rightarrow> bool" where
  "isAuthSessionSyncEvent v \<longleftrightarrow>
     is_record v \<and> (jget v (js ''kind'') = JStr (js ''authenticated'') \<or> jget v (js ''kind'') = JStr (js ''signed_out''))
     \<and> is_str (jget v (js ''sid'')) \<and> str_of (jget v (js ''sid'')) \<noteq> []
     \<and> is_str (jget v (js ''source'')) \<and> is_str (jget v (js ''nonce'')) \<and> is_num (jget v (js ''timestamp''))"

text \<open>\<open>Math.abs(now - n) < 60_000\<close>\<close>

definition within_minute :: "int \<Rightarrow> jsnum \<Rightarrow> bool" where
  "within_minute now n \<longleftrightarrow> (case n of Fin r \<Rightarrow> \<bar>of_int now - r\<bar> < 60000 | _ \<Rightarrow> False)"

definition deliver :: "jsstr \<Rightarrow> int \<Rightarrow> jsval \<Rightarrow> (sync_kind \<times> jsstr) option" where
  "deliver authSyncSource now v =
     (if isAuthSessionSyncEvent v \<and> jget v (js ''source'') \<noteq> JStr authSyncSource
         \<and> within_minute now (num_of (jget v (js ''timestamp'')))
      then Some (if jget v (js ''kind'') = JStr (js ''authenticated'') then Authenticated else SignedOut,
                 str_of (jget v (js ''sid'')))
      else None)"

subsection \<open>Validation of answers\<close>

definition isAuthUser :: "jsval \<Rightarrow> bool" where
  "isAuthUser v \<longleftrightarrow>
     is_record v \<and> is_num (jget v (js ''id'')) \<and> is_integer_num (num_of (jget v (js ''id'')))
     \<and> js_lt (int_num 0) (num_of (jget v (js ''id''))) \<and> is_str (jget v (js ''username''))
     \<and> is_num (jget v (js ''role''))"

definition isLoginSession :: "jsval \<Rightarrow> bool" where
  "isLoginSession v \<longleftrightarrow>
     is_record v \<and> is_str (jget v (js ''sid'')) \<and> str_of (jget v (js ''sid'')) \<noteq> []
     \<and> is_bool (jget v (js ''current'')) \<and> is_str (jget v (js ''login_method''))
     \<and> is_str (jget v (js ''ip'')) \<and> is_str (jget v (js ''user_agent''))
     \<and> is_num (jget v (js ''created_at'')) \<and> is_num (jget v (js ''last_active_at''))
     \<and> is_num (jget v (js ''expires_at''))"

definition hasValidTokenFields :: "jsval \<Rightarrow> bool" where
  "hasValidTokenFields v \<longleftrightarrow>
     is_str (jget v (js ''access_token'')) \<and> str_of (jget v (js ''access_token'')) \<noteq> []
     \<and> is_str (jget v (js ''token_type'')) \<and> str_of (jget v (js ''token_type'')) \<noteq> []
     \<and> is_num (jget v (js ''access_expires_at'')) \<and> is_finite_num (num_of (jget v (js ''access_expires_at'')))
     \<and> js_lt (int_num 0) (num_of (jget v (js ''access_expires_at'')))"

definition isAuthBundle :: "jsval \<Rightarrow> bool" where
  "isAuthBundle v \<longleftrightarrow>
     is_record v \<and> hasValidTokenFields v \<and> isAuthUser (jget v (js ''user'')) \<and> isLoginSession (jget v (js ''session''))"

definition isAuthTokenRotation :: "jsval \<Rightarrow> bool" where
  "isAuthTokenRotation v \<longleftrightarrow>
     is_record v \<and> hasValidTokenFields v \<and> jget v (js ''token_type'') = JStr (js ''Bearer'')
     \<and> isLoginSession (jget v (js ''session'')) \<and> jget (jget v (js ''session'')) (js ''current'') = JBool True"

text \<open>The typed view of a value that passed its check.\<close>

definition as_user :: "jsval \<Rightarrow> AuthUser" where
  "as_user v = \<lparr>user_id = num_of (jget v (js ''id'')), user_username = str_of (jget v (js ''username'')),
     user_role = num_of (jget v (js ''role'')), user_raw = v\<rparr>"

definition as_session :: "jsval \<Rightarrow> LoginSession" where
  "as_session v = \<lparr>sid = str_of (jget v (js ''sid'')), current_session = bool_of (jget v (js ''current'')),
     login_method = str_of (jget v (js ''login_method'')), session_ip = str_of (jget v (js ''ip'')),
     user_agent = str_of (jget v (js ''user_agent'')), created_at = num_of (jget v (js ''created_at'')),
     last_active_at = num_of (jget v (js ''last_active_at'')), expires_at = num_of (jget v (js ''expires_at''))\<rparr>"

definition as_bundle :: "jsval \<Rightarrow> AuthUser \<Rightarrow> AuthBundle" where
  "as_bundle v u = \<lparr>access_token = str_of (jget v (js ''access_token'')), token_type = str_of (jget v (js ''token_type'')),
     access_expires_at = num_of (jget v (js ''access_expires_at'')), bundle_user = u,
     bundle_session = as_session (jget v (js ''session''))\<rparr>"

definition parseBundle :: "jsval \<Rightarrow> AuthBundle option" where
  "parseBundle v = (if isAuthBundle v then Some (as_bundle v (as_user (jget v (js ''user'')))) else None)"

subsection \<open>Session changes\<close>

definition applyAuthBundle :: "AuthBundle \<Rightarrow> bool \<Rightarrow> tab \<Rightarrow> tab" where
  "applyAuthBundle b synchronizeTabs w =
     (let previousSID = current_sid w;
          w1 = setBundle b (w\<lparr>authEpoch := authEpoch w + 1\<rparr>)
      in if synchronizeTabs \<and> previousSID \<noteq> Some (sid (bundle_session b))
         then publishAuthSessionEvent Authenticated (sid (bundle_session b)) w1 else w1)"

datatype rotation_error = InvalidRotation | NoActiveSession | SessionMismatch

definition applyAuthRotation :: "jsval \<Rightarrow> tab \<Rightarrow> (rotation_error + unit) \<times> tab" where
  "applyAuthRotation v w =
     (if \<not> isAuthTokenRotation v then (Inl InvalidRotation, w)
      else case (user w, session w) of
        (Some u, Some s) \<Rightarrow>
          if sid (as_session (jget v (js ''session''))) \<noteq> sid s then (Inl SessionMismatch, w)
          else (Inr (), applyAuthBundle (as_bundle v u) False w)
      | _ \<Rightarrow> (Inl NoActiveSession, w))"

definition clearAuthentication :: "bool \<Rightarrow> AuthBootstrapState \<Rightarrow> tab \<Rightarrow> tab" where
  "clearAuthentication synchronizeTabs b w =
     (let s = current_sid w;
          w1 = reset b (w\<lparr>authEpoch := authEpoch w + 1\<rparr>)
      in case s of
           Some i \<Rightarrow> if synchronizeTabs \<and> i \<noteq> [] then publishAuthSessionEvent SignedOut i w1 else w1
         | None \<Rightarrow> w1)"

definition clearAuthenticatedClientState :: "bool \<Rightarrow> tab \<Rightarrow> tab" where
  "clearAuthenticatedClientState synchronizeTabs w =
     clearAuthentication synchronizeTabs Complete (w\<lparr>queryClears := queryClears w + 1\<rparr>)"

text \<open>The handler of the root route: the new tab state and whether the page reloads or leaves.\<close>

datatype navigation = Stay | Reload | ToSignIn

definition on_sync_event :: "sync_kind \<times> jsstr \<Rightarrow> tab \<Rightarrow> tab \<times> navigation" where
  "on_sync_event e w =
     (let currentSID = (case current_sid w of Some i \<Rightarrow> i | None \<Rightarrow> []) in
      if fst e = Authenticated then
        if current_sid w = Some (snd e) then (w, Stay)
        else (if currentSID \<noteq> [] then clearAuthentication False Complete w else w, Reload)
      else if currentSID \<noteq> [] \<and> snd e = currentSID then (clearAuthenticatedClientState False w, ToSignIn)
      else (w, Stay))"

subsection \<open>Operations of other code\<close>

datatype store_op =
    OpApply AuthBundle bool
  | OpRotate jsval
  | OpClear bool AuthBootstrapState
  | OpClearClient bool
  | OpSetUser "AuthUser option"
  | OpSetPending2FA "jsstr option"
  | OpSetBootstrap AuthBootstrapState
  | OpSync "sync_kind \<times> jsstr"

fun exec_op :: "store_op \<Rightarrow> tab \<Rightarrow> tab" where
  "exec_op (OpApply b s) w = applyAuthBundle b s w"
| "exec_op (OpRotate v) w = snd (applyAuthRotation v w)"
| "exec_op (OpClear s b) w = clearAuthentication s b w"
| "exec_op (OpClearClient s) w = clearAuthenticatedClientState s w"
| "exec_op (OpSetUser u) w = setUser u w"
| "exec_op (OpSetPending2FA t) w = setPending2FAFlowToken t w"
| "exec_op (OpSetBootstrap b) w = setBootstrapState b w"
| "exec_op (OpSync e) w = fst (on_sync_event e w)"

definition exec :: "store_op list \<Rightarrow> tab \<Rightarrow> tab" where
  "exec ops w = fold exec_op ops w"

subsection \<open>Refresh\<close>

datatype refresh_error =
    Superseded
  | RequestError jsval
  | LockError jsval

datatype RefreshOutcome =
    AuthenticatedAs AuthBundle
  | Anonymous
  | TransientError refresh_error
  | OutOfSync jsstr

datatype axios_outcome =
    AxiosResponse int jsval
  | AxiosError "int option" jsval jsval
  | OtherError jsval

record AuthRefreshHTTPResponse =
  status :: int
  data :: jsval
  error :: jsval

definition requestRefresh :: "axios_outcome \<Rightarrow> AuthRefreshHTTPResponse" where
  "requestRefresh a =
     (case a of
        AxiosResponse s d \<Rightarrow> \<lparr>status = s, data = d, error = JUndefined\<rparr>
      | AxiosError s d e \<Rightarrow> \<lparr>status = (case s of Some c \<Rightarrow> c | None \<Rightarrow> 0), data = d, error = e\<rparr>
      | OtherError e \<Rightarrow> \<lparr>status = 0, data = JUndefined, error = e\<rparr>)"

record refresh_env =
  post :: "nat \<Rightarrow> jsstr option \<Rightarrow> axios_outcome"
  duringRequest :: "nat \<Rightarrow> store_op list"
  duringWait :: "nat \<Rightarrow> store_op list"

definition refreshRaceDelays :: "int list" where
  "refreshRaceDelays = [80, 200, 500]"

definition nullish :: "jsval \<Rightarrow> jsval \<Rightarrow> jsval" where
  "nullish v d = (if v = JUndefined \<or> v = JNull then d else v)"

text \<open>
  The inner function \<open>run\<close> of \<open>createRefreshRunner\<close> with the runtime of \<open>runRefresh\<close>: what it
  decides on a response, and the loop; \<open>n\<close> counts the requests sent.
\<close>

datatype refresh_decision =
    Accept AuthBundle
  | RetryRace
  | RetryMismatch
  | GiveUp jsstr
  | SignOut
  | Fail jsval

definition decide :: "AuthRefreshHTTPResponse \<Rightarrow> nat \<Rightarrow> bool \<Rightarrow> refresh_decision" where
  "decide response raceAttempt allowMismatchRetry =
     (let responseData = (if is_record (data response) then data response else JUndefined);
          code = jget responseData (js ''code'');
          bundle = parseBundle (jget responseData (js ''data''))
      in if jget responseData (js ''success'') = JBool True \<and> bundle \<noteq> None then Accept (the bundle)
         else if status response = 409 \<and> code = JStr (js ''AUTH_REFRESH_RACE'') then
           (if raceAttempt < length refreshRaceDelays then RetryRace else GiveUp (js ''AUTH_REFRESH_RACE''))
         else if status response = 409 \<and> code = JStr (js ''AUTH_SESSION_MISMATCH'') then
           (if allowMismatchRetry then RetryMismatch else GiveUp (js ''AUTH_SESSION_MISMATCH''))
         else if status response = 401 then SignOut
         else if status response = 0 \<or> status response \<ge> 500 \<or> status response = 429 then
           Fail (nullish (error response) (data response))
         else GiveUp (if is_str code then str_of code else js ''AUTH_INVALID_REFRESH_RESPONSE''))"

lemma decide_RetryRace: "decide response race allow = RetryRace \<Longrightarrow> race < 3"
  by (auto simp: decide_def Let_def refreshRaceDelays_def split: if_splits)

lemma decide_RetryMismatch: "decide response race allow = RetryMismatch \<Longrightarrow> allow"
  by (auto simp: decide_def Let_def split: if_splits)

function run :: "refresh_env \<Rightarrow> int \<Rightarrow> nat \<Rightarrow> bool \<Rightarrow> nat \<Rightarrow> tab \<Rightarrow> RefreshOutcome \<times> tab \<times> nat" where
  "run env refreshEpoch raceAttempt allowMismatchRetry n w =
     (if authEpoch w \<noteq> refreshEpoch then (TransientError Superseded, w, n)
      else
        let response = requestRefresh (post env n (current_sid w));
            w1 = exec (duringRequest env n) w
        in if authEpoch w1 \<noteq> refreshEpoch then (TransientError Superseded, w1, Suc n)
           else case decide response raceAttempt allowMismatchRetry of
             Accept b \<Rightarrow> (AuthenticatedAs b, applyAuthBundle b False w1, Suc n)
           | RetryRace \<Rightarrow>
               run env refreshEpoch (Suc raceAttempt) allowMismatchRetry (Suc n) (exec (duringWait env (Suc n)) w1)
           | RetryMismatch \<Rightarrow> run env refreshEpoch 0 False (Suc n) (reset Idle w1)
           | GiveUp code \<Rightarrow> (OutOfSync code, clearAuthentication False Complete w1, Suc n)
           | SignOut \<Rightarrow> (Anonymous, clearAuthentication True Complete w1, Suc n)
           | Fail e \<Rightarrow> (TransientError (RequestError e), setBootstrapState Idle w1, Suc n))"
  by pat_completeness auto

termination
  by (relation "measure (\<lambda>(env, e, race, allow, n, w). (if allow then 5 else 0) + (4 - race))")
    (auto dest: decide_RetryRace decide_RetryMismatch)

definition runRefresh :: "refresh_env \<Rightarrow> int \<Rightarrow> tab \<Rightarrow> RefreshOutcome \<times> tab \<times> nat" where
  "runRefresh env refreshEpoch w = run env refreshEpoch 0 True 0 w"

text \<open>
  The browser's lock manager: absent, granting the lock after some operations of other code,
  throwing at once, or rejecting later. A rejection is not caught, since the promise is returned
  and not awaited inside the \<open>try\<close> block. The result is an error with which the promise rejects
  or an outcome.
\<close>

datatype lock_behaviour =
    NoLocks
  | LockGranted "store_op list"
  | LockThrows jsval
  | LockRejects "store_op list" jsval

definition performRefreshWithBrowserLock ::
  "refresh_env \<Rightarrow> lock_behaviour \<Rightarrow> int \<Rightarrow> tab \<Rightarrow> (jsval + RefreshOutcome) \<times> tab" where
  "performRefreshWithBrowserLock env lock refreshEpoch w =
     (case lock of
        NoLocks \<Rightarrow> (case runRefresh env refreshEpoch w of (r, w', n) \<Rightarrow> (Inr r, w'))
      | LockGranted ops \<Rightarrow> (case runRefresh env refreshEpoch (exec ops w) of (r, w', n) \<Rightarrow> (Inr r, w'))
      | LockThrows e \<Rightarrow> (Inr (TransientError (LockError e)), setBootstrapState Idle w)
      | LockRejects ops e \<Rightarrow> (Inl e, exec ops w))"

text \<open>
  While a refresh is under way every caller gets its promise; \<open>joined\<close> is how that one ends.
\<close>

definition refreshAuthentication ::
  "refresh_env \<Rightarrow> lock_behaviour \<Rightarrow> (jsval + RefreshOutcome) \<times> tab \<Rightarrow> tab \<Rightarrow> (jsval + RefreshOutcome) \<times> tab" where
  "refreshAuthentication env lock joined w =
     (if refreshPromise w then joined
      else case performRefreshWithBrowserLock env lock (authEpoch w) (w\<lparr>refreshPromise := True\<rparr>) of
        (r, w') \<Rightarrow> (r, w'\<lparr>refreshPromise := False\<rparr>))"

definition truthy_num :: "jsnum \<Rightarrow> bool" where
  "truthy_num n \<longleftrightarrow> n \<noteq> NaN \<and> n \<noteq> int_num 0"

definition currentValidAuthBundle :: "int \<Rightarrow> tab \<Rightarrow> AuthBundle option" where
  "currentValidAuthBundle now w =
     (case (user w, accessToken w, accessExpiresAt w, session w) of
        (Some u, Some t, Some e, Some s) \<Rightarrow>
          if t = [] \<or> \<not> truthy_num e \<or> js_le e (int_num (now div 1000)) then None
          else Some \<lparr>access_token = t, token_type = js ''Bearer'', access_expires_at = e,
                     bundle_user = u, bundle_session = s\<rparr>
      | _ \<Rightarrow> None)"

definition bootstrapAuthentication ::
  "int \<Rightarrow> refresh_env \<Rightarrow> lock_behaviour \<Rightarrow> (jsval + RefreshOutcome) \<times> tab \<Rightarrow> tab \<Rightarrow> (jsval + RefreshOutcome) \<times> tab" where
  "bootstrapAuthentication now env lock joined w =
     (case currentValidAuthBundle now w of
        Some b \<Rightarrow> (Inr (AuthenticatedAs b), setBootstrapState Complete w)
      | None \<Rightarrow>
          if bootstrapState w = Complete \<and> \<not> (user w \<noteq> None \<and> session w \<noteq> None) then (Inr Anonymous, w)
          else refreshAuthentication env lock joined (setBootstrapState Checking w))"

text \<open>The \<open>Authorization\<close> header, if any.\<close>

definition getCommonHeaders :: "tab \<Rightarrow> jsstr option" where
  "getCommonHeaders w =
     (case accessToken w of Some t \<Rightarrow> if t = [] then None else Some (js ''Bearer '' @ t) | None \<Rightarrow> None)"

definition token_valid_after :: "int \<Rightarrow> tab \<Rightarrow> bool" where
  "token_valid_after t w \<longleftrightarrow>
     (case (accessToken w, accessExpiresAt w) of
        (Some tok, Some e) \<Rightarrow> tok \<noteq> [] \<and> truthy_num e \<and> js_lt (int_num t) e
      | _ \<Rightarrow> False)"

datatype header_error = RequestFailed refresh_error | SessionExpired | RefreshRejected jsval

definition getFreshAuthHeaders ::
  "int \<Rightarrow> int \<Rightarrow> refresh_env \<Rightarrow> lock_behaviour \<Rightarrow> (jsval + RefreshOutcome) \<times> tab \<Rightarrow> tab
     \<Rightarrow> (header_error + jsstr option) \<times> tab" where
  "getFreshAuthHeaders now later env lock joined w =
     (if token_valid_after (now div 1000 + 60) w then (Inr (getCommonHeaders w), w)
      else case refreshAuthentication env lock joined w of
        (Inl e, w') \<Rightarrow> (Inl (RefreshRejected e), w')
      | (Inr outcome, w') \<Rightarrow>
          case outcome of
            AuthenticatedAs b \<Rightarrow> (Inr (getCommonHeaders w'), w')
          | _ \<Rightarrow>
              if token_valid_after (later div 1000) w' then (Inr (getCommonHeaders w'), w')
              else case outcome of
                TransientError e \<Rightarrow> (Inl (RequestFailed e), w')
              | _ \<Rightarrow> (Inl SessionExpired, w'))"

section \<open>Lemmas\<close>

subsection \<open>Epochs\<close>

lemma publish_simps [simp]:
  "user (publishAuthSessionEvent k i w) = user w"
  "accessToken (publishAuthSessionEvent k i w) = accessToken w"
  "accessExpiresAt (publishAuthSessionEvent k i w) = accessExpiresAt w"
  "session (publishAuthSessionEvent k i w) = session w"
  "bootstrapState (publishAuthSessionEvent k i w) = bootstrapState w"
  "authEpoch (publishAuthSessionEvent k i w) = authEpoch w"
  "refreshPromise (publishAuthSessionEvent k i w) = refreshPromise w"
  by (simp_all add: publishAuthSessionEvent_def)

lemma applyAuthBundle_simps [simp]:
  "user (applyAuthBundle b s w) = Some (bundle_user b)"
  "accessToken (applyAuthBundle b s w) = Some (access_token b)"
  "accessExpiresAt (applyAuthBundle b s w) = Some (access_expires_at b)"
  "session (applyAuthBundle b s w) = Some (bundle_session b)"
  "bootstrapState (applyAuthBundle b s w) = Complete"
  "authEpoch (applyAuthBundle b s w) = authEpoch w + 1"
  "refreshPromise (applyAuthBundle b s w) = refreshPromise w"
  by (simp_all add: applyAuthBundle_def setBundle_def Let_def)

lemma clearAuthentication_simps [simp]:
  "user (clearAuthentication s b w) = None"
  "accessToken (clearAuthentication s b w) = None"
  "accessExpiresAt (clearAuthentication s b w) = None"
  "session (clearAuthentication s b w) = None"
  "bootstrapState (clearAuthentication s b w) = b"
  "authEpoch (clearAuthentication s b w) = authEpoch w + 1"
  "refreshPromise (clearAuthentication s b w) = refreshPromise w"
  by (simp_all add: clearAuthentication_def reset_def Let_def split: option.splits)

lemma clearClient_simps [simp]:
  "accessToken (clearAuthenticatedClientState s w) = None"
  "accessExpiresAt (clearAuthenticatedClientState s w) = None"
  "session (clearAuthenticatedClientState s w) = None"
  "authEpoch (clearAuthenticatedClientState s w) = authEpoch w + 1"
  "refreshPromise (clearAuthenticatedClientState s w) = refreshPromise w"
  by (simp_all add: clearAuthenticatedClientState_def)

lemmas small_ops = setUser_def setPending2FAFlowToken_def setBootstrapState_def reset_def

text \<open>An operation either starts a new epoch or leaves the session as it is.\<close>

definition same_session :: "tab \<Rightarrow> tab \<Rightarrow> bool" where
  "same_session w w' \<longleftrightarrow> session w' = session w \<and> accessToken w' = accessToken w
     \<and> accessExpiresAt w' = accessExpiresAt w"

lemma exec_op_epoch:
  "authEpoch (exec_op x w) = authEpoch w \<and> same_session w (exec_op x w)
   \<or> authEpoch (exec_op x w) = authEpoch w + 1"
  by (cases x) (auto simp: small_ops same_session_def applyAuthRotation_def on_sync_event_def Let_def
      split: option.splits)

lemma exec_epoch:
  "authEpoch (exec ops w) = authEpoch w \<and> same_session w (exec ops w)
   \<or> authEpoch (exec ops w) > authEpoch w"
proof (induction ops arbitrary: w)
  case (Cons x ops)
  from exec_op_epoch[of x w] Cons.IH[of "exec_op x w"] show ?case
    by (auto simp: exec_def same_session_def)
qed (simp add: exec_def same_session_def)

lemma exec_refreshPromise [simp]: "refreshPromise (exec ops w) = refreshPromise w"
proof -
  have "refreshPromise (exec_op x w) = refreshPromise w" for x w
    by (cases x) (auto simp: small_ops applyAuthRotation_def on_sync_event_def Let_def split: option.splits)
  then show ?thesis by (induction ops arbitrary: w) (auto simp: exec_def)
qed

subsection \<open>The refresh loop\<close>

declare run.simps [simp del]

lemma run_cases:
  assumes "run env e race allow n w = (r, w', k)"
  obtains (stale) "r = TransientError Superseded" "k = n" "w' = w"
    | (overtaken) "r = TransientError Superseded" "k = Suc n" "w' = exec (duringRequest env n) w"
        "authEpoch w = e" "authEpoch w' \<noteq> e"
    | (race) "race < 3" "authEpoch w = e"
        "run env e (Suc race) allow (Suc n) (exec (duringWait env (Suc n)) (exec (duringRequest env n) w)) = (r, w', k)"
        "decide (requestRefresh (post env n (current_sid w))) race allow = RetryRace"
        "authEpoch (exec (duringRequest env n) w) = e"
    | (mismatch) "allow" "authEpoch w = e"
        "run env e 0 False (Suc n) (reset Idle (exec (duringRequest env n) w)) = (r, w', k)"
        "decide (requestRefresh (post env n (current_sid w))) race allow = RetryMismatch"
        "authEpoch (exec (duringRequest env n) w) = e"
    | (final) w1 where "k = Suc n" "w1 = exec (duringRequest env n) w" "authEpoch w = e" "authEpoch w1 = e"
        "(r, w') = (case decide (requestRefresh (post env n (current_sid w))) race allow of
            Accept b \<Rightarrow> (AuthenticatedAs b, applyAuthBundle b False w1)
          | SignOut \<Rightarrow> (Anonymous, clearAuthentication True Complete w1)
          | GiveUp code \<Rightarrow> (OutOfSync code, clearAuthentication False Complete w1)
          | Fail x \<Rightarrow> (TransientError (RequestError x), setBootstrapState Idle w1)
          | _ \<Rightarrow> (TransientError Superseded, w))"
        "decide (requestRefresh (post env n (current_sid w))) race allow \<notin> {RetryRace, RetryMismatch}"
proof -
  let ?w1 = "exec (duringRequest env n) w"
  let ?d = "decide (requestRefresh (post env n (current_sid w))) race allow"
  show thesis
  proof (cases "authEpoch w = e \<and> authEpoch ?w1 = e")
    case False
    with assms stale overtaken show ?thesis by (subst (asm) run.simps) (auto simp: Let_def split: if_splits)
  next
    case True
    note r = assms[unfolded run.simps[of env e race allow n w]]
    show ?thesis
    proof (cases ?d)
      case RetryRace
      with True r show ?thesis by (intro race) (auto dest: decide_RetryRace)
    next
      case RetryMismatch
      with True r show ?thesis by (intro mismatch) (auto dest: decide_RetryMismatch)
    qed (use True r in \<open>intro final[of ?w1]; auto\<close>)+
  qed
qed

lemma run_requests:
  "run env e race allow n w = (r, w', k) \<Longrightarrow> race \<le> 3 \<Longrightarrow> n \<le> k \<and> k \<le> n + (if allow then 4 else 0) + (4 - race)"
proof (induction env e race allow n w rule: run.induct)
  case (1 env e race allow n w)
  from "1.prems"(1) show ?case
  proof (cases rule: run_cases)
    case race
    then show ?thesis using "1.IH"(1)[OF _ refl refl _ race(4)] by (auto split: if_splits)
  next
    case mismatch
    then show ?thesis using "1.IH"(2)[OF _ refl refl _ mismatch(4)] "1.prems"(2) by (auto split: if_splits)
  qed (use "1.prems"(2) in auto)
qed

text \<open>How an outcome changes the tab in which its response arrived.\<close>

fun apply_outcome :: "RefreshOutcome \<Rightarrow> tab \<Rightarrow> tab" where
  "apply_outcome (AuthenticatedAs b) w = applyAuthBundle b False w"
| "apply_outcome Anonymous w = clearAuthentication True Complete w"
| "apply_outcome (OutOfSync code) w = clearAuthentication False Complete w"
| "apply_outcome (TransientError x) w = setBootstrapState Idle w"

text \<open>The answer that makes a refresh succeed with a bundle.\<close>

definition answers_with :: "axios_outcome \<Rightarrow> AuthBundle \<Rightarrow> bool" where
  "answers_with a b \<longleftrightarrow>
     (let d = data (requestRefresh a) in jget d (js ''success'') = JBool True
        \<and> parseBundle (jget d (js ''data'')) = Some b)"

lemma decide_Accept: "decide (requestRefresh a) race allow = Accept b \<Longrightarrow> answers_with a b"
  by (auto simp: decide_def answers_with_def Let_def split: if_splits)

lemma run_final:
  "run env e race allow n w = (r, w', k) \<Longrightarrow> r \<noteq> TransientError Superseded \<Longrightarrow>
     n < k \<and> (\<exists>w0. authEpoch w0 = e \<and> authEpoch (exec (duringRequest env (k - 1)) w0) = e
        \<and> w' = apply_outcome r (exec (duringRequest env (k - 1)) w0)
        \<and> (\<forall>b. r = AuthenticatedAs b \<longrightarrow> answers_with (post env (k - 1) (current_sid w0)) b))"
proof (induction env e race allow n w rule: run.induct)
  case (1 env e race allow n w)
  from "1.prems"(1) show ?case
  proof (cases rule: run_cases)
    case race
    then show ?thesis using "1.IH"(1)[OF _ refl refl _ race(4)] "1.prems"(2) by auto
  next
    case mismatch
    then show ?thesis using "1.IH"(2)[OF _ refl refl _ mismatch(4)] "1.prems"(2) by auto
  next
    case (final w1)
    then show ?thesis using "1.prems"(2)
      by (auto dest: decide_Accept split: refresh_decision.splits)
  qed (use "1.prems"(2) in auto)
qed

lemma run_refreshPromise:
  "run env e race allow n w = (r, w', k) \<Longrightarrow> refreshPromise w' = refreshPromise w"
proof (induction env e race allow n w rule: run.induct)
  case (1 env e race allow n w)
  from "1.prems"(1) show ?case
  proof (cases rule: run_cases)
    case race
    then show ?thesis using "1.IH"(1)[OF _ refl refl _ race(4)] by auto
  next
    case mismatch
    then show ?thesis using "1.IH"(2)[OF _ refl refl _ mismatch(4)] by (auto simp: reset_def)
  next
    case (final w1)
    then show ?thesis by (auto simp: setBootstrapState_def split: refresh_decision.splits)
  qed auto
qed

subsection \<open>Consistency of the store\<close>

definition bundle_ok :: "AuthBundle \<Rightarrow> bool" where
  "bundle_ok b \<longleftrightarrow> access_token b \<noteq> [] \<and> is_finite_num (access_expires_at b)
     \<and> js_lt (int_num 0) (access_expires_at b) \<and> sid (bundle_session b) \<noteq> []"

definition tab_ok :: "tab \<Rightarrow> bool" where
  "tab_ok w \<longleftrightarrow>
     (case (session w, accessToken w, accessExpiresAt w) of
        (Some s, Some t, Some e) \<Rightarrow> sid s \<noteq> [] \<and> t \<noteq> [] \<and> is_finite_num e \<and> js_lt (int_num 0) e
      | (None, None, None) \<Rightarrow> True
      | _ \<Rightarrow> False)"

lemma tab_ok_same_session: "tab_ok w \<Longrightarrow> same_session w w' \<Longrightarrow> tab_ok w'"
  by (simp add: tab_ok_def same_session_def)

lemma tab_ok_apply: "bundle_ok b \<Longrightarrow> tab_ok (applyAuthBundle b s w)"
  by (simp add: tab_ok_def bundle_ok_def)

lemma tab_ok_clear: "session w = None \<Longrightarrow> accessToken w = None \<Longrightarrow> accessExpiresAt w = None \<Longrightarrow> tab_ok w"
  by (simp add: tab_ok_def)

lemma parseBundle_ok: "parseBundle v = Some b \<Longrightarrow> bundle_ok b"
  by (auto simp: parseBundle_def isAuthBundle_def hasValidTokenFields_def isLoginSession_def bundle_ok_def
      as_bundle_def as_session_def split: if_splits)

lemma rotation_ok: "isAuthTokenRotation v \<Longrightarrow> bundle_ok (as_bundle v u)"
  by (auto simp: isAuthTokenRotation_def hasValidTokenFields_def isLoginSession_def bundle_ok_def
      as_bundle_def as_session_def)

fun op_ok :: "store_op \<Rightarrow> bool" where
  "op_ok (OpApply b s) = bundle_ok b"
| "op_ok _ = True"

lemma tab_ok_exec_op: "tab_ok w \<Longrightarrow> op_ok x \<Longrightarrow> tab_ok (exec_op x w)"
proof (cases x)
  case (OpRotate v)
  assume "tab_ok w"
  with OpRotate show ?thesis
    by (auto simp: applyAuthRotation_def tab_ok_apply rotation_ok split: option.splits)
qed (auto simp: tab_ok_apply tab_ok_clear on_sync_event_def Let_def
    intro: tab_ok_same_session simp: same_session_def small_ops)

lemma tab_ok_exec: "tab_ok w \<Longrightarrow> list_all op_ok ops \<Longrightarrow> tab_ok (exec ops w)"
  by (induction ops arbitrary: w) (auto simp: exec_def tab_ok_exec_op)

definition env_ok :: "refresh_env \<Rightarrow> bool" where
  "env_ok env \<longleftrightarrow> (\<forall>n. list_all op_ok (duringRequest env n) \<and> list_all op_ok (duringWait env n))"

fun lock_ok :: "lock_behaviour \<Rightarrow> bool" where
  "lock_ok (LockGranted ops) = list_all op_ok ops"
| "lock_ok (LockRejects ops e) = list_all op_ok ops"
| "lock_ok _ = True"

lemma tab_ok_run:
  "run env e race allow n w = (r, w', k) \<Longrightarrow> env_ok env \<Longrightarrow> tab_ok w \<Longrightarrow> tab_ok w'"
proof (induction env e race allow n w rule: run.induct)
  case (1 env e race allow n w)
  have x: "tab_ok (exec (duringRequest env n) w)"
    using "1.prems"(2,3) by (simp add: tab_ok_exec env_ok_def)
  from "1.prems"(1) show ?case
  proof (cases rule: run_cases)
    case race
    then show ?thesis using "1.IH"(1)[OF _ refl refl _ race(4)] "1.prems"(2) x
      by (simp add: tab_ok_exec env_ok_def)
  next
    case mismatch
    then show ?thesis using "1.IH"(2)[OF _ refl refl _ mismatch(4)] "1.prems"(2)
      by (simp add: tab_ok_clear reset_def)
  next
    case (final w1)
    have "decide (requestRefresh a) race allow = Accept b \<Longrightarrow> bundle_ok b" for a b
      by (drule decide_Accept) (auto simp: answers_with_def Let_def parseBundle_ok)
    then show ?thesis using final x
      by (auto simp: tab_ok_apply tab_ok_clear setBootstrapState_def same_session_def
          intro: tab_ok_same_session split: refresh_decision.splits)
  qed (use x "1.prems"(3) in auto)
qed

lemma tab_ok_frame [simp]:
  "tab_ok (w\<lparr>refreshPromise := b\<rparr>) = tab_ok w"
  "tab_ok (w\<lparr>bootstrapState := c\<rparr>) = tab_ok w"
  by (simp_all add: tab_ok_def)

lemma tab_ok_refresh:
  assumes "refreshAuthentication env lock joined w = (r, w')" "\<not> refreshPromise w" "env_ok env" "lock_ok lock"
    "tab_ok w"
  shows "tab_ok w' \<and> \<not> refreshPromise w'"
proof -
  obtain w1 where w1: "performRefreshWithBrowserLock env lock (authEpoch w) (w\<lparr>refreshPromise := True\<rparr>) = (r, w1)"
    "w' = w1\<lparr>refreshPromise := False\<rparr>"
    using assms(1,2) by (auto simp: refreshAuthentication_def split: prod.splits)
  have "tab_ok w1"
    using w1(1) assms(3,4,5)
    by (cases lock)
      (auto simp: performRefreshWithBrowserLock_def runRefresh_def tab_ok_exec setBootstrapState_def
        dest: tab_ok_run split: prod.splits)
  with w1 show ?thesis by simp
qed

subsection \<open>The tab as a machine\<close>

datatype tab_event =
    Do store_op
  | Receive jsstr int jsval
  | Refresh refresh_env lock_behaviour
  | Bootstrap int refresh_env lock_behaviour
  | FreshHeaders int int refresh_env lock_behaviour

text \<open>Operations run one after another, so that no refresh is under way when one starts.\<close>

abbreviation no_promise :: "(jsval + RefreshOutcome) \<times> tab" where
  "no_promise \<equiv> (Inl JUndefined, new_tab)"

fun tab_step :: "tab \<Rightarrow> tab_event \<Rightarrow> tab" where
  "tab_step w (Do x) = exec_op x w"
| "tab_step w (Receive src now v) =
     (case deliver src now v of Some e \<Rightarrow> fst (on_sync_event e w) | None \<Rightarrow> w)"
| "tab_step w (Refresh env lock) = snd (refreshAuthentication env lock no_promise w)"
| "tab_step w (Bootstrap now env lock) = snd (bootstrapAuthentication now env lock no_promise w)"
| "tab_step w (FreshHeaders now later env lock) = snd (getFreshAuthHeaders now later env lock no_promise w)"

fun tab_enabled :: "tab \<Rightarrow> tab_event \<Rightarrow> bool" where
  "tab_enabled w (Do x) = op_ok x"
| "tab_enabled w (Receive src now v) = True"
| "tab_enabled w (Refresh env lock) = (env_ok env \<and> lock_ok lock)"
| "tab_enabled w (Bootstrap now env lock) = (env_ok env \<and> lock_ok lock)"
| "tab_enabled w (FreshHeaders now later env lock) = (env_ok env \<and> lock_ok lock)"

definition tab_inv :: "tab \<Rightarrow> bool" where
  "tab_inv w \<longleftrightarrow> tab_ok w \<and> \<not> refreshPromise w"

lemma tab_inv_refresh:
  "tab_inv w \<Longrightarrow> env_ok env \<Longrightarrow> lock_ok lock \<Longrightarrow> tab_inv (snd (refreshAuthentication env lock joined w))"
  using tab_ok_refresh[of env lock joined w]
  by (cases "refreshAuthentication env lock joined w") (simp add: tab_inv_def)

lemma tab_inv_exec_op: "tab_inv w \<Longrightarrow> op_ok x \<Longrightarrow> tab_inv (exec_op x w)"
  using exec_refreshPromise[of "[x]" w] by (simp add: tab_inv_def tab_ok_exec_op exec_def)

lemma tab_inv_step: "tab_inv w \<Longrightarrow> tab_enabled w e \<Longrightarrow> tab_inv (tab_step w e)"
proof (cases e)
  case (Receive src now v)
  assume "tab_inv w"
  then have "tab_inv (fst (on_sync_event x w))" for x
    using tab_inv_exec_op[of w "OpSync x"] by simp
  with \<open>tab_inv w\<close> Receive show ?thesis by (simp split: option.splits)
next
  case (Bootstrap now env lock)
  assume "tab_inv w" "tab_enabled w e"
  moreover have "tab_inv (setBootstrapState b w)" for b
    using \<open>tab_inv w\<close> by (simp add: tab_inv_def setBootstrapState_def)
  ultimately show ?thesis
    using Bootstrap by (simp add: bootstrapAuthentication_def tab_inv_refresh split: option.splits)
next
  case (FreshHeaders now later env lock)
  assume "tab_inv w" "tab_enabled w e"
  then have "tab_inv (snd (refreshAuthentication env lock no_promise w))"
    using FreshHeaders by (simp add: tab_inv_refresh)
  with FreshHeaders \<open>tab_inv w\<close> show ?thesis
    by (auto simp: getFreshAuthHeaders_def split: prod.splits sum.splits RefreshOutcome.splits)
qed (simp_all add: tab_inv_exec_op tab_inv_refresh)

interpretation tabm: event_machine "\<lambda>w. w = new_tab" tab_enabled tab_step tab_inv
proof
  show "w = new_tab \<Longrightarrow> tab_inv w" for w by (simp add: new_tab_def tab_inv_def tab_ok_def)
qed (fact tab_inv_step)

abbreviation tab_reach :: "tab \<Rightarrow> bool" where
  "tab_reach \<equiv> reach (\<lambda>w. w = new_tab) tab_enabled tab_step"

section \<open>Properties\<close>

text \<open>
  C29. A session refresh always ends, whatever the server answers: the retries after a refresh
  race (three) and after a session mismatch (one, which starts the race retries afresh) add up
  to at most eight requests.
\<close>

theorem refresh_bounded:
  assumes "runRefresh env e w = (r, w', k)"
  shows "k \<le> 8"
  using run_requests[OF assms[unfolded runRefresh_def]] by simp

definition conflict :: "string \<Rightarrow> axios_outcome" where
  "conflict c = AxiosError (Some 409) (JObj [(js ''code'', JStr (js c))]) (JStr (js ''conflict''))"

definition stubborn_env :: refresh_env where
  "stubborn_env = \<lparr>post = (\<lambda>n s. if n = 3 then conflict ''AUTH_SESSION_MISMATCH'' else conflict ''AUTH_REFRESH_RACE''),
     duringRequest = (\<lambda>n. []), duringWait = (\<lambda>n. [])\<rparr>"

theorem refresh_bounded_witness:
  "\<exists>r w' k. runRefresh stubborn_env 0 new_tab = (r, w', k) \<and> r = OutOfSync (js ''AUTH_REFRESH_RACE'') \<and> k = 8 \<and> k \<le> 8"
proof -
  obtain r w' k where r: "runRefresh stubborn_env 0 new_tab = (r, w', k)" by (metis prod.exhaust)
  have "fst (runRefresh stubborn_env 0 new_tab) = OutOfSync (js ''AUTH_REFRESH_RACE'')"
    "snd (snd (runRefresh stubborn_env 0 new_tab)) = 8" by code_simp+
  with refresh_bounded[OF r] r show ?thesis by simp
qed


definition demo_session_value :: jsval where
  "demo_session_value = JObj (map (\<lambda>k. (js k, JNum (int_num 5))) [''created_at'', ''last_active_at'', ''expires_at'']
     @ map (\<lambda>k. (js k, JStr (js ''x''))) [''sid'', ''login_method'', ''ip'', ''user_agent'']
     @ [(js ''current'', JBool True)])"

definition demo_bundle_value :: jsval where
  "demo_bundle_value = JObj [(js ''access_token'', JStr (js ''tok'')), (js ''token_type'', JStr (js ''Bearer'')),
     (js ''access_expires_at'', JNum (int_num 9000)),
     (js ''user'', JObj [(js ''id'', JNum (int_num 7)), (js ''username'', JStr (js ''ann'')), (js ''role'', JNum (int_num 1))]),
     (js ''session'', demo_session_value)]"

definition good_env :: refresh_env where
  "good_env = \<lparr>post = (\<lambda>n s. AxiosResponse 200 (JObj [(js ''success'', JBool True), (js ''data'', demo_bundle_value)])),
     duringRequest = (\<lambda>n. [OpSetPending2FA None]), duringWait = (\<lambda>n. [])\<rparr>"




text \<open>
  Rotating the tokens keeps the identity: a rotation is accepted only for the session the
  tab holds, keeps its user and session identifier, and is not announced to other tabs; a
  rotation that is refused leaves the tab exactly as it was.
\<close>

theorem rotation_keeps_identity:
  "case applyAuthRotation v w of
     (Inr _, w') \<Rightarrow> current_sid w' = current_sid w \<and> current_sid w \<noteq> None \<and> user w' = user w
       \<and> accessToken w' = Some (str_of (jget v (js ''access_token''))) \<and> published w' = published w
       \<and> authEpoch w' = authEpoch w + 1
   | (Inl e, w') \<Rightarrow> w' = w"
  by (auto simp: applyAuthRotation_def current_sid_def as_bundle_def applyAuthBundle_def setBundle_def Let_def
      split: option.splits)

text \<open>
  C20. Signing out in one tab signs out the other tabs of the same session and no others. The
  event a tab announces is delivered to every other tab within a minute, never to the tab
  itself; a tab holding the same session then has none and goes to the sign-in page without
  announcing anything itself; a tab with another session, or none, is not changed.
\<close>

theorem sign_out_reaches_session_tabs:
  assumes "current_sid a = Some i" "i \<noteq> []" "src' \<noteq> src" "\<bar>now' - now\<bar> < 60000"
  shows "published (clearAuthentication True Complete a) = (SignedOut, i) # published a
    \<and> deliver src now (sync_message src nonce now (SignedOut, i)) = None
    \<and> (\<exists>e. deliver src' now' (sync_message src nonce now (SignedOut, i)) = Some e
         \<and> (case on_sync_event e b of (b', nav) \<Rightarrow>
              if current_sid b = Some i
              then session b' = None \<and> accessToken b' = None \<and> nav = ToSignIn \<and> published b' = published b
              else b' = b \<and> nav = Stay))"
proof -
  have "\<bar>of_int now' - of_int now :: rat\<bar> = of_int \<bar>now' - now\<bar>" by simp
  also have "\<dots> < of_int 60000" using assms(4) by (simp only: of_int_less_iff)
  finally have n: "within_minute now' (int_num now)" by (simp add: within_minute_def int_num_def)
  have m: "deliver s t (sync_message src nonce now (SignedOut, i)) =
      (if src \<noteq> s \<and> within_minute t (int_num now) then Some (SignedOut, i) else None)" for s t
    using assms(2) by (auto simp: deliver_def sync_message_def isAuthSessionSyncEvent_def jget_def js_def)
  have "published (clearAuthentication True Complete a) = (SignedOut, i) # published a"
    using assms(1,2) by (simp add: clearAuthentication_def publishAuthSessionEvent_def reset_def Let_def)
  moreover have "published (clearAuthenticatedClientState False b) = published b"
    by (simp add: clearAuthenticatedClientState_def clearAuthentication_def reset_def Let_def split: option.splits)
  ultimately show ?thesis
    using assms(2,3) n m by (auto simp: on_sync_event_def Let_def split: option.splits)
qed

theorem sign_out_reaches_session_tabs_witness:
  "let a = tab_step new_tab (Refresh good_env NoLocks)
   in published (clearAuthentication True Complete a) = (SignedOut, js ''x'') # published a
      \<and> session (fst (on_sync_event (SignedOut, js ''x'') a)) = None"
proof -
  let ?a = "tab_step new_tab (Refresh good_env NoLocks)"
  have s: "current_sid ?a = Some (js ''x'')" by code_simp
  have x: "js ''x'' \<noteq> []" "js ''b'' \<noteq> js ''a''" "\<bar>1000 - 0 :: int\<bar> < 60000" by (simp_all add: js_def)
  have "deliver (js ''b'') 1000 (sync_message (js ''a'') (js ''n'') 0 (SignedOut, js ''x'')) = Some (SignedOut, js ''x'')"
    by code_simp
  with sign_out_reaches_session_tabs[OF s x(1) x(2) x(3), of "js ''n''" ?a] s show ?thesis
    by (auto simp: Let_def split: prod.splits)
qed

text \<open>
  C38. The start-up check of the session never leaves the tab "checking" once its refresh has
  settled with an outcome of its own; the one exception is a lock manager that rejects the
  request later on: that rejection escapes the error handler and the tab stays in the
  checking state.
\<close>

theorem bootstrap_settles:
  assumes "\<not> refreshPromise w" "currentValidAuthBundle now w = None" "bootstrapState w \<noteq> Complete"
  shows "(case bootstrapAuthentication now env lock joined w of
      (Inr r, w') \<Rightarrow> r \<noteq> TransientError Superseded \<longrightarrow> bootstrapState w' \<noteq> Checking
    | (Inl x, w') \<Rightarrow> (\<exists>ops. lock = LockRejects ops x))
    \<and> (\<forall>x. bootstrapState (snd (bootstrapAuthentication now env (LockRejects [] x) joined w)) = Checking)"
proof -
  have o: "bootstrapState (apply_outcome r v) \<noteq> Checking" for r v
    by (cases r) (simp_all add: setBootstrapState_def)
  have f: "run env e 0 True 0 v = (r, w', k) \<Longrightarrow> r \<noteq> TransientError Superseded \<Longrightarrow> bootstrapState w' \<noteq> Checking"
    for e v r w' k using run_final[of env e 0 True 0 v r w' k] o by auto
  show ?thesis
    using assms f
    by (cases lock)
      (auto simp: bootstrapAuthentication_def refreshAuthentication_def performRefreshWithBrowserLock_def
        runRefresh_def setBootstrapState_def exec_def split: prod.splits)
qed

theorem bootstrap_settles_witness:
  "bootstrapState (snd (bootstrapAuthentication 0 good_env (LockRejects [] JNull) no_promise new_tab)) = Checking
   \<and> bootstrapState (snd (bootstrapAuthentication 0 good_env NoLocks no_promise new_tab)) = Complete"
proof -
  have h: "\<not> refreshPromise new_tab" "currentValidAuthBundle 0 new_tab = None" "bootstrapState new_tab \<noteq> Complete"
    by code_simp+
  have "bootstrapState (snd (bootstrapAuthentication 0 good_env NoLocks no_promise new_tab)) = Complete" by code_simp
  then show ?thesis
    using bootstrap_settles[OF h, where env = good_env and lock = NoLocks and joined = no_promise] by blast
qed

end
