(* ===== verification/Http_Client.thy ===== *)
theory Http_Client
  imports Auth_Session "HOL-Library.AList"
begin

text \<open>
  The console's HTTP client (\<open>web/src/lib/http-client.ts\<close>): the interceptors that add the access
  token, refresh the session after a 401 and report errors, and the sharing of equal GET requests
  that are under way; the texts of server errors (\<open>web/src/lib/server-error-message.ts\<close>); signing
  out (\<open>executeLogout\<close> and \<open>logout\<close> of \<open>web/src/features/auth/api.ts\<close>).

  The network is a parameter: \<open>send\<close> gives the reply to the \<open>n\<close>-th request of a call, with the
  configuration and the \<open>Authorization\<close> header it carries, and \<open>whileSending\<close> the store
  operations other code of the tab runs before the reply arrives. A call returns its result, the
  tab after it and the effects the user or the server can observe.
\<close>

section \<open>Model\<close>

subsection \<open>Messages of server errors\<close>

text \<open>
  An object literal also answers to the names its prototype defines; \<open>Inherited\<close> stands for the
  function such a name yields.
\<close>

datatype message_key = Text jsstr | Inherited jsstr

definition prototype_names :: "jsstr list" where
  "prototype_names = map js [''constructor'', ''__defineGetter__'', ''__defineSetter__'', ''hasOwnProperty'',
     ''__lookupGetter__'', ''__lookupSetter__'', ''isPrototypeOf'', ''propertyIsEnumerable'', ''toString'',
     ''valueOf'', ''__proto__'', ''toLocaleString'']"

definition serverErrorMessageKeys :: "(jsstr \<times> jsstr) list" where
  "serverErrorMessageKeys =
    [(js ''AUTH_SESSION_LIMIT'',
        js ''Too many active login sessions. On a device where you are already signed in, open Login sessions and use ''
        @ [8220] @ js ''Sign out other sessions'' @ [8221]
        @ js '' to revoke them. If you cannot access a signed-in device, reset your password to sign out all sessions.''),
     (js ''AUTH_SESSION_ISSUANCE_LIMIT'',
        js ''Too many login sessions were created recently. Please wait for the rolling window to pass, then try again.''),
     (js ''TELEGRAM_BIND_DISABLED'', js ''Telegram binding is disabled.''),
     (js ''TELEGRAM_BIND_INVALID_REQUEST'', js ''The Telegram authorization request is invalid or expired.''),
     (js ''TELEGRAM_BIND_FLOW_INVALID'',
        js ''This Telegram binding request has expired or has already been used.''),
     (js ''TELEGRAM_BIND_SESSION_INVALID'',
        js ''The login session that started this Telegram binding is no longer valid.''),
     (js ''TELEGRAM_BIND_ALREADY_BOUND'', js ''This Telegram account is already bound.''),
     (js ''TELEGRAM_BIND_USER_DELETED'', js ''This user account no longer exists.''),
     (js ''TELEGRAM_BIND_USER_DISABLED'', js ''This user account is disabled.''),
     (js ''TELEGRAM_BIND_INTERNAL_ERROR'', js ''Telegram binding failed. Please try again.'')]"

definition serverErrorPayload :: "jsval \<Rightarrow> jsval option" where
  "serverErrorPayload v =
     (if \<not> is_record v then None
      else let response = jget v (js ''response'') in
        if is_record response \<and> is_record (jget response (js ''data'')) then Some (jget response (js ''data''))
        else Some v)"

definition getServerErrorMessageKey :: "jsval \<Rightarrow> message_key option" where
  "getServerErrorMessageKey v =
     (case serverErrorPayload v of
        None \<Rightarrow> None
      | Some payload \<Rightarrow>
          (case jget payload (js ''code'') of
             JStr code \<Rightarrow>
               (case map_of serverErrorMessageKeys code of
                  Some t \<Rightarrow> Some (Text t)
                | None \<Rightarrow> if code \<in> set prototype_names then Some (Inherited code) else None)
           | _ \<Rightarrow> None))"

subsection \<open>Requests\<close>

record ApiRequestConfig =
  skipBusinessError :: bool
  skipErrorHandler :: bool
  disableDuplicate :: bool
  skipAuthRefresh :: bool
  authRetry :: bool
  acceptAuthRotation :: bool
  authorizationHeader :: "jsstr option"
  expectedSID :: "jsstr option"

datatype http_reply =
    Resolved jsval
  | Rejected bool bool jsval

datatype request_failure =
    HttpError bool jsval
  | RotationFailed rotation_error
  | RefreshRejection jsval

datatype toast = Translated message_key | Raw jsval

datatype http_effect =
    Sent "jsstr option"
  | Toast toast
  | RedirectToSignIn

record http_env =
  send :: "nat \<Rightarrow> ApiRequestConfig \<Rightarrow> jsstr option \<Rightarrow> http_reply"
  whileSending :: "nat \<Rightarrow> store_op list"
  refreshEnv :: refresh_env
  refreshLock :: lock_behaviour
  refreshJoined :: "(jsval + RefreshOutcome) \<times> tab"
  pathname :: jsstr

text \<open>The request interceptor\<close>

definition request_header :: "ApiRequestConfig \<Rightarrow> tab \<Rightarrow> jsstr option" where
  "request_header config w =
     (case accessToken w of
        Some token \<Rightarrow> if token = [] then authorizationHeader config else Some (js ''Bearer '' @ token)
      | None \<Rightarrow> authorizationHeader config)"

definition redirectToSignIn :: "http_env \<Rightarrow> http_effect list" where
  "redirectToSignIn env = (if pathname env \<noteq> js ''/sign-in'' then [RedirectToSignIn] else [])"

definition first_truthy :: "jsval list \<Rightarrow> jsstr \<Rightarrow> toast" where
  "first_truthy vs key = (case find truthy vs of Some v \<Rightarrow> Raw v | None \<Rightarrow> Translated (Text key))"

definition errorToast :: "jsval \<Rightarrow> jsval list \<Rightarrow> toast" where
  "errorToast v candidates =
     (case getServerErrorMessageKey v of
        Some k \<Rightarrow> Translated k
      | None \<Rightarrow> first_truthy candidates (js ''Request failed''))"

definition sessionExpired :: "ApiRequestConfig \<Rightarrow> http_effect list" where
  "sessionExpired config =
     (if skipErrorHandler config then [] else [Toast (Translated (Text (js ''Session expired!'')))])"

text \<open>The first response interceptor: the outcome of a reply with a success status\<close>

definition on_response ::
  "ApiRequestConfig \<Rightarrow> jsval \<Rightarrow> tab \<Rightarrow> (request_failure + jsval) \<times> tab \<times> http_effect list" where
  "on_response config d w =
     (case (if acceptAuthRotation config \<and> jget d (js ''success'') = JBool True
            then applyAuthRotation (jget d (js ''data'')) w else (Inr (), w)) of
        (Inl e, w') \<Rightarrow> (Inl (RotationFailed e), w', [])
      | (Inr _, w') \<Rightarrow>
          (Inr d, w',
           if \<not> skipBusinessError config \<and> jget d (js ''success'') = JBool False
           then [Toast (errorToast d [jget d (js ''message'')])] else []))"

definition error_status :: "jsval \<Rightarrow> jsval" where
  "error_status err = jget (jget err (js ''response'')) (js ''status'')"

text \<open>What the second response interceptor does with a failed request.\<close>

datatype failure_decision = RefreshSession | ForgetSession | Complain

definition on_error :: "ApiRequestConfig \<Rightarrow> bool \<Rightarrow> jsval \<Rightarrow> failure_decision" where
  "on_error config hasConfig err =
     (if error_status err = JNum (int_num 401) then
        if hasConfig \<and> \<not> skipAuthRefresh config \<and> \<not> authRetry config then RefreshSession
        else if hasConfig \<and> authRetry config then ForgetSession
        else Complain
      else Complain)"

definition complain :: "ApiRequestConfig \<Rightarrow> bool \<Rightarrow> jsval \<Rightarrow> http_effect list" where
  "complain config hasConfig err =
     (if hasConfig \<and> skipErrorHandler config then []
      else if error_status err = JNum (int_num 401) then [Toast (Translated (Text (js ''Session expired!'')))]
      else [Toast (errorToast err
              [jget (jget (jget err (js ''response'')) (js ''data'')) (js ''message''), jget err (js ''message'')])])"

lemma on_error_RefreshSession: "on_error config hasConfig err = RefreshSession \<Longrightarrow> \<not> authRetry config"
  by (auto simp: on_error_def split: if_splits)

function api_request ::
  "http_env \<Rightarrow> ApiRequestConfig \<Rightarrow> nat \<Rightarrow> tab \<Rightarrow> (request_failure + jsval) \<times> tab \<times> http_effect list" where
  "api_request env config n w =
     (let header = request_header config w;
          w1 = exec (whileSending env n) w
      in case send env n config header of
           Resolved d \<Rightarrow> (case on_response config d w1 of (r, w2, es) \<Rightarrow> (r, w2, Sent header # es))
         | Rejected hasConfig axiosError err \<Rightarrow>
             (case on_error config hasConfig err of
                RefreshSession \<Rightarrow>
                  (case refreshAuthentication (refreshEnv env) (refreshLock env) (refreshJoined env) w1 of
                     (Inl e, w2) \<Rightarrow> (Inl (RefreshRejection e), w2, [Sent header])
                   | (Inr outcome, w2) \<Rightarrow>
                       (case outcome of
                          AuthenticatedAs b \<Rightarrow>
                            (case api_request env
                                    (config\<lparr>authRetry := True,
                                       authorizationHeader := request_header (config\<lparr>authorizationHeader := header\<rparr>) w2\<rparr>)
                                    (Suc n) w2 of
                               (r, w3, es) \<Rightarrow> (r, w3, Sent header # es))
                        | TransientError e \<Rightarrow> (Inl (HttpError axiosError err), w2, [Sent header])
                        | _ \<Rightarrow> (Inl (HttpError axiosError err), w2,
                                 Sent header # sessionExpired config @ redirectToSignIn env)))
              | ForgetSession \<Rightarrow>
                  (Inl (HttpError axiosError err), clearAuthentication False Complete w1,
                   Sent header # sessionExpired config @ redirectToSignIn env)
              | Complain \<Rightarrow>
                  (Inl (HttpError axiosError err), w1, Sent header # complain config hasConfig err)))"
  by pat_completeness auto

termination
  by (relation "measure (\<lambda>(env, config, n, w). if authRetry config then 0 else 1)")
    (auto dest: on_error_RefreshSession)

subsection \<open>Signing out\<close>

definition logoutConfig :: "tab \<Rightarrow> ApiRequestConfig" where
  "logoutConfig w =
     \<lparr>skipBusinessError = False, skipErrorHandler = True, disableDuplicate = False, skipAuthRefresh = True,
      authRetry = False, acceptAuthRotation = False, authorizationHeader = None,
      expectedSID = (case current_sid w of Some i \<Rightarrow> if i = [] then None else Some i | None \<Rightarrow> None)\<rparr>"

definition session_mismatch :: "request_failure \<Rightarrow> bool" where
  "session_mismatch e \<longleftrightarrow>
     (case e of
        HttpError axiosError err \<Rightarrow>
          axiosError \<and> error_status err = JNum (int_num 409)
          \<and> jget (jget (jget err (js ''response'')) (js ''data'')) (js ''code'') = JStr (js ''AUTH_SESSION_MISMATCH'')
      | _ \<Rightarrow> False)"

function executeLogout ::
  "http_env \<Rightarrow> bool \<Rightarrow> nat \<Rightarrow> tab \<Rightarrow> (request_failure + jsval) \<times> tab \<times> http_effect list" where
  "executeLogout env allowMismatchRecovery n w =
     (case api_request env (logoutConfig w) n w of
        (Inr d, w1, es) \<Rightarrow> (Inr d, w1, es)
      | (Inl e, w1, es) \<Rightarrow>
          if allowMismatchRecovery \<and> session_mismatch e then
            (case refreshAuthentication (refreshEnv env) (refreshLock env) (refreshJoined env) w1 of
               (Inl e', w2) \<Rightarrow> (Inl (RefreshRejection e'), w2, es)
             | (Inr outcome, w2) \<Rightarrow>
                 (case outcome of
                    AuthenticatedAs b \<Rightarrow> (case executeLogout env False (Suc n) w2 of (r, w3, es') \<Rightarrow> (r, w3, es @ es'))
                  | Anonymous \<Rightarrow> (Inr (JObj [(js ''success'', JBool True), (js ''message'', JStr [])]), w2, es)
                  | _ \<Rightarrow> (Inl e, w2, es)))
          else (Inl e, w1, es))"

  by pat_completeness auto

termination
  by (relation "measure (\<lambda>(env, allow, n, w). if allow then 1 else 0)") auto

definition logout :: "http_env \<Rightarrow> tab \<Rightarrow> (request_failure + jsval) \<times> tab \<times> http_effect list" where
  "logout env w = executeLogout env True 0 w"

subsection \<open>Sharing of GET requests\<close>

text \<open>
  The wrapped \<open>api.get\<close> with its map \<open>inFlightGet\<close>. A request sent is a number; for each the
  client's history keeps the session, address and parameters (as the JSON text) it was sent for.
  A request may settle while it is pending; its \<open>finally\<close> callback then deletes its key, which a
  request sent with \<open>disableDuplicate\<close> has none of.
\<close>

record get_call =
  call_sid :: "jsstr option"
  call_url :: jsstr
  call_params :: jsstr

record get_client =
  inFlightGet :: "(jsstr \<times> nat) list"
  history :: "get_call list"
  pending :: "(nat \<times> jsstr option) list"

definition get_key :: "get_call \<Rightarrow> jsstr" where
  "get_key c =
     (case call_sid c of Some i \<Rightarrow> if i = [] then js ''anonymous'' else i | None \<Rightarrow> js ''anonymous'')
     @ js '':'' @ call_url c @ js ''?'' @ call_params c"

definition originalGet :: "get_call \<Rightarrow> jsstr option \<Rightarrow> get_client \<Rightarrow> nat \<times> get_client" where
  "originalGet c key g =
     (length (history g), g\<lparr>history := history g @ [c], pending := (length (history g), key) # pending g\<rparr>)"

definition api_get :: "bool \<Rightarrow> get_call \<Rightarrow> get_client \<Rightarrow> nat \<times> get_client" where
  "api_get dup c g =
     (if dup then originalGet c None g
      else
        let key = get_key c in
        case map_of (inFlightGet g) key of
          Some existingRequest \<Rightarrow> (existingRequest, g)
        | None \<Rightarrow>
            (case originalGet c (Some key) g of
               (request, g') \<Rightarrow> (request, g'\<lparr>inFlightGet := AList.update key request (inFlightGet g')\<rparr>)))"

definition settle :: "nat \<Rightarrow> get_client \<Rightarrow> get_client" where
  "settle r g =
     (let g' = g\<lparr>pending := filter (\<lambda>p. fst p \<noteq> r) (pending g)\<rparr> in
      case map_of (pending g) r of
        Some (Some key) \<Rightarrow> g'\<lparr>inFlightGet := AList.delete key (inFlightGet g')\<rparr>
      | _ \<Rightarrow> g')"

datatype get_event = Get bool get_call | Settle nat

definition get_init :: "get_client \<Rightarrow> bool" where
  "get_init g \<longleftrightarrow> g = \<lparr>inFlightGet = [], history = [], pending = []\<rparr>"

fun get_enabled :: "get_client \<Rightarrow> get_event \<Rightarrow> bool" where
  "get_enabled g (Get dup c) = True"
| "get_enabled g (Settle r) = (map_of (pending g) r \<noteq> None)"

fun get_step :: "get_client \<Rightarrow> get_event \<Rightarrow> get_client" where
  "get_step g (Get dup c) = snd (api_get dup c g)"
| "get_step g (Settle r) = settle r g"

abbreviation get_reach :: "get_client \<Rightarrow> bool" where
  "get_reach \<equiv> reach get_init get_enabled get_step"

section \<open>Lemmas\<close>

subsection \<open>Requests\<close>

text \<open>The sends among the effects of a call.\<close>

definition sends :: "http_effect list \<Rightarrow> http_effect list" where
  "sends es = filter (\<lambda>e. case e of Sent h \<Rightarrow> True | _ \<Rightarrow> False) es"

lemma sends_simps [simp]:
  "sends [] = []" "sends (Sent h # es) = Sent h # sends es" "sends (Toast t # es) = sends es"
  "sends (RedirectToSignIn # es) = sends es" "sends (es @ es') = sends es @ sends es'"
  by (simp_all add: sends_def)

lemma sends_quiet [simp]:
  "sends (sessionExpired config) = []" "sends (redirectToSignIn env) = []" "sends (complain config hasConfig err) = []"
  by (simp_all add: sessionExpired_def redirectToSignIn_def complain_def)

lemma sends_on_response: "on_response config d w = (r, w', es) \<Longrightarrow> sends es = []"
  by (auto simp: on_response_def split: prod.splits sum.splits if_splits)

lemma api_request_retry_once:
  assumes "authRetry config \<or> skipAuthRefresh config" "api_request env config n w = (r, w', es)"
  shows "sends es = [Sent (request_header config w)]"
proof -
  have "on_error config hasConfig err \<noteq> RefreshSession" for hasConfig err
    using assms(1) by (auto simp: on_error_def)
  then show ?thesis
    using assms(2)
    by (subst (asm) api_request.simps)
      (auto simp: Let_def dest: sends_on_response split: http_reply.splits failure_decision.splits prod.splits)
qed

lemma api_request_twice:
  assumes "api_request env config n w = (r, w', es)"
  shows "sends es = [Sent (request_header config w)]
    \<or> (\<exists>hasConfig axiosError err b w2.
          send env n config (request_header config w) = Rejected hasConfig axiosError err
          \<and> on_error config hasConfig err = RefreshSession
          \<and> refreshAuthentication (refreshEnv env) (refreshLock env) (refreshJoined env)
              (exec (whileSending env n) w) = (Inr (AuthenticatedAs b), w2)
          \<and> sends es = [Sent (request_header config w),
              Sent (request_header (config\<lparr>authorizationHeader := request_header config w\<rparr>) w2)])"
proof (cases "send env n config (request_header config w)")
  case (Resolved d)
  with assms show ?thesis
    by (subst (asm) api_request.simps) (auto simp: Let_def dest: sends_on_response split: prod.splits)
next
  case (Rejected hasConfig axiosError err)
  show ?thesis
  proof (cases "on_error config hasConfig err = RefreshSession \<and> (\<exists>b w2. refreshAuthentication (refreshEnv env)
      (refreshLock env) (refreshJoined env) (exec (whileSending env n) w) = (Inr (AuthenticatedAs b), w2))")
    case True
    then obtain b w2 where ref: "on_error config hasConfig err = RefreshSession"
      "refreshAuthentication (refreshEnv env) (refreshLock env) (refreshJoined env)
         (exec (whileSending env n) w) = (Inr (AuthenticatedAs b), w2)" by blast
    define config' where "config' = config\<lparr>authRetry := True,
      authorizationHeader := request_header (config\<lparr>authorizationHeader := request_header config w\<rparr>) w2\<rparr>"
    obtain r3 w3 es3 where rest: "api_request env config' (Suc n) w2 = (r3, w3, es3)" by (metis prod_cases3)
    have "sends es3 = [Sent (request_header config' w2)]"
      using api_request_retry_once[OF _ rest] by (simp add: config'_def)
    moreover have "request_header config' w2 = request_header (config\<lparr>authorizationHeader := request_header config w\<rparr>) w2"
      by (simp add: config'_def request_header_def split: option.splits)
    moreover have "es = Sent (request_header config w) # es3"
      using assms rest unfolding config'_def
      by (subst (asm) api_request.simps) (simp add: Let_def Rejected ref)
    ultimately show ?thesis using Rejected ref by auto
  next
    case False
    with assms Rejected show ?thesis
      by (subst (asm) api_request.simps)
        (auto simp: Let_def split: failure_decision.splits prod.splits sum.splits RefreshOutcome.splits)
  qed
qed

subsection \<open>Sharing\<close>

definition get_inv :: "get_client \<Rightarrow> bool" where
  "get_inv g \<longleftrightarrow>
     (\<forall>r k. map_of (pending g) r = Some k \<longrightarrow> r < length (history g))
     \<and> (\<forall>k r. map_of (inFlightGet g) k = Some r \<longleftrightarrow> map_of (pending g) r = Some (Some k))
     \<and> (\<forall>r k. map_of (pending g) r = Some (Some k) \<longrightarrow> get_key (history g ! r) = k)"

lemma get_inv_originalGet:
  "get_inv g \<Longrightarrow> get_inv (snd (originalGet c None g))"
  by (auto simp: get_inv_def originalGet_def nth_append less_Suc_eq split: if_splits dest: not_sym)

lemma get_inv_api_get: "get_inv g \<Longrightarrow> get_inv (snd (api_get dup c g))"
proof (cases "dup \<or> map_of (inFlightGet g) (get_key c) \<noteq> None")
  case True
  assume "get_inv g"
  with True show ?thesis using get_inv_originalGet by (auto simp: api_get_def Let_def split: option.splits)
next
  case False
  assume inv: "get_inv g"
  then have fresh: "map_of (pending g) (length (history g)) = None"
    by (cases "map_of (pending g) (length (history g))") (auto simp: get_inv_def)
  have "map_of (inFlightGet g) k \<noteq> Some (length (history g))" for k
    using inv fresh by (auto simp: get_inv_def)
  moreover have "map_of (pending g) r \<noteq> Some (Some (get_key c))" for r
    using inv False by (auto simp: get_inv_def)
  moreover have "snd (api_get dup c g) = g\<lparr>history := history g @ [c],
      pending := (length (history g), Some (get_key c)) # pending g,
      inFlightGet := AList.update (get_key c) (length (history g)) (inFlightGet g)\<rparr>"
    using False by (simp add: api_get_def originalGet_def Let_def)
  ultimately show ?thesis
    using inv fresh
    by (auto simp: get_inv_def update_conv' nth_append less_Suc_eq dest: not_sym)
qed

lemma map_of_filter_neq: "map_of (filter (\<lambda>p. fst p \<noteq> r) xs) r' = (if r' = r then None else map_of xs r')"
  by (induction xs) auto

lemma get_inv_settle: "get_inv g \<Longrightarrow> get_inv (settle r g)"
  by (auto simp: get_inv_def settle_def Let_def map_of_filter_neq delete_conv' split: option.splits if_splits)
    (metis option.inject)

interpretation gm: event_machine get_init get_enabled get_step get_inv
proof
  fix g :: get_client
  assume "get_init g"
  then show "get_inv g" by (simp add: get_init_def get_inv_def)
next
  fix g :: get_client and e :: get_event
  assume "get_inv g"
  then show "get_inv (get_step g e)" by (cases e) (simp_all add: get_inv_api_get get_inv_settle)
qed

text \<open>
  Session identifiers are not empty, differ from the placeholder and hold no colon; addresses hold
  no question mark. Then a key determines the call.
\<close>

definition plain_call :: "get_call \<Rightarrow> bool" where
  "plain_call c \<longleftrightarrow>
     (case call_sid c of Some i \<Rightarrow> i \<noteq> [] \<and> i \<noteq> js ''anonymous'' \<and> 58 \<notin> set i | None \<Rightarrow> True)
     \<and> 63 \<notin> set (call_url c)"

lemma js_sep: "js '':'' = [58]" "js ''?'' = [63]" "58 \<notin> set (js ''anonymous'')"
  by (simp_all add: js_def)

lemma get_key_inj:
  assumes "plain_call c" "plain_call c'" "get_key c = get_key c'"
  shows "call_sid c = call_sid c' \<and> call_url c = call_url c' \<and> call_params c = call_params c'"
proof -
  define s where "s = (\<lambda>c :: get_call. case call_sid c of Some i \<Rightarrow> if i = [] then js ''anonymous'' else i | None \<Rightarrow> js ''anonymous'')"
  have key: "get_key c = s c @ 58 # (call_url c @ 63 # call_params c)" for c
    by (simp add: get_key_def s_def js_sep)
  have "58 \<notin> set (s c)" "58 \<notin> set (s c')"
    using assms(1,2) js_sep(3) by (auto simp: s_def plain_call_def split: option.splits)
  then have "s c = s c' \<and> call_url c @ 63 # call_params c = call_url c' @ 63 # call_params c'"
    using sep_split assms(3) unfolding key by metis
  moreover have "63 \<notin> set (call_url c)" "63 \<notin> set (call_url c')" using assms(1,2) by (simp_all add: plain_call_def)
  ultimately have "s c = s c'" "call_url c = call_url c' \<and> call_params c = call_params c'" using sep_split by metis+
  moreover have "call_sid c = call_sid c'"
    using \<open>s c = s c'\<close> assms(1,2) by (auto simp: s_def plain_call_def split: option.splits)
  ultimately show ?thesis by simp
qed

subsection \<open>Signing out\<close>

lemma api_request_Inr:
  assumes "authRetry config \<or> skipAuthRefresh config" "\<not> acceptAuthRotation config"
    "api_request env config n w = (Inr d, w', es)"
  shows "send env n config (request_header config w) = Resolved d"
proof -
  have "on_error config hasConfig err \<noteq> RefreshSession" for hasConfig err
    using assms(1) by (auto simp: on_error_def)
  then show ?thesis
    using assms(2,3)
    by (subst (asm) api_request.simps)
      (auto simp: Let_def on_response_def split: http_reply.splits failure_decision.splits prod.splits)
qed

text \<open>The three ways signing out goes: one request, a request and a refresh, or a second request after both.\<close>

lemma logout_cases:
  assumes "logout env w = (r, w', es)"
  obtains (once) "api_request env (logoutConfig w) 0 w = (r, w', es)"
  | (refreshed) e w1 o' where "api_request env (logoutConfig w) 0 w = (Inl e, w1, es)" "session_mismatch e"
      "refreshAuthentication (refreshEnv env) (refreshLock env) (refreshJoined env) w1 = (o', w')"
      "r = Inr (JObj [(js ''success'', JBool True), (js ''message'', JStr [])]) \<and> o' = Inr Anonymous \<or> isl r"
  | (twice) e w1 b w2 es1 es2 where "api_request env (logoutConfig w) 0 w = (Inl e, w1, es1)" "session_mismatch e"
      "refreshAuthentication (refreshEnv env) (refreshLock env) (refreshJoined env) w1 = (Inr (AuthenticatedAs b), w2)"
      "api_request env (logoutConfig w2) 1 w2 = (r, w', es2)" "es = es1 @ es2"
proof -
  obtain r1 w1 es1 where first: "api_request env (logoutConfig w) 0 w = (r1, w1, es1)" by (metis prod_cases3)
  obtain o' w2 where ref: "refreshAuthentication (refreshEnv env) (refreshLock env) (refreshJoined env) w1 = (o', w2)"
    by (metis surj_pair)
  have second: "executeLogout env False (Suc 0) w2 = api_request env (logoutConfig w2) (Suc 0) w2"
    by (subst executeLogout.simps) (auto split: prod.splits sum.splits)
  show ?thesis
    using assms unfolding logout_def
    by (subst (asm) executeLogout.simps)
      (auto simp: first ref second intro: once refreshed twice split: sum.splits if_splits RefreshOutcome.splits prod.splits)
qed

section \<open>Examples\<close>

definition failure_value :: "int \<Rightarrow> string \<Rightarrow> jsval" where
  "failure_value st code =
     JObj [(js ''response'', JObj [(js ''status'', JNum (int_num st)),
       (js ''data'', JObj [(js ''code'', JStr (js code))])])]"

text \<open>A server that rejects the first request with the given error and accepts the second.\<close>

definition second_try_env :: "jsval \<Rightarrow> http_env" where
  "second_try_env err =
     \<lparr>send = (\<lambda>n config h. if n = 0 then Rejected True True err else Resolved (JObj [(js ''success'', JBool True)])),
      whileSending = (\<lambda>n. []), refreshEnv = good_env, refreshLock = NoLocks, refreshJoined = no_promise,
      pathname = js ''/''\<rparr>"

definition plain_config :: ApiRequestConfig where
  "plain_config =
     \<lparr>skipBusinessError = False, skipErrorHandler = False, disableDuplicate = False, skipAuthRefresh = False,
      authRetry = False, acceptAuthRotation = False, authorizationHeader = None, expectedSID = None\<rparr>"

definition sample_call :: get_call where
  "sample_call = \<lparr>call_sid = Some (js ''s1''), call_url = js ''/api/status'', call_params = js ''{}''\<rparr>"

section \<open>Properties\<close>

text \<open>
  C6. A request of the console is sent at most twice. It is sent again only after a 401 reply and a
  session refresh that succeeded, never when it opted out of the refresh or was a retry itself, and
  the second request carries the access token the store holds after the refresh.
\<close>

theorem api_request_sends:
  assumes "api_request env config n w = (r, w', es)"
  shows "length (sends es) = 1
    \<or> length (sends es) = 2 \<and> \<not> authRetry config \<and> \<not> skipAuthRefresh config
      \<and> (\<exists>hasConfig axiosError err b w2.
            send env n config (request_header config w) = Rejected hasConfig axiosError err
            \<and> error_status err = JNum (int_num 401)
            \<and> refreshAuthentication (refreshEnv env) (refreshLock env) (refreshJoined env)
                (exec (whileSending env n) w) = (Inr (AuthenticatedAs b), w2)
            \<and> (\<forall>token. accessToken w2 = Some token \<and> token \<noteq> [] \<longrightarrow>
                  sends es ! 1 = Sent (Some (js ''Bearer '' @ token))))"
  using api_request_twice[OF assms]
proof (elim disjE exE conjE)
  fix hasConfig axiosError err b w2
  assume a: "send env n config (request_header config w) = Rejected hasConfig axiosError err"
    "on_error config hasConfig err = RefreshSession"
    "refreshAuthentication (refreshEnv env) (refreshLock env) (refreshJoined env)
       (exec (whileSending env n) w) = (Inr (AuthenticatedAs b), w2)"
    "sends es = [Sent (request_header config w), Sent (request_header (config\<lparr>authorizationHeader := request_header config w\<rparr>) w2)]"
  then have "\<not> authRetry config" "\<not> skipAuthRefresh config" "error_status err = JNum (int_num 401)"
    by (auto simp: on_error_def split: if_splits)
  moreover have "sends es ! 1 = Sent (Some (js ''Bearer '' @ token))" if "accessToken w2 = Some token \<and> token \<noteq> []" for token
    using that a(4) by (simp add: request_header_def)
  moreover have "length (sends es) = 2" using a(4) by simp
  ultimately show ?thesis using a(1,3) by blast
qed simp

theorem api_request_sends_witness:
  "\<exists>r w' es b w2. api_request (second_try_env (failure_value 401 ''EXPIRED'')) plain_config 0 new_tab = (r, w', es)
     \<and> length (sends es) = 2
     \<and> refreshAuthentication good_env NoLocks no_promise new_tab = (Inr (AuthenticatedAs b), w2)"
proof -
  let ?env = "second_try_env (failure_value 401 ''EXPIRED'')"
  obtain r w' es where run: "api_request ?env plain_config 0 new_tab = (r, w', es)" by (metis prod_cases3)
  have "length (sends (snd (snd (api_request ?env plain_config 0 new_tab)))) = 2" by code_simp
  then have two: "length (sends es) = 2" using run by simp
  have env: "refreshEnv ?env = good_env" "refreshLock ?env = NoLocks" "refreshJoined ?env = no_promise"
    "exec (whileSending ?env 0) new_tab = new_tab"
    by (simp_all add: second_try_env_def exec_def)
  from api_request_sends[OF run] two run show ?thesis unfolding env by auto
qed





text \<open>A server error whose code is the name of an inherited property yields no text.\<close>

lemma inherited_code_is_no_text:
  "getServerErrorMessageKey (JObj [(js ''code'', JStr (js ''constructor''))]) = Some (Inherited (js ''constructor''))"
  by code_simp

end
