(* ===== verification/Js_Collections.thy ===== *)
theory Js_Collections
  imports Js_Prelude "HOL-Library.AList" "HOL-Library.Multiset"
begin

text \<open>
  The collections of ECMAScript the console uses: \<open>Map\<close> as an association list in insertion order
  (\<open>AList.update\<close> replaces the value of a key in place and appends a new key), \<open>Set\<close> as a list
  without repetitions, and \<open>Array.prototype.sort\<close> with a comparator, which is stable. Sums over
  maps that accumulate values per key are what the statistics of the dashboard rest on.
\<close>

section \<open>Sorting\<close>

fun insert_by :: "('a \<Rightarrow> 'a \<Rightarrow> int) \<Rightarrow> 'a \<Rightarrow> 'a list \<Rightarrow> 'a list" where
  "insert_by cmp x [] = [x]"
| "insert_by cmp x (y # ys) = (if cmp x y \<le> 0 then x # y # ys else y # insert_by cmp x ys)"

definition js_sort :: "('a \<Rightarrow> 'a \<Rightarrow> int) \<Rightarrow> 'a list \<Rightarrow> 'a list" where
  "js_sort cmp xs = foldr (insert_by cmp) xs []"

text \<open>\<open>c1 || c2\<close> of two comparison results, and \<open>b - a\<close> as a comparison of numbers.\<close>

definition or_else :: "int \<Rightarrow> int \<Rightarrow> int" where
  "or_else c d = (if c \<noteq> 0 then c else d)"

definition descending :: "'n :: linorder \<Rightarrow> 'n \<Rightarrow> int" where
  "descending a b = (if a < b then 1 else if b < a then -1 else 0)"

lemma mset_insert_by [simp]: "mset (insert_by cmp x xs) = add_mset x (mset xs)"
  by (induction xs) auto

lemma mset_js_sort [simp]: "mset (js_sort cmp xs) = mset xs"
  by (induction xs) (simp_all add: js_sort_def)

lemma set_js_sort [simp]: "set (js_sort cmp xs) = set xs"
  by (metis mset_js_sort set_mset_mset)

lemma length_js_sort [simp]: "length (js_sort cmp xs) = length xs"
  by (metis mset_js_sort size_mset)

lemma sum_list_js_sort [simp]: "sum_list (map (f :: 'a \<Rightarrow> 'n :: comm_monoid_add) (js_sort cmp xs)) = sum_list (map f xs)"
  by (metis mset_js_sort mset_map sum_mset_sum_list)

lemma distinct_js_sort [simp]: "distinct (js_sort cmp xs) = distinct xs"
  by (metis mset_js_sort mset_eq_imp_distinct_iff)

text \<open>A comparator that is a total preorder sorts.\<close>

definition total_preorder_cmp :: "('a \<Rightarrow> 'a \<Rightarrow> int) \<Rightarrow> bool" where
  "total_preorder_cmp cmp \<longleftrightarrow>
     (\<forall>x y. cmp x y \<le> 0 \<or> cmp y x \<le> 0) \<and> (\<forall>x y z. cmp x y \<le> 0 \<longrightarrow> cmp y z \<le> 0 \<longrightarrow> cmp x z \<le> 0)"

lemma sorted_insert_by:
  assumes "total_preorder_cmp cmp" "sorted_wrt (\<lambda>x y. cmp x y \<le> 0) xs"
  shows "sorted_wrt (\<lambda>x y. cmp x y \<le> 0) (insert_by cmp x xs)"
proof -
  have set_insert: "set (insert_by cmp a ys) = insert a (set ys)" for a and ys :: "'a list"
    by (induction ys) auto
  show ?thesis
    using assms(2)
  proof (induction xs)
    case (Cons y ys)
    then show ?case
      using assms(1) unfolding total_preorder_cmp_def by (auto simp: set_insert)
  qed simp
qed

lemma sorted_js_sort: "total_preorder_cmp cmp \<Longrightarrow> sorted_wrt (\<lambda>x y. cmp x y \<le> 0) (js_sort cmp xs)"
  by (induction xs) (auto simp: js_sort_def sorted_insert_by)

text \<open>A comparator that looks at a key first sorts by that key, whatever breaks the ties.\<close>

lemma sorted_insert_by_key:
  assumes "\<And>x y. f y < f x \<Longrightarrow> cmp x y < 0" "\<And>x y. f x < f y \<Longrightarrow> cmp x y > 0"
    and "sorted_wrt (\<lambda>x y. f y \<le> (f x :: 'n :: linorder)) xs"
  shows "sorted_wrt (\<lambda>x y. f y \<le> f x) (insert_by cmp x xs)"
  using assms(3)
proof (induction xs)
  case (Cons y ys)
  have s: "set (insert_by cmp x ys) = insert x (set ys)" by (induction ys) auto
  show ?case
  proof (cases "cmp x y \<le> 0")
    case True
    then have "f y \<le> f x" using assms(2)[of x y] by force
    with True Cons.prems show ?thesis by auto
  next
    case False
    then have "f x \<le> f y" using assms(1)[where x = x and y = y] by force
    with False Cons s show ?thesis by auto
  qed
qed simp

lemma sorted_js_sort_key:
  assumes "\<And>x y. f y < f x \<Longrightarrow> cmp x y < 0" "\<And>x y. f x < f y \<Longrightarrow> cmp x y > 0"
  shows "sorted_wrt (\<lambda>x y. f y \<le> (f x :: 'n :: linorder)) (js_sort cmp xs)"
proof (induction xs)
  case (Cons x xs)
  then show ?case using sorted_insert_by_key[of f cmp, OF assms] by (simp add: js_sort_def)
qed (simp add: js_sort_def)

section \<open>Sets\<close>

definition set_add :: "'a \<Rightarrow> 'a list \<Rightarrow> 'a list" where
  "set_add x xs = (if x \<in> set xs then xs else xs @ [x])"

lemma set_set_add [simp]: "set (set_add x xs) = insert x (set xs)"
  by (auto simp: set_add_def)

lemma distinct_set_add [simp]: "distinct (set_add x xs) = distinct xs"
  by (simp add: set_add_def)

lemma set_fold_set_add: "set (fold (\<lambda>x. set_add (f x)) xs acc) = f ` set xs \<union> set acc"
  by (induction xs arbitrary: acc) auto

lemma in_map_filter: "y \<in> set (List.map_filter f xs) \<longleftrightarrow> (\<exists>x \<in> set xs. f x = Some y)"
  by (force simp: List.map_filter_def)

section \<open>Maps that accumulate\<close>

text \<open>\<open>map.set(k, g(map.get(k) ?? d))\<close>\<close>

definition upsert :: "'k \<Rightarrow> 'v \<Rightarrow> ('v \<Rightarrow> 'v) \<Rightarrow> ('k \<times> 'v) list \<Rightarrow> ('k \<times> 'v) list" where
  "upsert k d g m = AList.update k (g (case map_of m k of Some v \<Rightarrow> v | None \<Rightarrow> d)) m"

lemma map_of_upsert: "map_of (upsert k d g m) k' =
    (if k' = k then Some (g (case map_of m k of Some v \<Rightarrow> v | None \<Rightarrow> d)) else map_of m k')"
  by (simp add: upsert_def update_conv')

lemma keys_upsert: "fst ` set (upsert k d g m) = insert k (fst ` set m)"
  by (simp add: upsert_def dom_update)

lemma distinct_upsert: "distinct (map fst m) \<Longrightarrow> distinct (map fst (upsert k d g m))"
  by (simp add: upsert_def distinct_update)

text \<open>The sum of a component of the entries that satisfy a predicate.\<close>

definition map_total :: "('v \<Rightarrow> bool) \<Rightarrow> ('v \<Rightarrow> rat) \<Rightarrow> ('k \<times> 'v) list \<Rightarrow> rat" where
  "map_total Q val m = sum_list (map val (filter Q (map snd m)))"

lemma map_total_update_new: "k \<notin> fst ` set m \<Longrightarrow> map_total Q val (AList.update k v m) = map_total Q val m + (if Q v then val v else 0)"
  by (induction m) (auto simp: map_total_def)

lemma map_total_update_old:
  "distinct (map fst m) \<Longrightarrow> map_of m k = Some u \<Longrightarrow> Q v = Q u \<Longrightarrow>
     map_total Q val (AList.update k v m) = map_total Q val m + (if Q u then val v - val u else 0)"
proof (induction m)
  case (Cons p m)
  obtain k' v' where p: "p = (k', v')" by force
  show ?case
  proof (cases "k' = k")
    case True
    with Cons.prems p show ?thesis by (auto simp: map_total_def)
  next
    case False
    with Cons p show ?thesis by (auto simp: map_total_def)
  qed
qed simp

lemma map_total_upsert:
  assumes "distinct (map fst m)" "val d = 0" "\<And>v. val (g v) = val v + x" "\<And>v. Q (g v) = Q v"
    and "\<And>v. map_of m k = Some v \<Longrightarrow> Q v = Q d"
  shows "map_total Q val (upsert k d g m) = map_total Q val m + (if Q d then x else 0)"
proof (cases "map_of m k")
  case None
  then have "k \<notin> fst ` set m" by (simp add: map_of_eq_None_iff)
  then show ?thesis using None assms by (simp add: upsert_def map_total_update_new)
next
  case (Some u)
  have "map_total Q val (AList.update k (g u) m) = map_total Q val m + (if Q u then val (g u) - val u else 0)"
    using map_total_update_old[OF assms(1) Some, of Q "g u" val] assms(4) by blast
  then show ?thesis using Some assms(3)[of u] assms(5)[OF Some] by (simp add: upsert_def)
qed

end
