(* ===== verification/Flow_Graph.thy ===== *)
theory Flow_Graph
  imports Js_Collections
begin

text \<open>
  The usage flow of the dashboard (\<open>web/src/features/dashboard/lib/flow.ts\<close>, with its types in
  \<open>features/dashboard/types.ts\<close>): usage rows become paths through stages (user, node, token,
  group, model, channel), and the paths are added up into the nodes and links of a Sankey
  diagram.

  Amounts are rational numbers; the code's are quotas, tokens and request counts, integers that
  JavaScript adds exactly. A missing or empty string of a row is the empty string, a missing
  number is \<open>None\<close>, identifiers are integers. Parameters, collected in \<open>flow_env\<close>: the locale's
  string comparison, the chart library's colours and \<open>Intl.NumberFormat\<close>. The translucent
  display colours of links (\<open>alphaColor\<close>, \<open>assignLinkDisplayColors\<close>) and the static options of
  the chart are left out.
\<close>

section \<open>Model\<close>

record flow_env =
  localeCompare :: "jsstr \<Rightarrow> jsstr \<Rightarrow> int"
  getDashboardChartColors :: "nat \<Rightarrow> jsstr list"
  formatNumber :: "rat \<Rightarrow> jsstr"

record FlowQuotaDataItem =
  user_id :: int
  username :: jsstr
  node_name :: jsstr
  use_group :: jsstr
  token_id :: int
  token_name :: jsstr
  channel_id :: int
  channel_name :: jsstr
  model_name :: jsstr
  row_token_used :: "jsnum option"
  row_count :: "jsnum option"
  row_quota :: "jsnum option"

datatype FlowMetric = QuotaMetric | TokensMetric | RequestsMetric

datatype FlowOverflowMode = Aggregate | HideOverflow

datatype FlowRole = UserRole | AdminRole | RootRole

datatype FlowNodeKind = UserKind | NodeKind | TokenKind | GroupKind | ModelKind | ChannelKind

record FlowNodeFilter =
  filter_kind :: FlowNodeKind
  filter_id :: jsstr

record FlowLinkSelection =
  sel_source :: jsstr
  sel_target :: jsstr

record FlowMetrics =
  m_quota :: rat
  m_tokens :: rat
  m_requests :: rat

record FlowPathNode =
  pn_id :: jsstr
  pn_label :: jsstr
  pn_kind :: FlowNodeKind

record DashboardFlowNode =
  n_id :: jsstr
  n_label :: jsstr
  n_kind :: FlowNodeKind
  n_value :: rat
  n_requests :: rat
  n_quota :: rat
  n_tokens :: rat
  n_color :: jsstr
  n_colorKey :: jsstr
  n_highlighted :: "bool option"
  n_dimmed :: "bool option"

record DashboardFlowLink =
  l_source :: jsstr
  l_target :: jsstr
  l_value :: rat
  l_requests :: rat
  l_quota :: rat
  l_tokens :: rat
  l_sourceLabel :: jsstr
  l_targetLabel :: jsstr
  l_color :: jsstr
  l_colorKey :: jsstr
  l_share :: rat
  l_highlighted :: "bool option"
  l_dimmed :: "bool option"

record FlowBuildOptions =
  role :: FlowRole
  selectedUsers :: "jsstr list"
  selectedNodes :: "FlowNodeFilter list"
  activeNode :: "FlowNodeFilter option"
  activeLink :: "FlowLinkSelection option"
  palette :: "jsstr list option"
  visibleStages :: "FlowNodeKind list option"
  topNodeLimit :: "jsnum option"
  overflowMode :: FlowOverflowMode
  maskSensitive :: bool
  deletedLabel :: "(int \<Rightarrow> jsstr) option"
  otherNodeLabel :: "(FlowNodeKind \<Rightarrow> jsstr) option"

definition FLOW_NODE_KINDS :: "FlowNodeKind list" where
  "FLOW_NODE_KINDS = [UserKind, NodeKind, TokenKind, GroupKind, ModelKind, ChannelKind]"

fun kind_name :: "FlowNodeKind \<Rightarrow> string" where
  "kind_name UserKind = ''user''"
| "kind_name NodeKind = ''node''"
| "kind_name TokenKind = ''token''"
| "kind_name GroupKind = ''group''"
| "kind_name ModelKind = ''model''"
| "kind_name ChannelKind = ''channel''"

definition OTHER_FLOW_NODE_IDS :: "FlowNodeKind \<Rightarrow> jsstr" where
  "OTHER_FLOW_NODE_IDS k = js (kind_name k) @ js '':__other__''"

fun DEFAULT_OTHER_FLOW_NODE_LABELS :: "FlowNodeKind \<Rightarrow> jsstr" where
  "DEFAULT_OTHER_FLOW_NODE_LABELS UserKind = js ''Other users''"
| "DEFAULT_OTHER_FLOW_NODE_LABELS NodeKind = js ''Other nodes''"
| "DEFAULT_OTHER_FLOW_NODE_LABELS TokenKind = js ''Other tokens''"
| "DEFAULT_OTHER_FLOW_NODE_LABELS GroupKind = js ''Other groups''"
| "DEFAULT_OTHER_FLOW_NODE_LABELS ModelKind = js ''Other models''"
| "DEFAULT_OTHER_FLOW_NODE_LABELS ChannelKind = js ''Other channels''"

definition SENSITIVE_FLOW_KINDS :: "FlowNodeKind list" where
  "SENSITIVE_FLOW_KINDS = [UserKind, NodeKind, TokenKind, GroupKind, ChannelKind]"

definition OTHER_FLOW_NODE_ID_SET :: "jsstr list" where
  "OTHER_FLOW_NODE_ID_SET = map OTHER_FLOW_NODE_IDS FLOW_NODE_KINDS"

definition numberValue :: "jsnum option \<Rightarrow> rat" where
  "numberValue v = (case v of Some (Fin r) \<Rightarrow> r | _ \<Rightarrow> 0)"

definition rowMetrics :: "FlowQuotaDataItem \<Rightarrow> FlowMetrics" where
  "rowMetrics row = \<lparr>m_quota = numberValue (row_quota row), m_tokens = numberValue (row_token_used row),
     m_requests = numberValue (row_count row)\<rparr>"

definition metricValue :: "FlowMetrics \<Rightarrow> FlowMetric \<Rightarrow> rat" where
  "metricValue m metric =
     (case metric of RequestsMetric \<Rightarrow> m_requests m | TokensMetric \<Rightarrow> m_tokens m | QuotaMetric \<Rightarrow> m_quota m)"

text \<open>\<open>a || b\<close> of strings\<close>

definition str_or :: "jsstr \<Rightarrow> jsstr \<Rightarrow> jsstr" where
  "str_or a b = (if a = [] then b else a)"

definition userNode :: "FlowQuotaDataItem \<Rightarrow> FlowPathNode" where
  "userNode row =
     \<lparr>pn_id = (if user_id row > 0 then js ''user:'' @ show_int (user_id row)
               else js ''user:'' @ str_or (username row) (js ''unknown'')),
      pn_label = str_or (username row)
        (if user_id row > 0 then js ''user-'' @ show_int (user_id row) else js ''Unknown User''),
      pn_kind = UserKind\<rparr>"

definition nodeNameNode :: "FlowQuotaDataItem \<Rightarrow> FlowPathNode" where
  "nodeNameNode row =
     (let nodeName = str_or (node_name row) (js ''default-node'') in
      \<lparr>pn_id = js ''node:'' @ nodeName, pn_label = nodeName, pn_kind = NodeKind\<rparr>)"

definition deletedTokenLabel :: "int \<Rightarrow> (int \<Rightarrow> jsstr) option \<Rightarrow> jsstr" where
  "deletedTokenLabel tokenID ctx =
     (if tokenID \<le> 0 then js ''Unknown Token''
      else case ctx of Some f \<Rightarrow> f tokenID | None \<Rightarrow> js ''token-'' @ show_int tokenID)"

definition tokenNode :: "FlowQuotaDataItem \<Rightarrow> (int \<Rightarrow> jsstr) option \<Rightarrow> FlowPathNode" where
  "tokenNode row ctx =
     \<lparr>pn_id = (if token_id row > 0 then js ''token:'' @ show_int (token_id row)
               else js ''token:'' @ str_or (token_name row) (js ''unknown'')),
      pn_label = str_or (token_name row) (deletedTokenLabel (token_id row) ctx),
      pn_kind = TokenKind\<rparr>"

definition groupNode :: "FlowQuotaDataItem \<Rightarrow> FlowPathNode" where
  "groupNode row =
     (let useGroup = str_or (use_group row) (js ''unknown'') in
      \<lparr>pn_id = js ''group:'' @ useGroup, pn_label = useGroup, pn_kind = GroupKind\<rparr>)"

definition modelNode :: "FlowQuotaDataItem \<Rightarrow> FlowPathNode" where
  "modelNode row =
     \<lparr>pn_id = js ''model:'' @ str_or (model_name row) (js ''unknown''),
      pn_label = str_or (model_name row) (js ''Unknown Model''), pn_kind = ModelKind\<rparr>"

definition channelNode :: "FlowQuotaDataItem \<Rightarrow> FlowPathNode" where
  "channelNode row =
     \<lparr>pn_id = (if channel_id row > 0 then js ''channel:'' @ show_int (channel_id row)
               else js ''channel:'' @ str_or (channel_name row) (js ''unknown'')),
      pn_label = str_or (channel_name row)
        (if channel_id row > 0 then js ''channel-'' @ show_int (channel_id row) else js ''Unknown''),
      pn_kind = ChannelKind\<rparr>"

fun NODE_BUILDERS :: "FlowNodeKind \<Rightarrow> FlowQuotaDataItem \<Rightarrow> (int \<Rightarrow> jsstr) option \<Rightarrow> FlowPathNode" where
  "NODE_BUILDERS UserKind row ctx = userNode row"
| "NODE_BUILDERS NodeKind row ctx = nodeNameNode row"
| "NODE_BUILDERS TokenKind row ctx = tokenNode row ctx"
| "NODE_BUILDERS GroupKind row ctx = groupNode row"
| "NODE_BUILDERS ModelKind row ctx = modelNode row"
| "NODE_BUILDERS ChannelKind row ctx = channelNode row"

fun ROLE_FLOW_STAGES :: "FlowRole \<Rightarrow> FlowNodeKind list" where
  "ROLE_FLOW_STAGES RootRole = [UserKind, NodeKind, TokenKind, GroupKind, ModelKind, ChannelKind]"
| "ROLE_FLOW_STAGES AdminRole = [UserKind, GroupKind, ModelKind, ChannelKind]"
| "ROLE_FLOW_STAGES UserRole = [TokenKind, GroupKind, ModelKind]"

definition MIN_FLOW_STAGES :: nat where
  "MIN_FLOW_STAGES = 2"

definition getFlowStages :: "FlowRole \<Rightarrow> FlowNodeKind list" where
  "getFlowStages r = ROLE_FLOW_STAGES r"

definition resolveVisibleStages :: "FlowRole \<Rightarrow> FlowNodeKind list option \<Rightarrow> FlowNodeKind list" where
  "resolveVisibleStages r visible =
     (let stages = getFlowStages r in
      case visible of
        None \<Rightarrow> stages
      | Some v \<Rightarrow>
          let filtered = filter (\<lambda>stage. stage \<in> set v) stages in
          if length filtered \<ge> MIN_FLOW_STAGES then filtered else stages)"

definition flowPathForStages ::
  "FlowQuotaDataItem \<Rightarrow> FlowNodeKind list \<Rightarrow> (int \<Rightarrow> jsstr) option \<Rightarrow> FlowPathNode list" where
  "flowPathForStages row stages ctx = map (\<lambda>stage. NODE_BUILDERS stage row ctx) stages"

subsection \<open>Colours\<close>

definition DEFAULT_FLOW_CHART_COLOR :: jsstr where
  "DEFAULT_FLOW_CHART_COLOR = js ''#1664FF''"

definition colorAt :: "flow_env \<Rightarrow> nat \<Rightarrow> jsstr list option \<Rightarrow> jsstr" where
  "colorAt env index pal =
     (let colors = (case pal of Some (c # cs) \<Rightarrow> c # cs | _ \<Rightarrow> getDashboardChartColors env (index + 1)) in
      if colors = [] then DEFAULT_FLOW_CHART_COLOR else colors ! (index mod length colors))"

definition colorPalette :: "flow_env \<Rightarrow> nat \<Rightarrow> jsstr list option \<Rightarrow> jsstr list" where
  "colorPalette env colorCount pal =
     (case pal of
        Some (c # cs) \<Rightarrow> c # cs
      | _ \<Rightarrow> let colors = getDashboardChartColors env colorCount in
             if colors \<noteq> [] then colors else [DEFAULT_FLOW_CHART_COLOR])"

definition stableColorMap :: "flow_env \<Rightarrow> jsstr list \<Rightarrow> jsstr list option \<Rightarrow> (jsstr \<times> jsstr) list" where
  "stableColorMap env keys pal =
     (let uniqueKeys = fold set_add keys [];
          colors = colorPalette env (length uniqueKeys) pal
      in map (\<lambda>i. (uniqueKeys ! i, colorAt env i (Some colors))) [0..<length uniqueKeys])"

subsection \<open>Filters\<close>

definition filterRows :: "FlowQuotaDataItem list \<Rightarrow> FlowBuildOptions \<Rightarrow> FlowQuotaDataItem list" where
  "filterRows rows options =
     (let selected = fold set_add (selectedUsers options) [] in
      if selected = [] then rows else filter (\<lambda>row. pn_id (userNode row) \<in> set selected) rows)"

definition normalizeSelectedNodeFilters ::
  "FlowNodeFilter list \<Rightarrow> FlowNodeKind list \<Rightarrow> (FlowNodeKind \<times> jsstr list) list" where
  "normalizeSelectedNodeFilters selected stages =
     fold (\<lambda>f filters.
         if filter_kind f \<notin> set stages then filters
         else upsert (filter_kind f) [] (set_add (filter_id f)) filters)
       selected []"

definition pathNodesByKind :: "FlowPathNode list \<Rightarrow> (FlowNodeKind \<times> jsstr list) list" where
  "pathNodesByKind path = fold (\<lambda>node. upsert (pn_kind node) [] (set_add (pn_id node))) path []"

definition pathMatchesNodeFilters ::
  "FlowPathNode list \<Rightarrow> (FlowNodeKind \<times> jsstr list) list \<Rightarrow> bool" where
  "pathMatchesNodeFilters path filters \<longleftrightarrow>
     filters = [] \<or>
     list_all (\<lambda>(kind, selectedIds).
         case map_of (pathNodesByKind path) kind of
           None \<Rightarrow> False
         | Some pathIds \<Rightarrow> list_ex (\<lambda>i. i \<in> set pathIds) selectedIds)
       filters"

definition filterRowsByNodes ::
  "FlowQuotaDataItem list \<Rightarrow> FlowNodeFilter list \<Rightarrow> FlowNodeKind list \<Rightarrow> (int \<Rightarrow> jsstr) option
     \<Rightarrow> FlowQuotaDataItem list" where
  "filterRowsByNodes rows selected stages ctx =
     (let filters = normalizeSelectedNodeFilters selected stages in
      if filters = [] then rows
      else filter (\<lambda>row. pathMatchesNodeFilters (flowPathForStages row stages ctx) filters) rows)"

definition selectedNodeFiltersExceptKind :: "FlowNodeFilter list \<Rightarrow> FlowNodeKind \<Rightarrow> FlowNodeFilter list" where
  "selectedNodeFiltersExceptKind selected kind = filter (\<lambda>f. filter_kind f \<noteq> kind) selected"

subsection \<open>Nodes and links\<close>

definition addNode ::
  "FlowPathNode \<Rightarrow> FlowMetrics \<Rightarrow> FlowMetric \<Rightarrow> jsstr \<Rightarrow> jsstr
     \<Rightarrow> (jsstr \<times> DashboardFlowNode) list \<Rightarrow> (jsstr \<times> DashboardFlowNode) list" where
  "addNode pathNode metrics metric color colorKey m =
     upsert (pn_id pathNode)
       \<lparr>n_id = pn_id pathNode, n_label = pn_label pathNode, n_kind = pn_kind pathNode, n_value = 0,
        n_requests = 0, n_quota = 0, n_tokens = 0, n_color = color, n_colorKey = colorKey,
        n_highlighted = None, n_dimmed = None\<rparr>
       (\<lambda>previous. previous\<lparr>n_value := n_value previous + metricValue metrics metric,
          n_requests := n_requests previous + m_requests metrics,
          n_quota := n_quota previous + m_quota metrics,
          n_tokens := n_tokens previous + m_tokens metrics\<rparr>)
       m"

definition pathLinkKey :: "FlowPathNode \<Rightarrow> FlowPathNode \<Rightarrow> jsstr" where
  "pathLinkKey source target = pn_id source @ [0] @ pn_id target"

definition linkStableKey :: "DashboardFlowLink \<Rightarrow> jsstr" where
  "linkStableKey link = l_source link @ [0] @ l_target link"

definition addLink ::
  "FlowPathNode \<Rightarrow> FlowPathNode \<Rightarrow> FlowMetrics \<Rightarrow> FlowMetric \<Rightarrow> jsstr \<Rightarrow> jsstr
     \<Rightarrow> (jsstr \<times> DashboardFlowLink) list \<Rightarrow> (jsstr \<times> DashboardFlowLink) list" where
  "addLink source target metrics metric color colorKey m =
     upsert (pn_id source @ [0] @ pn_id target)
       \<lparr>l_source = pn_id source, l_target = pn_id target, l_value = 0, l_requests = 0, l_quota = 0,
        l_tokens = 0, l_sourceLabel = pn_label source, l_targetLabel = pn_label target, l_color = color,
        l_colorKey = colorKey, l_share = 0, l_highlighted = None, l_dimmed = None\<rparr>
       (\<lambda>previous. previous\<lparr>l_value := l_value previous + metricValue metrics metric,
          l_requests := l_requests previous + m_requests metrics,
          l_quota := l_quota previous + m_quota metrics,
          l_tokens := l_tokens previous + m_tokens metrics\<rparr>)
       m"

definition byValueThenLabel :: "flow_env \<Rightarrow> DashboardFlowNode \<Rightarrow> DashboardFlowNode \<Rightarrow> int" where
  "byValueThenLabel env a b =
     or_else (descending (n_value a) (n_value b)) (localeCompare env (n_label a) (n_label b))"

definition buildSummary :: "FlowQuotaDataItem list \<Rightarrow> FlowMetrics" where
  "buildSummary rows =
     foldl (\<lambda>summary row.
         let metrics = rowMetrics row in
         \<lparr>m_quota = m_quota summary + m_quota metrics, m_tokens = m_tokens summary + m_tokens metrics,
          m_requests = m_requests summary + m_requests metrics\<rparr>)
       \<lparr>m_quota = 0, m_tokens = 0, m_requests = 0\<rparr> rows"

definition normalizeTopNodeLimit :: "jsnum option \<Rightarrow> nat option" where
  "normalizeTopNodeLimit limit =
     (case limit of
        Some (Fin r) \<Rightarrow> if \<lfloor>r\<rfloor> > 0 then Some (nat \<lfloor>r\<rfloor>) else None
      | _ \<Rightarrow> None)"

definition otherFlowNode :: "FlowNodeKind \<Rightarrow> (FlowNodeKind \<Rightarrow> jsstr) option \<Rightarrow> FlowPathNode" where
  "otherFlowNode kind labeler =
     \<lparr>pn_id = OTHER_FLOW_NODE_IDS kind,
      pn_label = (case labeler of Some f \<Rightarrow> f kind | None \<Rightarrow> DEFAULT_OTHER_FLOW_NODE_LABELS kind),
      pn_kind = kind\<rparr>"

record FlowNodeRank =
  rank_node :: FlowPathNode
  rank_value :: rat

definition rank_cmp :: "flow_env \<Rightarrow> FlowNodeRank \<Rightarrow> FlowNodeRank \<Rightarrow> int" where
  "rank_cmp env a b =
     or_else (descending (rank_value a) (rank_value b))
       (or_else (localeCompare env (pn_label (rank_node a)) (pn_label (rank_node b)))
         (localeCompare env (pn_id (rank_node a)) (pn_id (rank_node b))))"

text \<open>The totals per stage; a node whose kind is not a stage is skipped.\<close>

definition add_rank :: "FlowMetric \<Rightarrow> FlowQuotaDataItem \<Rightarrow> FlowPathNode
    \<Rightarrow> (FlowNodeKind \<times> (jsstr \<times> FlowNodeRank) list) list \<Rightarrow> (FlowNodeKind \<times> (jsstr \<times> FlowNodeRank) list) list" where
  "add_rank metric row node totals =
     (case map_of totals (pn_kind node) of
        None \<Rightarrow> totals
      | Some stageTotals \<Rightarrow>
          AList.update (pn_kind node)
            (upsert (pn_id node) \<lparr>rank_node = node, rank_value = 0\<rparr>
               (\<lambda>c. c\<lparr>rank_value := rank_value c + metricValue (rowMetrics row) metric\<rparr>) stageTotals)
            totals)"

definition stage_totals ::
  "FlowQuotaDataItem list \<Rightarrow> FlowMetric \<Rightarrow> FlowNodeKind list \<Rightarrow> (int \<Rightarrow> jsstr) option
     \<Rightarrow> (FlowNodeKind \<times> (jsstr \<times> FlowNodeRank) list) list" where
  "stage_totals rows metric stages ctx =
     fold (\<lambda>row. fold (add_rank metric row) (flowPathForStages row stages ctx)) rows
       (fold (\<lambda>stage. AList.update stage []) stages [])"

definition buildTopNodeSets ::
  "flow_env \<Rightarrow> FlowQuotaDataItem list \<Rightarrow> FlowMetric \<Rightarrow> FlowNodeKind list \<Rightarrow> nat option
     \<Rightarrow> (int \<Rightarrow> jsstr) option \<Rightarrow> (FlowNodeKind \<times> jsstr list) list option" where
  "buildTopNodeSets env rows metric stages limit ctx =
     (case limit of
        None \<Rightarrow> None
      | Some n \<Rightarrow>
          Some (map (\<lambda>(kind, totals).
                  (kind, map (pn_id \<circ> rank_node) (take n (js_sort (rank_cmp env) (map snd totals)))))
                (stage_totals rows metric stages ctx)))"

definition isTopFlowNode :: "FlowPathNode \<Rightarrow> (FlowNodeKind \<times> jsstr list) list \<Rightarrow> bool" where
  "isTopFlowNode node topNodeSets =
     (case map_of topNodeSets (pn_kind node) of None \<Rightarrow> True | Some ids \<Rightarrow> pn_id node \<in> set ids)"

definition applyTopNodeLimit ::
  "FlowPathNode list \<Rightarrow> (FlowNodeKind \<times> jsstr list) list option \<Rightarrow> FlowOverflowMode
     \<Rightarrow> (FlowNodeKind \<Rightarrow> jsstr) option \<Rightarrow> FlowPathNode list option" where
  "applyTopNodeLimit path topNodeSets mode labeler =
     (case topNodeSets of
        None \<Rightarrow> Some path
      | Some sets \<Rightarrow>
          if \<not> list_ex (\<lambda>node. \<not> isTopFlowNode node sets) path then Some path
          else if mode = HideOverflow then None
          else Some (map (\<lambda>node. if isTopFlowNode node sets then node
                                 else otherFlowNode (pn_kind node) labeler) path))"

subsection \<open>Highlighting and masking\<close>

fun path_links :: "FlowPathNode list \<Rightarrow> (FlowPathNode \<times> FlowPathNode) list" where
  "path_links (a # b # path) = (a, b) # path_links (b # path)"
| "path_links _ = []"

definition pathContainsFlowNode :: "FlowPathNode list \<Rightarrow> FlowNodeFilter \<Rightarrow> bool" where
  "pathContainsFlowNode path f \<longleftrightarrow> list_ex (\<lambda>node. pn_kind node = filter_kind f \<and> pn_id node = filter_id f) path"

definition pathContainsFlowLink :: "FlowPathNode list \<Rightarrow> FlowLinkSelection \<Rightarrow> bool" where
  "pathContainsFlowLink path link \<longleftrightarrow>
     list_ex (\<lambda>(a, b). pn_id a = sel_source link \<and> pn_id b = sel_target link) (path_links path)"

definition matchesPath :: "FlowNodeFilter option \<Rightarrow> FlowLinkSelection option \<Rightarrow> FlowPathNode list \<Rightarrow> bool" where
  "matchesPath active link path \<longleftrightarrow>
     (case link of
        Some l \<Rightarrow> pathContainsFlowLink path l
      | None \<Rightarrow> (case active of Some n \<Rightarrow> pathContainsFlowNode path n | None \<Rightarrow> False))"

definition buildFlowHighlightSets ::
  "(FlowPathNode list \<times> FlowMetrics) list \<Rightarrow> FlowNodeFilter option \<Rightarrow> FlowLinkSelection option
     \<Rightarrow> FlowNodeKind list \<Rightarrow> (jsstr list \<times> jsstr list) option" where
  "buildFlowHighlightSets prepared active link stages =
     (let nodeActive = (case active of Some n \<Rightarrow> filter_kind n \<in> set stages | None \<Rightarrow> False) in
      if \<not> nodeActive \<and> link = None then None
      else
        let paths = filter (matchesPath active link) (map fst prepared);
            nodes = fold (\<lambda>path. fold (\<lambda>node. set_add (pn_id node)) path) paths [];
            links = fold (\<lambda>path. fold (\<lambda>(a, b). set_add (pathLinkKey a b)) (path_links path)) paths []
        in if nodes = [] then None else Some (nodes, links))"

definition FLOW_MASK_TEXT :: jsstr where
  "FLOW_MASK_TEXT = [8226, 8226, 8226, 8226]"

definition maskFlowLabel :: "jsstr \<Rightarrow> jsstr" where
  "maskFlowLabel label = (if label = [] then label else FLOW_MASK_TEXT)"

definition must_mask :: "DashboardFlowNode \<Rightarrow> bool" where
  "must_mask node \<longleftrightarrow> n_kind node \<in> set SENSITIVE_FLOW_KINDS \<and> n_id node \<notin> set OTHER_FLOW_NODE_ID_SET"

definition masked_by_id :: "(jsstr \<times> DashboardFlowNode) list \<Rightarrow> (jsstr \<times> jsstr) list" where
  "masked_by_id nodes = fold (\<lambda>e m.
     if must_mask (snd e) then AList.update (n_id (snd e)) (maskFlowLabel (n_label (snd e))) m else m) nodes []"

definition maskFlowGraphLabels ::
  "(jsstr \<times> DashboardFlowNode) list \<Rightarrow> (jsstr \<times> DashboardFlowLink) list
     \<Rightarrow> (jsstr \<times> DashboardFlowNode) list \<times> (jsstr \<times> DashboardFlowLink) list" where
  "maskFlowGraphLabels nodes links =
     (let maskedById = masked_by_id nodes;
          nodes' = map (\<lambda>(k, node). (k, if must_mask node
              then node\<lparr>n_label := maskFlowLabel (n_label node)\<rparr> else node)) nodes
      in if maskedById = [] then (nodes', links)
         else (nodes', map (\<lambda>(k, link). (k,
           let link1 = (case map_of maskedById (l_source link) of
                          Some t \<Rightarrow> link\<lparr>l_sourceLabel := t\<rparr> | None \<Rightarrow> link)
           in case map_of maskedById (l_target link) of
                Some t \<Rightarrow> link1\<lparr>l_targetLabel := t\<rparr> | None \<Rightarrow> link1)) links))"

definition applyFlowHighlights ::
  "(jsstr list \<times> jsstr list) option \<Rightarrow> (jsstr \<times> DashboardFlowNode) list \<times> (jsstr \<times> DashboardFlowLink) list
     \<Rightarrow> (jsstr \<times> DashboardFlowNode) list \<times> (jsstr \<times> DashboardFlowLink) list" where
  "applyFlowHighlights sets g =
     (case sets of
        None \<Rightarrow> g
      | Some (hn, hl) \<Rightarrow>
          (map (\<lambda>(k, node). (k, node\<lparr>n_highlighted := Some (n_id node \<in> set hn),
                                      n_dimmed := Some (n_id node \<notin> set hn)\<rparr>)) (fst g),
           map (\<lambda>(k, link). (k, link\<lparr>l_highlighted := Some (linkStableKey link \<in> set hl),
                                      l_dimmed := Some (linkStableKey link \<notin> set hl)\<rparr>)) (snd g)))"

subsection \<open>The graph\<close>

definition preparePaths ::
  "flow_env \<Rightarrow> FlowQuotaDataItem list \<Rightarrow> FlowMetric \<Rightarrow> FlowNodeKind list \<Rightarrow> FlowBuildOptions
     \<Rightarrow> (FlowPathNode list \<times> FlowMetrics) list" where
  "preparePaths env rows metric stages options =
     (let topNodeSets = buildTopNodeSets env rows metric stages
              (normalizeTopNodeLimit (topNodeLimit options)) (deletedLabel options)
      in List.map_filter (\<lambda>row.
           map_option (\<lambda>path. (path, rowMetrics row))
             (applyTopNodeLimit (flowPathForStages row stages (deletedLabel options)) topNodeSets
                (overflowMode options) (otherNodeLabel options))) rows)"

definition root_ids :: "(FlowPathNode list \<times> FlowMetrics) list \<Rightarrow> jsstr list" where
  "root_ids prepared = map (\<lambda>(path, m). pn_id (hd path)) (filter (\<lambda>(path, m). path \<noteq> [] \<and> pn_id (hd path) \<noteq> []) prepared)"

definition add_path ::
  "flow_env \<Rightarrow> FlowMetric \<Rightarrow> jsstr list option \<Rightarrow> (jsstr \<times> jsstr) list \<Rightarrow> FlowPathNode list \<times> FlowMetrics
     \<Rightarrow> (jsstr \<times> DashboardFlowNode) list \<times> (jsstr \<times> DashboardFlowLink) list
     \<Rightarrow> (jsstr \<times> DashboardFlowNode) list \<times> (jsstr \<times> DashboardFlowLink) list" where
  "add_path env metric pal colors prepared g =
     (case prepared of
        ([], metrics) \<Rightarrow> g
      | (root_node # rest, metrics) \<Rightarrow>
          let color = (case map_of colors (pn_id root_node) of Some c \<Rightarrow> c | None \<Rightarrow> colorAt env 0 pal) in
          (fold (\<lambda>node. addNode node metrics metric color (pn_id root_node)) (root_node # rest) (fst g),
           fold (\<lambda>(a, b). addLink a b metrics metric color (pn_id root_node)) (path_links (root_node # rest)) (snd g)))"

definition link_order :: "flow_env \<Rightarrow> DashboardFlowLink \<Rightarrow> DashboardFlowLink \<Rightarrow> int" where
  "link_order env a b =
     or_else (localeCompare env (l_source a) (l_source b)) (localeCompare env (l_target a) (l_target b))"

definition set_shares :: "jsstr list \<Rightarrow> DashboardFlowLink list \<Rightarrow> DashboardFlowLink list" where
  "set_shares firstStepSources links =
     (let t = sum_list (map l_value (filter (\<lambda>l. l_source l \<in> set firstStepSources) links))
      in map (\<lambda>l. l\<lparr>l_share := (if t > 0 then l_value l / t else 0)\<rparr>) links)"

definition buildFlowGraph ::
  "flow_env \<Rightarrow> FlowQuotaDataItem list \<Rightarrow> FlowMetric \<Rightarrow> FlowBuildOptions
     \<Rightarrow> DashboardFlowNode list \<times> DashboardFlowLink list" where
  "buildFlowGraph env rows metric options =
     (let stages = resolveVisibleStages (role options) (visibleStages options);
          prepared = preparePaths env rows metric stages options;
          colors = stableColorMap env (js_sort (localeCompare env) (root_ids prepared)) (palette options);
          g1 = fold (add_path env metric (palette options) colors) prepared ([], []);
          g2 = (if maskSensitive options then maskFlowGraphLabels (fst g1) (snd g1) else g1);
          g3 = applyFlowHighlights
                 (buildFlowHighlightSets prepared (activeNode options) (activeLink options) stages) g2;
          flowLinks = js_sort (link_order env) (map snd (snd g3))
      in (js_sort (byValueThenLabel env) (map snd (fst g3)), set_shares (root_ids prepared) flowLinks))"

subsection \<open>Filter options\<close>

record FlowUserFilterOption =
  uo_value :: jsstr
  uo_label :: jsstr
  uo_valueLabel :: jsstr
  uo_valueRaw :: rat
  uo_color :: jsstr

record FlowNodeFilterOption =
  no_kind :: FlowNodeKind
  no_value :: jsstr
  no_label :: jsstr
  no_valueLabel :: jsstr
  no_valueRaw :: rat
  no_color :: jsstr

definition buildUserFilterOptions ::
  "flow_env \<Rightarrow> FlowQuotaDataItem list \<Rightarrow> FlowMetric \<Rightarrow> jsstr list option \<Rightarrow> FlowUserFilterOption list" where
  "buildUserFilterOptions env rows metric pal =
     (let colors = stableColorMap env (js_sort (localeCompare env) (map (pn_id \<circ> userNode) rows)) pal;
          users = fold (\<lambda>row users.
              if user_id row = 0 \<and> username row = [] then users
              else
                let u = userNode row in
                upsert (pn_id u)
                  (pn_label u, 0 :: rat, case map_of colors (pn_id u) of Some c \<Rightarrow> c | None \<Rightarrow> colorAt env 0 pal)
                  (\<lambda>(l, v, c). (l, v + metricValue (rowMetrics row) metric, c)) users) rows []
      in js_sort (\<lambda>a b. or_else (descending (uo_valueRaw a) (uo_valueRaw b)) (localeCompare env (uo_label a) (uo_label b)))
           (map (\<lambda>(i, l, v, c). \<lparr>uo_value = i, uo_label = l, uo_valueLabel = formatNumber env v,
                                  uo_valueRaw = v, uo_color = c\<rparr>) users))"

definition nodeFilterKey :: "FlowPathNode \<Rightarrow> jsstr" where
  "nodeFilterKey node = js (kind_name (pn_kind node)) @ [0] @ pn_id node"

definition option_totals ::
  "FlowQuotaDataItem list \<Rightarrow> FlowMetric \<Rightarrow> FlowNodeKind \<Rightarrow> (int \<Rightarrow> jsstr) option \<Rightarrow> (jsstr \<times> FlowNodeRank) list" where
  "option_totals rows metric stage ctx =
     fold (\<lambda>row.
         let node = NODE_BUILDERS stage row ctx in
         upsert (nodeFilterKey node) \<lparr>rank_node = node, rank_value = 0\<rparr>
           (\<lambda>c. c\<lparr>rank_value := rank_value c + metricValue (rowMetrics row) metric\<rparr>))
       rows []"

definition stage_index :: "FlowNodeKind list \<Rightarrow> FlowNodeKind \<Rightarrow> nat" where
  "stage_index stages k = (case map_of (rev (zip stages [0..<length stages])) k of Some i \<Rightarrow> i | None \<Rightarrow> 0)"

definition option_order ::
  "flow_env \<Rightarrow> FlowNodeKind list \<Rightarrow> FlowNodeFilterOption \<Rightarrow> FlowNodeFilterOption \<Rightarrow> int" where
  "option_order env stages a b =
     or_else (int (stage_index stages (no_kind a)) - int (stage_index stages (no_kind b)))
       (or_else (descending (no_valueRaw a) (no_valueRaw b))
         (or_else (localeCompare env (no_label a) (no_label b)) (localeCompare env (no_value a) (no_value b))))"

definition buildNodeFilterOptions ::
  "flow_env \<Rightarrow> FlowQuotaDataItem list \<Rightarrow> FlowMetric \<Rightarrow> FlowRole \<Rightarrow> FlowNodeKind list option
     \<Rightarrow> jsstr list option \<Rightarrow> (int \<Rightarrow> jsstr) option \<Rightarrow> FlowNodeFilter list \<Rightarrow> FlowNodeFilterOption list" where
  "buildNodeFilterOptions env rows metric r visible pal ctx selected =
     (let stages = resolveVisibleStages r visible;
          colorIds = fold (\<lambda>row. fold (\<lambda>node. set_add (pn_id node)) (flowPathForStages row stages ctx)) rows [];
          colors = stableColorMap env (js_sort (localeCompare env) colorIds) pal;
          options = concat (map (\<lambda>stage.
              map (\<lambda>(k, rank). \<lparr>no_kind = pn_kind (rank_node rank), no_value = pn_id (rank_node rank),
                     no_label = pn_label (rank_node rank), no_valueLabel = formatNumber env (rank_value rank),
                     no_valueRaw = rank_value rank,
                     no_color = (case map_of colors (pn_id (rank_node rank)) of
                                   Some c \<Rightarrow> c | None \<Rightarrow> colorAt env 0 pal)\<rparr>)
                (option_totals
                   (filterRowsByNodes rows (selectedNodeFiltersExceptKind selected stage) stages ctx)
                   metric stage ctx)) stages)
      in js_sort (option_order env stages) options)"

record ProcessedFlowData =
  summary :: FlowMetrics
  flow :: "DashboardFlowNode list \<times> DashboardFlowLink list"
  filter_users :: "FlowUserFilterOption list"
  filter_nodes :: "FlowNodeFilterOption list"

definition buildDashboardFlowData ::
  "flow_env \<Rightarrow> FlowQuotaDataItem list \<Rightarrow> FlowMetric \<Rightarrow> FlowBuildOptions \<Rightarrow> ProcessedFlowData" where
  "buildDashboardFlowData env rows metric options =
     (let stages = resolveVisibleStages (role options) (visibleStages options);
          userFilteredRows = filterRows rows options;
          filteredRows = filterRowsByNodes userFilteredRows (selectedNodes options) stages (deletedLabel options)
      in \<lparr>summary = buildSummary filteredRows,
          flow = buildFlowGraph env filteredRows metric options,
          filter_users = buildUserFilterOptions env rows metric (palette options),
          filter_nodes = buildNodeFilterOptions env userFilteredRows metric (role options)
            (visibleStages options) (palette options) (deletedLabel options) (selectedNodes options)\<rparr>)"

subsection \<open>Drawing order\<close>

definition flag :: "bool option \<Rightarrow> bool" where
  "flag b = (b = Some True)"

text \<open>
  \<open>Number(undefined)\<close> is \<open>NaN\<close>, which \<open>||\<close> skips, so that a flag that is not set on both sides
  does not order the links.
\<close>

definition flag_cmp :: "bool option \<Rightarrow> bool option \<Rightarrow> int" where
  "flag_cmp a b = (case (a, b) of (Some x, Some y) \<Rightarrow> of_bool x - of_bool y | _ \<Rightarrow> 0)"

definition byLinkDrawPriority :: "flow_env \<Rightarrow> DashboardFlowLink \<Rightarrow> DashboardFlowLink \<Rightarrow> int" where
  "byLinkDrawPriority env a b =
     or_else (flag_cmp (l_dimmed a) (l_dimmed b))
       (or_else (flag_cmp (l_highlighted b) (l_highlighted a))
         (or_else (descending (l_value a) (l_value b))
           (localeCompare env (linkStableKey a) (linkStableKey b))))"

definition zIndex :: "nat \<Rightarrow> DashboardFlowLink \<Rightarrow> int" where
  "zIndex index link =
     (if flag (l_highlighted link) then 1000000 + int index
      else if flag (l_dimmed link) then int index
      else 100000 + int index)"

definition sankey_links :: "flow_env \<Rightarrow> DashboardFlowLink list \<Rightarrow> (DashboardFlowLink \<times> int) list" where
  "sankey_links env links =
     (let drawn = js_sort (byLinkDrawPriority env) (filter (\<lambda>l. l_value l > 0) links)
      in map (\<lambda>i. (drawn ! i, zIndex i (drawn ! i))) [0..<length drawn])"

section \<open>Lemmas\<close>

subsection \<open>Paths\<close>

text \<open>The identifier of a node starts with the name of its kind, which it therefore determines.\<close>

definition id_of_kind :: "FlowNodeKind \<Rightarrow> jsstr \<Rightarrow> bool" where
  "id_of_kind k i \<longleftrightarrow> (\<exists>rest. i = js (kind_name k) @ 58 # rest)"

lemma id_of_kind_inj: "id_of_kind k i \<Longrightarrow> id_of_kind k' i \<Longrightarrow> k = k'"
  by (cases k; cases k') (auto simp: id_of_kind_def js_def)

definition tagged :: "FlowPathNode \<Rightarrow> bool" where
  "tagged n \<longleftrightarrow> id_of_kind (pn_kind n) (pn_id n)"

lemma NODE_BUILDERS_kind [simp]: "pn_kind (NODE_BUILDERS k row ctx) = k"
  by (cases k) (simp_all add: userNode_def nodeNameNode_def tokenNode_def groupNode_def modelNode_def
      channelNode_def Let_def)

lemma NODE_BUILDERS_tagged: "tagged (NODE_BUILDERS k row ctx)"
  by (cases k) (auto simp: tagged_def id_of_kind_def userNode_def nodeNameNode_def tokenNode_def groupNode_def
      modelNode_def channelNode_def js_def Let_def)

lemma otherFlowNode_tagged: "tagged (otherFlowNode k l)" "pn_kind (otherFlowNode k l) = k"
  by (auto simp: tagged_def id_of_kind_def otherFlowNode_def OTHER_FLOW_NODE_IDS_def js_def)

definition good_path :: "FlowNodeKind list \<Rightarrow> FlowPathNode list \<Rightarrow> bool" where
  "good_path stages path \<longleftrightarrow> map pn_kind path = stages \<and> list_all tagged path"

lemma good_path_flowPathForStages: "good_path stages (flowPathForStages row stages ctx)"
  by (simp add: good_path_def flowPathForStages_def list_all_iff NODE_BUILDERS_tagged o_def)

lemma good_path_applyTopNodeLimit:
  "good_path stages path \<Longrightarrow> applyTopNodeLimit path sets mode l = Some path' \<Longrightarrow> good_path stages path'"
  by (auto simp: applyTopNodeLimit_def good_path_def list_all_iff otherFlowNode_tagged
      split: option.splits if_splits)

lemma good_path_prepared:
  "p \<in> set (preparePaths env rows metric stages options) \<Longrightarrow> good_path stages (fst p)"
  by (auto simp: preparePaths_def in_map_filter Let_def
      dest!: good_path_applyTopNodeLimit[OF good_path_flowPathForStages])

lemma resolveVisibleStages_distinct: "distinct (resolveVisibleStages r v)"
proof -
  have "distinct (getFlowStages r)" by (cases r) (simp_all add: getFlowStages_def)
  then show ?thesis by (simp add: resolveVisibleStages_def Let_def split: option.splits)
qed

lemma resolveVisibleStages_length: "length (resolveVisibleStages r v) \<ge> 2"
proof -
  have "length (getFlowStages r) \<ge> 2" by (cases r) (simp_all add: getFlowStages_def)
  then show ?thesis by (simp add: resolveVisibleStages_def MIN_FLOW_STAGES_def Let_def split: option.splits)
qed

lemma path_links_fst: "map fst (path_links path) = butlast path"
  by (induction path rule: path_links.induct) auto

lemma path_links_snd: "map snd (path_links path) = tl path"
  by (induction path rule: path_links.induct) auto

subsection \<open>Adding up\<close>

definition nodes_ok :: "(jsstr \<times> DashboardFlowNode) list \<Rightarrow> bool" where
  "nodes_ok m \<longleftrightarrow> distinct (map fst m) \<and> (\<forall>k v. map_of m k = Some v \<longrightarrow> n_id v = k \<and> id_of_kind (n_kind v) k)"

definition links_ok :: "(jsstr \<times> DashboardFlowLink) list \<Rightarrow> bool" where
  "links_ok m \<longleftrightarrow> distinct (map fst m)
     \<and> (\<forall>k v. map_of m k = Some v \<longrightarrow> k = linkStableKey v \<and> 0 \<notin> set (l_source v))"

lemma nodes_ok_addNode: "nodes_ok m \<Longrightarrow> tagged n \<Longrightarrow> nodes_ok (addNode n M metric c ck m)"
  by (auto simp: nodes_ok_def addNode_def distinct_upsert map_of_upsert tagged_def split: option.splits if_splits)

lemma links_ok_addLink: "links_ok m \<Longrightarrow> 0 \<notin> set (pn_id a) \<Longrightarrow> links_ok (addLink a b M metric c ck m)"
  by (auto simp: links_ok_def addLink_def distinct_upsert map_of_upsert linkStableKey_def
      split: option.splits if_splits)

lemma addNode_total:
  assumes "nodes_ok m" "tagged n"
  shows "map_total (\<lambda>v. q (n_id v) (n_kind v)) n_value (addNode n M metric c ck m) =
    map_total (\<lambda>v. q (n_id v) (n_kind v)) n_value m + (if q (pn_id n) (pn_kind n) then metricValue M metric else 0)"
  unfolding addNode_def
proof (subst map_total_upsert[where x = "metricValue M metric"])
  show "distinct (map fst m)" using assms(1) by (simp add: nodes_ok_def)
  fix v
  assume "map_of m (pn_id n) = Some v"
  with assms have "n_id v = pn_id n" "id_of_kind (n_kind v) (pn_id n)" "id_of_kind (pn_kind n) (pn_id n)"
    unfolding nodes_ok_def tagged_def by blast+
  moreover from this have "n_kind v = pn_kind n" using id_of_kind_inj by blast
  ultimately show "q (n_id v) (n_kind v) = q (n_id \<lparr>n_id = pn_id n, n_label = pn_label n, n_kind = pn_kind n, n_value = 0,
        n_requests = 0, n_quota = 0, n_tokens = 0, n_color = c, n_colorKey = ck,
        n_highlighted = None, n_dimmed = None\<rparr>) (n_kind \<lparr>n_id = pn_id n, n_label = pn_label n,
        n_kind = pn_kind n, n_value = 0, n_requests = 0, n_quota = 0, n_tokens = 0, n_color = c,
        n_colorKey = ck, n_highlighted = None, n_dimmed = None\<rparr>)" by simp
qed simp_all

lemma addLink_total:
  assumes "links_ok m" "0 \<notin> set (pn_id a)"
  shows "map_total (\<lambda>v. q (l_source v) (l_target v)) l_value (addLink a b M metric c ck m) =
    map_total (\<lambda>v. q (l_source v) (l_target v)) l_value m + (if q (pn_id a) (pn_id b) then metricValue M metric else 0)"
proof -
  have "l_source v = pn_id a \<and> l_target v = pn_id b" if "map_of m (pn_id a @ [0] @ pn_id b) = Some v" for v
  proof -
    have "pn_id a @ 0 # pn_id b = l_source v @ 0 # l_target v" "0 \<notin> set (l_source v)"
      using that assms(1) by (auto simp: links_ok_def linkStableKey_def)
    then show ?thesis using sep_split[of 0 "pn_id a" "l_source v"] assms(2) by metis
  qed
  moreover have "distinct (map fst m)" using assms(1) by (simp add: links_ok_def)
  ultimately show ?thesis unfolding addLink_def
    by (subst map_total_upsert[where x = "metricValue M metric"]) auto
qed

lemma fold_addNode:
  "nodes_ok m \<Longrightarrow> list_all tagged path \<Longrightarrow>
     nodes_ok (fold (\<lambda>n. addNode n M metric c ck) path m)
     \<and> map_total (\<lambda>v. q (n_id v) (n_kind v)) n_value (fold (\<lambda>n. addNode n M metric c ck) path m) =
       map_total (\<lambda>v. q (n_id v) (n_kind v)) n_value m
       + sum_list (map (\<lambda>n. if q (pn_id n) (pn_kind n) then metricValue M metric else 0) path)"
  by (induction path arbitrary: m) (auto simp: nodes_ok_addNode addNode_total)

definition nul_free :: "FlowPathNode list \<Rightarrow> bool" where
  "nul_free path \<longleftrightarrow> list_all (\<lambda>n. 0 \<notin> set (pn_id n)) path"

lemma fold_addLink:
  "links_ok m \<Longrightarrow> list_all (\<lambda>(a, b). 0 \<notin> set (pn_id a)) ls \<Longrightarrow>
     links_ok (fold (\<lambda>(a, b). addLink a b M metric c ck) ls m)
     \<and> map_total (\<lambda>v. q (l_source v) (l_target v)) l_value (fold (\<lambda>(a, b). addLink a b M metric c ck) ls m) =
       map_total (\<lambda>v. q (l_source v) (l_target v)) l_value m
       + sum_list (map (\<lambda>(a, b). if q (pn_id a) (pn_id b) then metricValue M metric else 0) ls)"
  by (induction ls arbitrary: m) (auto simp: links_ok_addLink addLink_total)

lemma nul_free_links: "nul_free path \<Longrightarrow> list_all (\<lambda>(a, b). 0 \<notin> set (pn_id a)) (path_links path)"
  by (induction path rule: path_links.induct) (auto simp: nul_free_def)

abbreviation node_sum :: "(jsstr \<Rightarrow> FlowNodeKind \<Rightarrow> bool) \<Rightarrow> FlowMetric \<Rightarrow> FlowPathNode list \<times> FlowMetrics \<Rightarrow> rat" where
  "node_sum q metric p \<equiv>
     sum_list (map (\<lambda>n. if q (pn_id n) (pn_kind n) then metricValue (snd p) metric else 0) (fst p))"

abbreviation link_sum :: "(jsstr \<Rightarrow> jsstr \<Rightarrow> bool) \<Rightarrow> FlowMetric \<Rightarrow> FlowPathNode list \<times> FlowMetrics \<Rightarrow> rat" where
  "link_sum q metric p \<equiv>
     sum_list (map (\<lambda>(a, b). if q (pn_id a) (pn_id b) then metricValue (snd p) metric else 0) (path_links (fst p)))"

lemma add_path_nodes:
  assumes "nodes_ok (fst g)" "list_all tagged (fst p)"
  shows "nodes_ok (fst (add_path env metric pal colors p g))
     \<and> map_total (\<lambda>v. q (n_id v) (n_kind v)) n_value (fst (add_path env metric pal colors p g)) =
       map_total (\<lambda>v. q (n_id v) (n_kind v)) n_value (fst g) + node_sum q metric p"
proof (cases p)
  case (Pair path M)
  show ?thesis
  proof (cases path)
    case Nil
    with Pair assms show ?thesis by (simp add: add_path_def)
  next
    case (Cons a rest)
    show ?thesis
      using fold_addNode[OF assms, of "snd p" metric] Pair Cons
      by (simp only: add_path_def prod.case list.case Let_def fst_conv snd_conv)
  qed
qed

lemma add_path_links:
  assumes "links_ok (snd g)" "nul_free (fst p)"
  shows "links_ok (snd (add_path env metric pal colors p g))
     \<and> map_total (\<lambda>v. q (l_source v) (l_target v)) l_value (snd (add_path env metric pal colors p g)) =
       map_total (\<lambda>v. q (l_source v) (l_target v)) l_value (snd g) + link_sum q metric p"
proof (cases p)
  case (Pair path M)
  show ?thesis
  proof (cases path)
    case Nil
    with Pair assms show ?thesis by (simp add: add_path_def)
  next
    case (Cons a rest)
    show ?thesis
      using fold_addLink[OF assms(1) nul_free_links[OF assms(2)], of "snd p" metric] Pair Cons
      by (simp only: add_path_def prod.case list.case Let_def fst_conv snd_conv)
  qed
qed

lemma fold_add_path_nodes:
  "nodes_ok (fst g) \<Longrightarrow> \<forall>p \<in> set ps. list_all tagged (fst p) \<Longrightarrow>
     nodes_ok (fst (fold (add_path env metric pal colors) ps g))
     \<and> map_total (\<lambda>v. q (n_id v) (n_kind v)) n_value (fst (fold (add_path env metric pal colors) ps g)) =
       map_total (\<lambda>v. q (n_id v) (n_kind v)) n_value (fst g) + sum_list (map (node_sum q metric) ps)"
proof (induction ps arbitrary: g)
  case (Cons p ps)
  then have p: "list_all tagged (fst p)" and ps: "\<forall>p \<in> set ps. list_all tagged (fst p)" by simp_all
  note a = add_path_nodes[OF Cons.prems(1) p, of env metric pal colors q]
  from Cons.IH[OF conjunct1[OF a] ps] a show ?case by simp
qed simp

lemma fold_add_path_links:
  "links_ok (snd g) \<Longrightarrow> \<forall>p \<in> set ps. nul_free (fst p) \<Longrightarrow>
     links_ok (snd (fold (add_path env metric pal colors) ps g))
     \<and> map_total (\<lambda>v. q (l_source v) (l_target v)) l_value (snd (fold (add_path env metric pal colors) ps g)) =
       map_total (\<lambda>v. q (l_source v) (l_target v)) l_value (snd g) + sum_list (map (link_sum q metric) ps)"
proof (induction ps arbitrary: g)
  case (Cons p ps)
  then have p: "nul_free (fst p)" and ps: "\<forall>p \<in> set ps. nul_free (fst p)" by simp_all
  note a = add_path_links[OF Cons.prems(1) p, of env metric pal colors q]
  from Cons.IH[OF conjunct1[OF a] ps] a show ?case by simp
qed simp

lemma nodes_ok_Nil [simp]: "nodes_ok []" and links_ok_Nil [simp]: "links_ok []"
  by (simp_all add: nodes_ok_def links_ok_def)

lemma map_total_Nil [simp]: "map_total Q val [] = 0"
  by (simp add: map_total_def)

subsection \<open>The finished graph\<close>

definition node_key :: "DashboardFlowNode \<Rightarrow> jsstr \<times> FlowNodeKind \<times> rat" where
  "node_key v = (n_id v, n_kind v, n_value v)"

definition link_key :: "DashboardFlowLink \<Rightarrow> jsstr \<times> jsstr \<times> rat" where
  "link_key l = (l_source l, l_target l, l_value l)"

lemma mask_keys:
  "map (node_key \<circ> snd) (fst (maskFlowGraphLabels nodes links)) = map (node_key \<circ> snd) nodes"
  "map (link_key \<circ> snd) (snd (maskFlowGraphLabels nodes links)) = map (link_key \<circ> snd) links"
  by (auto simp: maskFlowGraphLabels_def node_key_def link_key_def Let_def split: option.splits)

lemma highlight_keys:
  "map (node_key \<circ> snd) (fst (applyFlowHighlights sets g)) = map (node_key \<circ> snd) (fst g)"
  "map (link_key \<circ> snd) (snd (applyFlowHighlights sets g)) = map (link_key \<circ> snd) (snd g)"
  by (auto simp: applyFlowHighlights_def node_key_def link_key_def split: option.splits)

lemma share_keys: "map link_key (set_shares ids links) = map link_key links"
  by (simp add: set_shares_def link_key_def Let_def)

text \<open>The map of nodes and links before masking, highlighting and sorting.\<close>

definition raw_graph ::
  "flow_env \<Rightarrow> FlowQuotaDataItem list \<Rightarrow> FlowMetric \<Rightarrow> FlowBuildOptions
     \<Rightarrow> (jsstr \<times> DashboardFlowNode) list \<times> (jsstr \<times> DashboardFlowLink) list" where
  "raw_graph env rows metric options =
     (let prepared = preparePaths env rows metric (resolveVisibleStages (role options) (visibleStages options)) options
      in fold (add_path env metric (palette options)
            (stableColorMap env (js_sort (localeCompare env) (root_ids prepared)) (palette options)))
           prepared ([], []))"

lemma mset_key_sort: "mset (map f (js_sort cmp (map snd xs))) = mset (map (f \<circ> snd) xs)"
  by (simp add: multiset.map_comp)

lemma buildFlowGraph_keys:
  "mset (map node_key (fst (buildFlowGraph env rows metric options))) =
     mset (map (node_key \<circ> snd) (fst (raw_graph env rows metric options)))"
  "mset (map link_key (snd (buildFlowGraph env rows metric options))) =
     mset (map (link_key \<circ> snd) (snd (raw_graph env rows metric options)))"
  unfolding buildFlowGraph_def raw_graph_def Let_def fst_conv snd_conv share_keys mset_key_sort
    highlight_keys
  by (auto simp: mask_keys simp del: mset_map)

text \<open>A sum over the nodes or links of the graph depends on their keys only.\<close>

lemma node_total_keys:
  "sum_list (map n_value (filter (\<lambda>v. q (n_id v) (n_kind v)) xs)) =
     sum_mset (image_mset (\<lambda>(i, k, x). if q i k then x else 0) (mset (map node_key xs)))"
  by (induction xs) (auto simp: node_key_def)

lemma link_total_keys:
  "sum_list (map l_value (filter (\<lambda>v. q (l_source v) (l_target v)) xs)) =
     sum_mset (image_mset (\<lambda>(s, t, x). if q s t then x else 0) (mset (map link_key xs)))"
  by (induction xs) (auto simp: link_key_def)

abbreviation prepared_of :: "flow_env \<Rightarrow> FlowQuotaDataItem list \<Rightarrow> FlowMetric \<Rightarrow> FlowBuildOptions \<Rightarrow> (FlowPathNode list \<times> FlowMetrics) list" where
  "prepared_of env rows metric options \<equiv>
     preparePaths env rows metric (resolveVisibleStages (role options) (visibleStages options)) options"

lemma prepared_tagged: "\<forall>p \<in> set (prepared_of env rows metric options). list_all tagged (fst p)"
  using good_path_prepared by (auto simp: good_path_def)

lemma raw_nodes_ok: "nodes_ok (fst (raw_graph env rows metric options))"
  unfolding raw_graph_def Let_def
  using fold_add_path_nodes[of "([], [])", OF _ prepared_tagged] by simp

lemma graph_node_sum:
  "sum_list (map n_value (filter (\<lambda>v. q (n_id v) (n_kind v)) (fst (buildFlowGraph env rows metric options)))) =
     sum_list (map (node_sum q metric) (prepared_of env rows metric options))"
proof -
  have "sum_list (map n_value (filter (\<lambda>v. q (n_id v) (n_kind v)) (fst (buildFlowGraph env rows metric options)))) =
      sum_list (map n_value (filter (\<lambda>v. q (n_id v) (n_kind v)) (map snd (fst (raw_graph env rows metric options)))))"
    unfolding node_total_keys buildFlowGraph_keys(1) by (simp only: map_map)
  also have "\<dots> = map_total (\<lambda>v. q (n_id v) (n_kind v)) n_value (fst (raw_graph env rows metric options))"
    by (simp add: map_total_def)
  also have "\<dots> = sum_list (map (node_sum q metric) (prepared_of env rows metric options))"
    unfolding raw_graph_def Let_def
    using fold_add_path_nodes[of "([], [])", OF _ prepared_tagged] by simp
  finally show ?thesis .
qed

lemma graph_link_sum:
  assumes "\<forall>p \<in> set (prepared_of env rows metric options). nul_free (fst p)"
  shows "sum_list (map l_value (filter (\<lambda>v. q (l_source v) (l_target v)) (snd (buildFlowGraph env rows metric options)))) =
     sum_list (map (link_sum q metric) (prepared_of env rows metric options))"
proof -
  have "sum_list (map l_value (filter (\<lambda>v. q (l_source v) (l_target v)) (snd (buildFlowGraph env rows metric options)))) =
      sum_list (map l_value (filter (\<lambda>v. q (l_source v) (l_target v)) (map snd (snd (raw_graph env rows metric options)))))"
    unfolding link_total_keys buildFlowGraph_keys(2) by (simp only: map_map)
  also have "\<dots> = map_total (\<lambda>v. q (l_source v) (l_target v)) l_value (snd (raw_graph env rows metric options))"
    by (simp add: map_total_def)
  also have "\<dots> = sum_list (map (link_sum q metric) (prepared_of env rows metric options))"
    unfolding raw_graph_def Let_def
    using fold_add_path_links[of "([], [])", OF _ assms] by simp
  finally show ?thesis .
qed

lemma graph_ids_distinct: "distinct (map n_id (fst (buildFlowGraph env rows metric options)))"
proof -
  let ?g = "fst (raw_graph env rows metric options)"
  have "n_id (snd e) = fst e" if "e \<in> set ?g" for e
    using raw_nodes_ok[of env rows metric options] that
    unfolding nodes_ok_def by (metis map_of_is_SomeI prod.collapse)
  then have "map (n_id \<circ> snd) ?g = map fst ?g" by simp
  moreover have "distinct (map fst ?g)" using raw_nodes_ok by (simp add: nodes_ok_def)
  moreover have "mset (map n_id (fst (buildFlowGraph env rows metric options))) = mset (map (n_id \<circ> snd) ?g)"
    using arg_cong[OF buildFlowGraph_keys(1)[of env rows metric options], of "image_mset fst"]
    by (simp add: multiset.map_comp o_def node_key_def)
  ultimately show ?thesis by (metis mset_eq_imp_distinct_iff)
qed

lemma graph_node_kind:
  assumes "n \<in> set (fst (buildFlowGraph env rows metric options))"
  shows "id_of_kind (n_kind n) (n_id n)"
proof -
  let ?g = "fst (raw_graph env rows metric options)"
  have "node_key n \<in> set (map (node_key \<circ> snd) ?g)"
    using assms mset_eq_setD[OF buildFlowGraph_keys(1)[of env rows metric options]] by auto
  then obtain e where e: "e \<in> set ?g" "node_key n = node_key (snd e)" by auto
  have ok: "distinct (map fst ?g)" "\<And>k v. map_of ?g k = Some v \<Longrightarrow> n_id v = k \<and> id_of_kind (n_kind v) k"
    using raw_nodes_ok[of env rows metric options] unfolding nodes_ok_def by blast+
  have "map_of ?g (fst e) = Some (snd e)" using map_of_is_SomeI[OF ok(1)] e(1) by simp
  from ok(2)[OF this] e(2) show ?thesis by (simp add: node_key_def)
qed

lemma single_total:
  "distinct (map f xs) \<Longrightarrow> x \<in> set xs \<Longrightarrow> sum_list (map g (filter (\<lambda>y. f y = f x) xs)) = (g x :: rat)"
proof (induction xs)
  case (Cons a xs)
  then have a: "f y \<noteq> f a" if "y \<in> set xs" for y using that by (metis distinct.simps(2) image_eqI list.set_map list.simps(9))
  show ?case
  proof (cases "x = a")
    case True
    have "filter (\<lambda>y. f y = f a) xs = []" using a by (simp add: filter_empty_conv)
    with True show ?thesis by simp
  next
    case False
    with Cons.prems have x: "x \<in> set xs" by simp
    then have "f a \<noteq> f x" using a[of x] by simp
    with Cons x show ?thesis by simp
  qed
qed simp

subsection \<open>Paths of plain rows\<close>

text \<open>Rows whose names hold no NUL unit, which the code uses to join the two ids of a link.\<close>

definition plain_row :: "FlowQuotaDataItem \<Rightarrow> bool" where
  "plain_row row \<longleftrightarrow> list_all (\<lambda>s. 0 \<notin> set s)
     [username row, node_name row, use_group row, token_name row, channel_name row, model_name row]"

lemma show_int_nul: "0 < n \<Longrightarrow> 0 \<notin> set (show_int n)"
  using show_digits_digits[of n 0] by (auto simp: show_int_def is_digit_def)

lemma NODE_BUILDERS_nul: "plain_row row \<Longrightarrow> 0 \<notin> set (pn_id (NODE_BUILDERS k row ctx))"
  by (cases k) (auto simp: plain_row_def userNode_def nodeNameNode_def tokenNode_def groupNode_def modelNode_def
      channelNode_def Let_def str_or_def js_def show_int_nul)

lemma otherFlowNode_nul: "0 \<notin> set (pn_id (otherFlowNode k l))"
  by (cases k) (simp_all add: otherFlowNode_def OTHER_FLOW_NODE_IDS_def js_def)

lemma applyTopNodeLimit_nul:
  "nul_free path \<Longrightarrow> applyTopNodeLimit path sets mode l = Some path' \<Longrightarrow> nul_free path'"
  by (auto simp: applyTopNodeLimit_def nul_free_def list_all_iff otherFlowNode_nul
      split: option.splits if_splits)

lemma prepared_nul_free:
  assumes "list_all plain_row rows"
  shows "\<forall>p \<in> set (preparePaths env rows metric stages options). nul_free (fst p)"
proof -
  have "nul_free (flowPathForStages row stages ctx)" if "row \<in> set rows" for row ctx
    using assms that by (auto simp: nul_free_def flowPathForStages_def list_all_iff NODE_BUILDERS_nul)
  then show ?thesis
    by (auto simp: preparePaths_def in_map_filter Let_def) (blast intro: applyTopNodeLimit_nul)
qed

subsection \<open>Flow through one path\<close>

lemma link_sum_source:
  "link_sum (\<lambda>s t. s = i) metric p =
     sum_list (map (\<lambda>n. if pn_id n = i then metricValue (snd p) metric else 0) (butlast (fst p)))"
  unfolding path_links_fst[symmetric] map_map by (intro arg_cong[where f = sum_list] map_cong) auto

lemma link_sum_target:
  "link_sum (\<lambda>s t. t = i) metric p =
     sum_list (map (\<lambda>n. if pn_id n = i then metricValue (snd p) metric else 0) (tl (fst p)))"
  unfolding path_links_snd[symmetric] map_map by (intro arg_cong[where f = sum_list] map_cong) auto

lemma good_path_ends:
  assumes "good_path stages path" "stages \<noteq> []" "id_of_kind k i"
  shows "k \<noteq> last stages \<Longrightarrow> pn_id (last path) \<noteq> i" "k \<noteq> hd stages \<Longrightarrow> pn_id (hd path) \<noteq> i"
proof -
  have ne: "path \<noteq> []" using assms(1,2) by (auto simp: good_path_def)
  with assms(1) have p: "last stages = pn_kind (last path)" "hd stages = pn_kind (hd path)"
    "tagged (last path)" "tagged (hd path)"
    by (auto simp: good_path_def last_map hd_map list_all_iff)
  show "k \<noteq> last stages \<Longrightarrow> pn_id (last path) \<noteq> i" "k \<noteq> hd stages \<Longrightarrow> pn_id (hd path) \<noteq> i"
    using p assms(3) id_of_kind_inj unfolding tagged_def by metis+
qed

lemma path_outflow:
  assumes "good_path stages (fst p)" "stages \<noteq> []" "id_of_kind k i" "k \<noteq> last stages"
  shows "link_sum (\<lambda>s t. s = i) metric p = node_sum (\<lambda>i' k'. i' = i) metric p"
proof -
  have "fst p \<noteq> []" using assms(1,2) by (auto simp: good_path_def)
  then have "fst p = butlast (fst p) @ [last (fst p)]" by simp
  then have "node_sum (\<lambda>i' k'. i' = i) metric p =
      sum_list (map (\<lambda>n. if pn_id n = i then metricValue (snd p) metric else 0) (butlast (fst p) @ [last (fst p)]))"
    by simp
  then show ?thesis using good_path_ends(1)[OF assms] unfolding link_sum_source by simp
qed

lemma path_inflow:
  assumes "good_path stages (fst p)" "stages \<noteq> []" "id_of_kind k i" "k \<noteq> hd stages"
  shows "link_sum (\<lambda>s t. t = i) metric p = node_sum (\<lambda>i' k'. i' = i) metric p"
proof -
  have "fst p \<noteq> []" using assms(1,2) by (auto simp: good_path_def)
  then have "fst p = hd (fst p) # tl (fst p)" by simp
  then have "node_sum (\<lambda>i' k'. i' = i) metric p =
      sum_list (map (\<lambda>n. if pn_id n = i then metricValue (snd p) metric else 0) (hd (fst p) # tl (fst p)))"
    by simp
  then show ?thesis using good_path_ends(2)[OF assms] unfolding link_sum_target by simp
qed

section \<open>Examples\<close>

text \<open>An environment with a trivial comparison, and three rows of two tokens in two groups.\<close>

definition plain_env :: flow_env where
  "plain_env = \<lparr>localeCompare = (\<lambda>a b. 0), getDashboardChartColors = (\<lambda>n. []), formatNumber = (\<lambda>r. [])\<rparr>"

definition sample_row :: "int \<Rightarrow> string \<Rightarrow> rat \<Rightarrow> FlowQuotaDataItem" where
  "sample_row tok grp q = \<lparr>user_id = 1, username = js ''ann'', node_name = [], use_group = js grp, token_id = tok,
     token_name = [], channel_id = 0, channel_name = [], model_name = js ''m'', row_token_used = None,
     row_count = Some (Fin 1), row_quota = Some (Fin q)\<rparr>"

definition sample_rows :: "FlowQuotaDataItem list" where
  "sample_rows = [sample_row 7 ''a'' 5, sample_row 8 ''a'' 3, sample_row 7 ''b'' 2]"

definition sample_options :: FlowBuildOptions where
  "sample_options = \<lparr>role = UserRole, selectedUsers = [], selectedNodes = [], activeNode = None, activeLink = None,
     palette = None, visibleStages = None, topNodeLimit = Some (Fin 1), overflowMode = Aggregate,
     maskSensitive = True, deletedLabel = None, otherNodeLabel = None\<rparr>"

lemma sample_plain: "list_all plain_row sample_rows"
  by code_simp

lemma sample_nodes:
  "map node_key (fst (buildFlowGraph plain_env sample_rows QuotaMetric sample_options)) =
     [(js ''model:m'', ModelKind, 10), (js ''group:a'', GroupKind, 8), (js ''token:7'', TokenKind, 7),
      (js ''token:__other__'', TokenKind, 3), (js ''group:__other__'', GroupKind, 2)]"
  by code_simp

lemma sample_group:
  obtains n where "n \<in> set (fst (buildFlowGraph plain_env sample_rows QuotaMetric sample_options))"
    "n_id n = js ''group:a''" "n_kind n = GroupKind" "n_value n = 8"
proof -
  have "(js ''group:a'', GroupKind, 8) \<in> set (map node_key (fst (buildFlowGraph plain_env sample_rows QuotaMetric sample_options)))"
    unfolding sample_nodes by simp
  then show ?thesis using that by (auto simp: node_key_def)
qed

lemma sample_stages:
  "resolveVisibleStages (role sample_options) (visibleStages sample_options) = [TokenKind, GroupKind, ModelKind]"
  by code_simp

section \<open>Properties\<close>

text \<open>
  C3. Flow conservation. In the Sankey graph of any rows whose names hold no NUL character, under any
  options (hidden stages, a node limit, masking, highlighting), what the links carry out of a node
  equals the node's value unless the node is of the last visible stage, and what they carry into it
  equals its value unless it is of the first.
\<close>

theorem flow_conserved:
  assumes plain: "list_all plain_row rows"
    and n: "n \<in> set (fst (buildFlowGraph env rows metric options))"
  shows "(n_kind n \<noteq> last (resolveVisibleStages (role options) (visibleStages options)) \<longrightarrow>
      sum_list (map l_value (filter (\<lambda>l. l_source l = n_id n) (snd (buildFlowGraph env rows metric options)))) = n_value n)
    \<and> (n_kind n \<noteq> hd (resolveVisibleStages (role options) (visibleStages options)) \<longrightarrow>
      sum_list (map l_value (filter (\<lambda>l. l_target l = n_id n) (snd (buildFlowGraph env rows metric options)))) = n_value n)"
proof -
  let ?stages = "resolveVisibleStages (role options) (visibleStages options)"
  have ne: "?stages \<noteq> []" using resolveVisibleStages_length[of "role options" "visibleStages options"] by auto
  have val: "n_value n = sum_list (map (node_sum (\<lambda>i k. i = n_id n) metric) (prepared_of env rows metric options))"
    using single_total[OF graph_ids_distinct n, of n_value] graph_node_sum[of "\<lambda>i k. i = n_id n"] by simp
  have k: "id_of_kind (n_kind n) (n_id n)" using graph_node_kind[OF n] .
  note good = good_path_prepared[of _ env rows metric ?stages options]
  note links = graph_link_sum[OF prepared_nul_free[OF plain]]
  show ?thesis
    unfolding links[of "\<lambda>s t. s = n_id n"] links[of "\<lambda>s t. t = n_id n"] val
    using path_outflow[OF good ne k] path_inflow[OF good ne k]
    by (intro conjI impI arg_cong[where f = sum_list, OF map_cong[OF refl]]) simp_all
qed

theorem flow_conserved_witness:
  "\<exists>n \<in> set (fst (buildFlowGraph plain_env sample_rows QuotaMetric sample_options)). n_id n = js ''group:a''
     \<and> sum_list (map l_value (filter (\<lambda>l. l_source l = n_id n) (snd (buildFlowGraph plain_env sample_rows QuotaMetric sample_options)))) = 8
     \<and> sum_list (map l_value (filter (\<lambda>l. l_target l = n_id n) (snd (buildFlowGraph plain_env sample_rows QuotaMetric sample_options)))) = 8"
proof -
  obtain n where n: "n \<in> set (fst (buildFlowGraph plain_env sample_rows QuotaMetric sample_options))"
    "n_id n = js ''group:a''" "n_kind n = GroupKind" "n_value n = 8" by (rule sample_group)
  from flow_conserved[OF sample_plain n(1)] n show ?thesis by (intro bexI[of _ n]) (simp_all add: sample_stages)
qed

subsection \<open>Totals of a stage\<close>

lemma stage_node_sum:
  assumes "good_path stages (fst p)" "distinct stages" "K \<in> set stages"
  shows "node_sum (\<lambda>i k. k = K) metric p = metricValue (snd p) metric"
proof -
  have "sum_list (map (\<lambda>k. if k = K then x else 0) ks) = (if K \<in> set ks then x else (0 :: rat))"
    if "distinct ks" for ks :: "FlowNodeKind list" and x
    using that by (induction ks) auto
  from this[OF assms(2), of "metricValue (snd p) metric"] assms show ?thesis
    unfolding good_path_def by (auto simp: o_def)
qed

lemma map_snd_map_filter:
  assumes "\<And>x. f x \<noteq> None"
  shows "map snd (List.map_filter (\<lambda>x. map_option (\<lambda>y. (y, g x)) (f x)) xs) = map g xs"
proof (induction xs)
  case (Cons a xs)
  from assms[of a] Cons show ?case by (cases "f a") (simp_all add: List.map_filter_simps)
qed (simp add: List.map_filter_simps)

lemma prepared_all:
  assumes "overflowMode options = Aggregate \<or> normalizeTopNodeLimit (topNodeLimit options) = None"
  shows "map snd (preparePaths env rows metric stages options) = map rowMetrics rows"
proof -
  have "applyTopNodeLimit path (buildTopNodeSets env rows metric stages (normalizeTopNodeLimit (topNodeLimit options)) ctx)
      (overflowMode options) l \<noteq> None" for path l ctx
    using assms by (auto simp: applyTopNodeLimit_def buildTopNodeSets_def split: option.splits)
  then show ?thesis
    unfolding preparePaths_def Let_def by (rule map_snd_map_filter)
qed

lemma buildSummary_total: "metricValue (buildSummary rows) metric = sum_list (map (\<lambda>row. metricValue (rowMetrics row) metric) rows)"
proof -
  have "metricValue (foldl (\<lambda>summary row. let metrics = rowMetrics row in
         \<lparr>m_quota = m_quota summary + m_quota metrics, m_tokens = m_tokens summary + m_tokens metrics,
          m_requests = m_requests summary + m_requests metrics\<rparr>) m rows) metric =
      metricValue m metric + sum_list (map (\<lambda>row. metricValue (rowMetrics row) metric) rows)" for m
    by (induction rows arbitrary: m) (auto simp: Let_def metricValue_def split: FlowMetric.splits)
  then show ?thesis by (simp add: buildSummary_def metricValue_def split: FlowMetric.splits)
qed

lemma stage_total:
  assumes "overflowMode options = Aggregate \<or> normalizeTopNodeLimit (topNodeLimit options) = None"
    and "K \<in> set (resolveVisibleStages (role options) (visibleStages options))"
  shows "sum_list (map n_value (filter (\<lambda>v. n_kind v = K) (fst (buildFlowGraph env rows metric options)))) =
    metricValue (buildSummary rows) metric"
proof -
  let ?ps = "prepared_of env rows metric options"
  have "sum_list (map n_value (filter (\<lambda>v. n_kind v = K) (fst (buildFlowGraph env rows metric options)))) =
      sum_list (map (node_sum (\<lambda>i k. k = K) metric) ?ps)"
    using graph_node_sum[of "\<lambda>i k. k = K"] .
  also have "\<dots> = sum_list (map (\<lambda>p. metricValue (snd p) metric) ?ps)"
    using stage_node_sum[OF good_path_prepared resolveVisibleStages_distinct assms(2)]
    by (intro arg_cong[where f = sum_list, OF map_cong[OF refl]]) simp
  also have "\<dots> = sum_list (map (\<lambda>m. metricValue m metric) (map snd ?ps))" by (simp add: o_def)
  also have "\<dots> = metricValue (buildSummary rows) metric"
    unfolding prepared_all[OF assms(1)] buildSummary_total by (simp add: o_def)
  finally show ?thesis .
qed



subsection \<open>The node limit\<close>

text \<open>Every node of the graph is a node of a path.\<close>

definition node_ids :: "(jsstr \<times> DashboardFlowNode) list \<Rightarrow> (jsstr \<times> FlowNodeKind) set" where
  "node_ids m = (\<lambda>e. (n_id (snd e), n_kind (snd e))) ` set m"

definition path_ids :: "FlowPathNode list \<Rightarrow> (jsstr \<times> FlowNodeKind) set" where
  "path_ids path = (\<lambda>n. (pn_id n, pn_kind n)) ` set path"

lemma path_ids_simps [simp]: "path_ids [] = {}" "path_ids (n # path) = insert (pn_id n, pn_kind n) (path_ids path)"
  by (simp_all add: path_ids_def)

lemma set_alist_update: "set (AList.update k v m) \<subseteq> insert (k, v) (set m)"
  by (induction m) auto

lemma node_ids_update: "node_ids (AList.update k v m) \<subseteq> insert (n_id v, n_kind v) (node_ids m)"
  using set_alist_update[of k v m] unfolding node_ids_def by fastforce

lemma node_ids_addNode: "node_ids (addNode n M metric c ck m) \<subseteq> insert (pn_id n, pn_kind n) (node_ids m)"
proof (cases "map_of m (pn_id n)")
  case None
  then show ?thesis unfolding addNode_def upsert_def by (auto dest: subsetD[OF node_ids_update])
next
  case (Some v)
  then have "(n_id v, n_kind v) \<in> node_ids m" by (force simp: node_ids_def dest: map_of_SomeD)
  with Some show ?thesis unfolding addNode_def upsert_def by (auto dest!: subsetD[OF node_ids_update])
qed

lemma node_ids_fold: "node_ids (fold (\<lambda>n. addNode n M metric c ck) path m) \<subseteq> path_ids path \<union> node_ids m"
proof (induction path arbitrary: m)
  case (Cons n path)
  from Cons.IH[of "addNode n M metric c ck m"] node_ids_addNode[of n M metric c ck m]
  show ?case by (simp, blast)
qed simp

lemma node_ids_add_path: "node_ids (fst (add_path env metric pal colors p g)) \<subseteq> path_ids (fst p) \<union> node_ids (fst g)"
proof (cases p)
  case (Pair path M)
  show ?thesis
  proof (cases path)
    case (Cons a rest)
    show ?thesis using node_ids_fold[of M metric _ _ "a # rest"] unfolding Pair Cons
      by (simp only: add_path_def prod.case list.case Let_def fst_conv)
  qed (simp add: Pair add_path_def)
qed

lemma node_ids_fold_add_path:
  "node_ids (fst (fold (add_path env metric pal colors) ps g)) \<subseteq> (\<Union>p \<in> set ps. path_ids (fst p)) \<union> node_ids (fst g)"
proof (induction ps arbitrary: g)
  case (Cons p ps)
  from Cons.IH[of "add_path env metric pal colors p g"] node_ids_add_path[of env metric pal colors p g]
  show ?case by (simp, blast)
qed simp

lemma graph_node_in_path:
  assumes "n \<in> set (fst (buildFlowGraph env rows metric options))"
  obtains p v where "p \<in> set (prepared_of env rows metric options)" "v \<in> set (fst p)"
    "pn_id v = n_id n" "pn_kind v = n_kind n"
proof -
  have "node_key n \<in> set (map (node_key \<circ> snd) (fst (raw_graph env rows metric options)))"
    using assms mset_eq_setD[OF buildFlowGraph_keys(1)[of env rows metric options]] by auto
  then have "(n_id n, n_kind n) \<in> node_ids (fst (raw_graph env rows metric options))"
    by (auto simp: node_key_def node_ids_def)
  then have "(n_id n, n_kind n) \<in> (\<Union>p \<in> set (prepared_of env rows metric options). path_ids (fst p)) \<union> node_ids (fst ([], [] :: (jsstr \<times> DashboardFlowLink) list))"
    unfolding raw_graph_def Let_def by (rule subsetD[OF node_ids_fold_add_path])
  then show ?thesis using that by (auto simp: node_ids_def path_ids_def)
qed

lemma map_of_update_kinds: "map_of (fold (\<lambda>stage. AList.update stage []) stages m) k = None \<longleftrightarrow> k \<notin> set stages \<and> map_of m k = None"
  by (induction stages arbitrary: m) (auto simp: update_conv')

lemma add_rank_kinds: "map_of (add_rank metric row node t) k = None \<longleftrightarrow> map_of t k = None"
  by (auto simp: add_rank_def update_conv' split: option.splits)

lemma stage_totals_kinds:
  assumes "k \<in> set stages"
  shows "map_of (stage_totals rows metric stages ctx) k \<noteq> None"
proof -
  have inner: "map_of (fold (add_rank metric row) path t) k = None \<longleftrightarrow> map_of t k = None" for row path t
    by (induction path arbitrary: t) (simp_all add: add_rank_kinds)
  have outer: "map_of (fold (\<lambda>row. fold (add_rank metric row) (path row)) rows t) k = None \<longleftrightarrow> map_of t k = None" for path t
    by (induction rows arbitrary: t) (simp_all add: inner)
  show ?thesis using assms unfolding stage_totals_def outer map_of_update_kinds by simp
qed

lemma top_node_sets:
  assumes "k \<in> set stages"
  obtains ids where "map_of (the (buildTopNodeSets env rows metric stages (Some n) ctx)) k = Some ids" "length ids \<le> n"
proof -
  obtain totals where "map_of (stage_totals rows metric stages ctx) k = Some totals"
    using stage_totals_kinds[OF assms] by blast
  then show ?thesis
    by (intro that[of "map (pn_id \<circ> rank_node) (take n (js_sort (rank_cmp env) (map snd totals)))"])
      (simp_all add: buildTopNodeSets_def map_of_map)
qed

lemma limited_path:
  assumes "applyTopNodeLimit path (Some sets) mode l = Some path'" "v \<in> set path'" "map_of sets (pn_kind v) = Some ids"
  shows "pn_id v \<in> set ids \<or> mode \<noteq> HideOverflow \<and> pn_id v = OTHER_FLOW_NODE_IDS (pn_kind v)"
proof (cases "list_ex (\<lambda>node. \<not> isTopFlowNode node sets) path")
  case True
  with assms(1) have mode: "mode \<noteq> HideOverflow"
    and path': "path' = map (\<lambda>node. if isTopFlowNode node sets then node else otherFlowNode (pn_kind node) l) path"
    by (auto simp: applyTopNodeLimit_def split: if_splits)
  from assms(2) obtain node where "v = (if isTopFlowNode node sets then node else otherFlowNode (pn_kind node) l)"
    unfolding path' set_map by (elim imageE)
  with assms(3) mode show ?thesis by (auto simp: isTopFlowNode_def otherFlowNode_def split: if_splits)
next
  case False
  with assms(1) have "path' = path" by (simp add: applyTopNodeLimit_def)
  with False assms(2) have "isTopFlowNode v sets" by (auto simp: list_ex_iff)
  with assms(3) show ?thesis by (simp add: isTopFlowNode_def)
qed

text \<open>
  C27. The node limit. When a positive limit \<open>n\<close> is set, no visible stage of the graph has more than
  \<open>n\<close> nodes, plus the one that stands for the others when overflow is aggregated.
\<close>

theorem flow_node_limit:
  assumes lim: "normalizeTopNodeLimit (topNodeLimit options) = Some n"
    and K: "K \<in> set (resolveVisibleStages (role options) (visibleStages options))"
  shows "length (filter (\<lambda>v. n_kind v = K) (fst (buildFlowGraph env rows metric options)))
    \<le> n + (if overflowMode options = HideOverflow then 0 else 1)"
proof -
  let ?stages = "resolveVisibleStages (role options) (visibleStages options)"
  let ?nodes = "filter (\<lambda>v. n_kind v = K) (fst (buildFlowGraph env rows metric options))"
  let ?other = "if overflowMode options = HideOverflow then [] else [OTHER_FLOW_NODE_IDS K]"
  obtain ids where ids: "map_of (the (buildTopNodeSets env rows metric ?stages (Some n) (deletedLabel options))) K = Some ids"
    "length ids \<le> n" using top_node_sets[OF K] .
  have "n_id v \<in> set (ids @ ?other)" if v: "v \<in> set ?nodes" for v
  proof -
    from v have "v \<in> set (fst (buildFlowGraph env rows metric options))" "n_kind v = K" by auto
    then obtain p w where w: "p \<in> set (prepared_of env rows metric options)" "w \<in> set (fst p)"
      "pn_id w = n_id v" "pn_kind w = K" by (metis graph_node_in_path)
    from w(1) obtain row where "applyTopNodeLimit (flowPathForStages row ?stages (deletedLabel options))
        (Some (the (buildTopNodeSets env rows metric ?stages (Some n) (deletedLabel options))))
        (overflowMode options) (otherNodeLabel options) = Some (fst p)"
      by (auto simp: preparePaths_def in_map_filter lim buildTopNodeSets_def)
    from limited_path[OF this w(2), unfolded w(3,4), OF ids(1)] show ?thesis by auto
  qed
  then have "set (map n_id ?nodes) \<subseteq> set (ids @ ?other)" unfolding set_map by (rule image_subsetI)
  moreover have "distinct (map n_id ?nodes)"
    using graph_ids_distinct[of env rows metric options] by (rule distinct_map_filter)
  ultimately have "length (map n_id ?nodes) \<le> length (ids @ ?other)"
    using card_mono[OF List.finite_set, of "set (map n_id ?nodes)" "ids @ ?other"] card_length[of "ids @ ?other"]
      distinct_card[of "map n_id ?nodes"] by linarith
  with ids(2) show ?thesis by (simp split: if_splits)
qed

theorem flow_node_limit_witness:
  "length (filter (\<lambda>v. n_kind v = TokenKind)
     (fst (buildFlowGraph plain_env sample_rows QuotaMetric sample_options))) \<le> 2"
proof -
  have lim: "normalizeTopNodeLimit (topNodeLimit sample_options) = Some 1" by code_simp
  show ?thesis
    using flow_node_limit[OF lim, where K = TokenKind and env = plain_env and rows = sample_rows and metric = QuotaMetric]
    by (simp add: sample_stages) (simp add: sample_options_def)
qed

subsection \<open>Shares\<close>

lemma first_step_sum:
  assumes p: "p \<in> set ps" and good: "\<forall>p \<in> set ps. good_path stages (fst p)"
    and stages: "distinct stages" "length stages \<ge> 2"
  shows "link_sum (\<lambda>s t. s \<in> set (root_ids ps)) metric p = metricValue (snd p) metric"
proof -
  have ne: "stages \<noteq> []" using stages(2) by auto
  have roots: "id_of_kind (hd stages) i" if "i \<in> set (root_ids ps)" for i
  proof -
    from that obtain p' where p': "p' \<in> set ps" "fst p' \<noteq> []" "i = pn_id (hd (fst p'))"
      by (auto simp: root_ids_def)
    with good have "map pn_kind (fst p') = stages" "tagged (hd (fst p'))" by (auto simp: good_path_def list_all_iff)
    with p' show ?thesis by (auto simp: tagged_def hd_map)
  qed
  have kinds: "map pn_kind (fst p) = stages" "\<forall>n \<in> set (fst p). tagged n"
    using p good by (auto simp: good_path_def list_all_iff)
  then have "length (fst p) \<ge> 2" using stages(2) by (metis length_map)
  then obtain a b rest where path: "fst p = a # b # rest"
    by (cases "fst p"; cases "tl (fst p)") auto
  have ab: "pn_kind a = hd stages" "tagged a" "\<forall>n \<in> set (b # rest). pn_kind n \<noteq> hd stages \<and> tagged n"
    using kinds path stages(1) by auto (metis imageI)
  have "pn_id a \<in> set (root_ids ps)"
    unfolding root_ids_def set_map
    by (rule image_eqI[of _ _ p]) (use p path ab(2) in \<open>auto simp: tagged_def id_of_kind_def case_prod_beta'\<close>)
  moreover have "pn_id n \<notin> set (root_ids ps)" if "n \<in> set (butlast (b # rest))" for n
    using ab(3) in_set_butlastD[OF that] roots id_of_kind_inj unfolding tagged_def by blast
  ultimately have "sum_list (map (\<lambda>n. if pn_id n \<in> set (root_ids ps) then metricValue (snd p) metric else 0)
      (butlast (fst p))) = metricValue (snd p) metric"
    unfolding path by (simp cong: map_cong)
  then show ?thesis
    unfolding path_links_fst[symmetric] map_map by (simp only: o_def case_prod_beta')
qed

lemma set_shares_value:
  assumes "l \<in> set (set_shares ids links)"
  shows "l_share l = (let t = sum_list (map l_value (filter (\<lambda>l. l_source l \<in> set ids) (set_shares ids links)))
     in if t > 0 then l_value l / t else 0)"
proof -
  have "sum_list (map l_value (filter (\<lambda>l. l_source l \<in> set ids) (set_shares ids links))) =
      sum_list (map l_value (filter (\<lambda>l. l_source l \<in> set ids) links))"
    unfolding link_total_keys[where q = "\<lambda>s t. s \<in> set ids"] share_keys ..
  with assms show ?thesis unfolding set_shares_def Let_def by auto
qed

text \<open>
  Shares. With every row kept, the share of each link of the graph is its value divided by the
  total of the metric over all rows, and \<open>0\<close> when that total is not positive.
\<close>

theorem flow_shares:
  assumes plain: "list_all plain_row rows"
    and kept: "overflowMode options = Aggregate \<or> normalizeTopNodeLimit (topNodeLimit options) = None"
    and l: "l \<in> set (snd (buildFlowGraph env rows metric options))"
  shows "l_share l = (let t = metricValue (buildSummary rows) metric in if t > 0 then l_value l / t else 0)"
proof -
  let ?ps = "prepared_of env rows metric options"
  have "sum_list (map l_value (filter (\<lambda>l. l_source l \<in> set (root_ids ?ps)) (snd (buildFlowGraph env rows metric options)))) =
      sum_list (map (link_sum (\<lambda>s t. s \<in> set (root_ids ?ps)) metric) ?ps)"
    using graph_link_sum[OF prepared_nul_free[OF plain], where q = "\<lambda>s t. s \<in> set (root_ids ?ps)"] .
  also have "\<dots> = sum_list (map (\<lambda>p. metricValue (snd p) metric) ?ps)"
    using first_step_sum[of _ ?ps, OF _ _ resolveVisibleStages_distinct resolveVisibleStages_length] good_path_prepared
    by (intro arg_cong[where f = sum_list, OF map_cong[OF refl]]) blast
  also have "\<dots> = sum_list (map (\<lambda>m. metricValue m metric) (map snd ?ps))" by (simp add: o_def)
  also have "\<dots> = metricValue (buildSummary rows) metric"
    unfolding prepared_all[OF kept] buildSummary_total by (simp add: o_def)
  finally show ?thesis
    using l set_shares_value[of l "root_ids ?ps"] unfolding buildFlowGraph_def Let_def by simp
qed

theorem flow_shares_witness:
  "\<exists>l \<in> set (snd (buildFlowGraph plain_env sample_rows QuotaMetric sample_options)). l_value l = 5 \<and> l_share l = 1 / 2"
proof -
  have "(js ''token:7'', js ''group:a'', 5)
      \<in> set (map link_key (snd (buildFlowGraph plain_env sample_rows QuotaMetric sample_options)))" by code_simp
  then obtain l where l: "l \<in> set (snd (buildFlowGraph plain_env sample_rows QuotaMetric sample_options))" "l_value l = 5"
    by (auto simp: link_key_def)
  have t: "metricValue (buildSummary sample_rows) QuotaMetric = 10" by code_simp
  have "overflowMode sample_options = Aggregate \<or> normalizeTopNodeLimit (topNodeLimit sample_options) = None"
    by (simp add: sample_options_def)
  from flow_shares[OF sample_plain this l(1)] l show ?thesis by (intro bexI[of _ l]) (simp_all add: t)
qed

subsection \<open>Masking\<close>

definition masked :: "jsstr \<Rightarrow> bool" where
  "masked s \<longleftrightarrow> s = [] \<or> s = FLOW_MASK_TEXT"

lemma maskFlowLabel_masked [simp]: "masked (maskFlowLabel s)"
  by (simp add: masked_def maskFlowLabel_def)

lemma masked_by_id:
  assumes "e \<in> set nodes" "must_mask (snd e)"
  obtains t where "map_of (masked_by_id nodes) (n_id (snd e)) = Some t" "masked t"
proof -
  let ?f = "\<lambda>e m. if must_mask (snd e) then AList.update (n_id (snd e)) (maskFlowLabel (n_label (snd e))) m else m"
  have kept: "\<exists>t. map_of (fold ?f ns m) i = Some t \<and> masked t" if "map_of m i = Some t0" "masked t0"
    for ns m i t0
    using that
  proof (induction ns arbitrary: m t0)
    case (Cons e ns)
    have "\<exists>t. map_of (?f e m) i = Some t \<and> masked t" using Cons.prems by (auto simp: update_conv')
    then show ?case using Cons.IH by fastforce
  qed simp
  obtain xs ys where nodes: "nodes = xs @ e # ys" using assms(1) by (metis split_list)
  have "map_of (?f e (fold ?f xs [])) (n_id (snd e)) = Some (maskFlowLabel (n_label (snd e)))"
    using assms(2) by (simp add: update_conv')
  from kept[OF this maskFlowLabel_masked, of ys] that show ?thesis
    unfolding masked_by_id_def nodes by auto
qed

definition label_masked :: "(jsstr \<times> DashboardFlowNode) list \<Rightarrow> DashboardFlowLink \<Rightarrow> bool" where
  "label_masked nodes l \<longleftrightarrow>
     (\<forall>e \<in> set nodes. must_mask (snd e) \<longrightarrow>
        (l_source l = n_id (snd e) \<longrightarrow> masked (l_sourceLabel l))
        \<and> (l_target l = n_id (snd e) \<longrightarrow> masked (l_targetLabel l)))"

lemma maskFlowGraphLabels_masked:
  "e \<in> set (fst (maskFlowGraphLabels nodes links)) \<Longrightarrow> must_mask (snd e) \<Longrightarrow> masked (n_label (snd e))"
  "e' \<in> set (snd (maskFlowGraphLabels nodes links)) \<Longrightarrow> label_masked nodes (snd e')"
proof -
  show "e \<in> set (fst (maskFlowGraphLabels nodes links)) \<Longrightarrow> must_mask (snd e) \<Longrightarrow> masked (n_label (snd e))"
    by (auto simp: maskFlowGraphLabels_def Let_def split: if_splits)
  assume e': "e' \<in> set (snd (maskFlowGraphLabels nodes links))"
  show "label_masked nodes (snd e')"
    unfolding label_masked_def
  proof (intro ballI impI)
    fix e
    assume "e \<in> set nodes" "must_mask (snd e)"
    then obtain t where t: "map_of (masked_by_id nodes) (n_id (snd e)) = Some t" "masked t"
      using masked_by_id by metis
    then have "masked_by_id nodes \<noteq> []" by auto
    with e' t show "(l_source (snd e') = n_id (snd e) \<longrightarrow> masked (l_sourceLabel (snd e')))
        \<and> (l_target (snd e') = n_id (snd e) \<longrightarrow> masked (l_targetLabel (snd e')))"
      unfolding maskFlowGraphLabels_def Let_def by (auto split: option.splits)
  qed
qed

lemma highlighted_node:
  assumes "e \<in> set (fst (applyFlowHighlights sets g))"
  obtains e0 where "e0 \<in> set (fst g)" "n_id (snd e) = n_id (snd e0)" "n_kind (snd e) = n_kind (snd e0)"
    "n_label (snd e) = n_label (snd e0)"
proof (cases sets)
  case None
  with assms show ?thesis by (intro that[of e]) (simp_all add: applyFlowHighlights_def)
next
  case (Some hs)
  with assms that show ?thesis by (cases hs) (fastforce simp: applyFlowHighlights_def)
qed

lemma highlighted_link:
  assumes "e \<in> set (snd (applyFlowHighlights sets g))"
  obtains e0 where "e0 \<in> set (snd g)" "l_source (snd e) = l_source (snd e0)" "l_target (snd e) = l_target (snd e0)"
    "l_sourceLabel (snd e) = l_sourceLabel (snd e0)" "l_targetLabel (snd e) = l_targetLabel (snd e0)"
proof (cases sets)
  case None
  with assms show ?thesis by (intro that[of e]) (simp_all add: applyFlowHighlights_def)
next
  case (Some hs)
  with assms that show ?thesis by (cases hs) (fastforce simp: applyFlowHighlights_def)
qed

lemma raw_graph_mask [simp]: "raw_graph env rows metric (options\<lparr>maskSensitive := b\<rparr>) = raw_graph env rows metric options"
  by (simp add: raw_graph_def preparePaths_def)

lemma must_mask_key: "node_key v = node_key w \<Longrightarrow> must_mask v = must_mask w"
  by (simp add: node_key_def must_mask_def)

lemma graph_of_raw:
  assumes "maskSensitive options"
  shows "n \<in> set (fst (buildFlowGraph env rows metric options)) \<Longrightarrow> must_mask n \<Longrightarrow> masked (n_label n)"
    and "l \<in> set (snd (buildFlowGraph env rows metric options)) \<Longrightarrow>
      label_masked (fst (raw_graph env rows metric options)) l"
proof -
  let ?stages = "resolveVisibleStages (role options) (visibleStages options)"
  let ?r = "raw_graph env rows metric options"
  let ?sets = "buildFlowHighlightSets (prepared_of env rows metric options) (activeNode options) (activeLink options) ?stages"
  let ?h = "applyFlowHighlights ?sets (maskFlowGraphLabels (fst ?r) (snd ?r))"
  have graph: "set (fst (buildFlowGraph env rows metric options)) = snd ` set (fst ?h)"
    "snd (buildFlowGraph env rows metric options) =
      set_shares (root_ids (prepared_of env rows metric options)) (js_sort (link_order env) (map snd (snd ?h)))"
    using assms by (simp_all add: buildFlowGraph_def raw_graph_def Let_def)
  show "masked (n_label n)" if n: "n \<in> set (fst (buildFlowGraph env rows metric options))" "must_mask n"
  proof -
    from n(1) obtain e where e: "e \<in> set (fst ?h)" "n = snd e" unfolding graph by auto
    obtain e0 where e0: "e0 \<in> set (fst (maskFlowGraphLabels (fst ?r) (snd ?r)))" "n_id n = n_id (snd e0)"
      "n_kind n = n_kind (snd e0)" "n_label n = n_label (snd e0)" using highlighted_node[OF e(1)] e(2) by metis
    then have "must_mask (snd e0)" using n(2) by (simp add: must_mask_def)
    with maskFlowGraphLabels_masked(1)[OF e0(1)] e0(4) show ?thesis by simp
  qed
  show "label_masked (fst ?r) l" if l: "l \<in> set (snd (buildFlowGraph env rows metric options))"
  proof -
    from l obtain e where e: "e \<in> set (snd ?h)" "l_source l = l_source (snd e)" "l_target l = l_target (snd e)"
      "l_sourceLabel l = l_sourceLabel (snd e)" "l_targetLabel l = l_targetLabel (snd e)"
      unfolding graph(2) set_shares_def Let_def by auto
    obtain e0 where e0: "e0 \<in> set (snd (maskFlowGraphLabels (fst ?r) (snd ?r)))"
      "l_source (snd e) = l_source (snd e0)" "l_target (snd e) = l_target (snd e0)"
      "l_sourceLabel (snd e) = l_sourceLabel (snd e0)" "l_targetLabel (snd e) = l_targetLabel (snd e0)"
      using highlighted_link[OF e(1)] .
    from maskFlowGraphLabels_masked(2)[OF e0(1)] show ?thesis
      unfolding label_masked_def e(2-5) e0(2-5) .
  qed
qed



subsection \<open>Node filters\<close>

definition filter_ids :: "FlowNodeFilter list \<Rightarrow> FlowNodeKind \<Rightarrow> jsstr set" where
  "filter_ids selected k = filter_id ` {f \<in> set selected. filter_kind f = k}"

definition ids_at :: "(FlowNodeKind \<times> jsstr list) list \<Rightarrow> FlowNodeKind \<Rightarrow> jsstr set option" where
  "ids_at m k = map_option set (map_of m k)"

lemma ids_at_add:
  "ids_at (upsert k [] (set_add x) m) k' =
     (if k' = k then Some (insert x (case ids_at m k of None \<Rightarrow> {} | Some s \<Rightarrow> s)) else ids_at m k')"
  by (cases "map_of m k") (simp_all add: ids_at_def map_of_upsert)

lemma normalizeSelectedNodeFilters_spec:
  "distinct (map fst (normalizeSelectedNodeFilters selected stages))
   \<and> (\<forall>k. ids_at (normalizeSelectedNodeFilters selected stages) k =
       (if k \<in> set stages \<and> filter_ids selected k \<noteq> {} then Some (filter_ids selected k) else None))"
proof (induction selected rule: rev_induct)
  case (snoc f selected)
  let ?m = "normalizeSelectedNodeFilters selected stages"
  have step: "normalizeSelectedNodeFilters (selected @ [f]) stages =
      (if filter_kind f \<notin> set stages then ?m else upsert (filter_kind f) [] (set_add (filter_id f)) ?m)"
    by (simp add: normalizeSelectedNodeFilters_def)
  have ids: "filter_ids (selected @ [f]) k =
      (if k = filter_kind f then insert (filter_id f) (filter_ids selected k) else filter_ids selected k)" for k
    by (auto simp: filter_ids_def)
  have old: "ids_at ?m k =
      (if k \<in> set stages \<and> filter_ids selected k \<noteq> {} then Some (filter_ids selected k) else None)" for k
    using snoc by blast
  have "ids_at (normalizeSelectedNodeFilters (selected @ [f]) stages) k =
      (if k \<in> set stages \<and> filter_ids (selected @ [f]) k \<noteq> {} then Some (filter_ids (selected @ [f]) k) else None)" for k
    unfolding step ids by (simp add: ids_at_add old)
  then show ?case using snoc by (simp add: step distinct_upsert)
qed (simp add: ids_at_def normalizeSelectedNodeFilters_def filter_ids_def)

lemma pathNodesByKind_spec:
  "ids_at (pathNodesByKind (flowPathForStages row stages ctx)) k =
     (if k \<in> set stages then Some {pn_id (NODE_BUILDERS k row ctx)} else None)"
proof (induction stages arbitrary: k rule: rev_induct)
  case (snoc stage stages)
  have "pathNodesByKind (flowPathForStages row (stages @ [stage]) ctx) =
      upsert stage [] (set_add (pn_id (NODE_BUILDERS stage row ctx))) (pathNodesByKind (flowPathForStages row stages ctx))"
    by (simp add: pathNodesByKind_def flowPathForStages_def)
  then show ?case by (simp add: ids_at_add snoc)
qed (simp add: ids_at_def pathNodesByKind_def flowPathForStages_def)

lemma map_option_SomeD: "map_option g v = Some y \<Longrightarrow> \<exists>x. v = Some x \<and> g x = y"
  by (cases v) auto

lemma pathMatchesNodeFilters_spec:
  assumes "distinct (map fst filters)"
    and old: "\<forall>k. ids_at filters k = (if P k then Some (S k) else None)"
    and stages: "\<forall>k. P k \<longrightarrow> k \<in> set stages"
  shows "pathMatchesNodeFilters (flowPathForStages row stages ctx) filters \<longleftrightarrow>
    (\<forall>k. P k \<longrightarrow> pn_id (NODE_BUILDERS k row ctx) \<in> S k)"
proof -
  have entry: "(k, ids) \<in> set filters \<longleftrightarrow> map_of filters k = Some ids" for k ids
    using assms(1) by (metis map_of_SomeD map_of_is_SomeI)
  have "(case map_of (pathNodesByKind (flowPathForStages row stages ctx)) k of
           None \<Rightarrow> False | Some pathIds \<Rightarrow> list_ex (\<lambda>i. i \<in> set pathIds) ids)
        \<longleftrightarrow> P k \<and> pn_id (NODE_BUILDERS k row ctx) \<in> S k" if "map_of filters k = Some ids" for k ids
  proof -
    have k: "P k" "set ids = S k" using that old[rule_format, of k] by (auto simp: ids_at_def split: if_splits)
    obtain pathIds where "map_of (pathNodesByKind (flowPathForStages row stages ctx)) k = Some pathIds"
      "set pathIds = {pn_id (NODE_BUILDERS k row ctx)}"
      using pathNodesByKind_spec[of row stages ctx k] k stages by (auto simp: ids_at_def dest: map_option_SomeD)
    with k show ?thesis by (auto simp: list_ex_iff)
  qed
  moreover have "list_all (\<lambda>(k, ids). Q k ids) filters \<longleftrightarrow> (\<forall>k ids. map_of filters k = Some ids \<longrightarrow> Q k ids)" for Q
    unfolding list_all_iff entry[symmetric] by auto
  ultimately have "pathMatchesNodeFilters (flowPathForStages row stages ctx) filters \<longleftrightarrow>
      (\<forall>k ids. map_of filters k = Some ids \<longrightarrow> P k \<and> pn_id (NODE_BUILDERS k row ctx) \<in> S k)"
    unfolding pathMatchesNodeFilters_def by (cases "filters = []") simp_all
  moreover have "(\<exists>ids. map_of filters k = Some ids) \<longleftrightarrow> P k" for k
    using old[rule_format, of k] by (auto simp: ids_at_def dest: map_option_SomeD split: if_splits)
  ultimately show ?thesis by blast
qed

text \<open>
  Node filters. The rows that pass the selected node filters are, in their order, the rows that for
  each visible stage with at least one selected node go through one of the selected nodes of that stage;
  filters on stages that are not visible are ignored.
\<close>

theorem filterRowsByNodes_spec:
  "filterRowsByNodes rows selected stages ctx =
     filter (\<lambda>row. \<forall>k \<in> set stages. (\<exists>f \<in> set selected. filter_kind f = k) \<longrightarrow>
         \<lparr>filter_kind = k, filter_id = pn_id (NODE_BUILDERS k row ctx)\<rparr> \<in> set selected) rows"
proof -
  let ?filters = "normalizeSelectedNodeFilters selected stages"
  have ids: "i \<in> filter_ids selected k \<longleftrightarrow> \<lparr>filter_kind = k, filter_id = i\<rparr> \<in> set selected" for i k
  proof
    assume "i \<in> filter_ids selected k"
    then obtain f where f: "f \<in> set selected" "filter_kind f = k" "filter_id f = i"
      by (auto simp: filter_ids_def)
    have "f = \<lparr>filter_kind = k, filter_id = i\<rparr>" using f(2,3) by simp
    with f(1) show "\<lparr>filter_kind = k, filter_id = i\<rparr> \<in> set selected" by simp
  next
    assume "\<lparr>filter_kind = k, filter_id = i\<rparr> \<in> set selected"
    then show "i \<in> filter_ids selected k"
      unfolding filter_ids_def by (intro image_eqI[of _ _ "\<lparr>filter_kind = k, filter_id = i\<rparr>"]) simp_all
  qed
  have ne: "filter_ids selected k \<noteq> {} \<longleftrightarrow> (\<exists>f \<in> set selected. filter_kind f = k)" for k
    by (auto simp: filter_ids_def)
  note spec = normalizeSelectedNodeFilters_spec[of selected stages]
  have "filterRowsByNodes rows selected stages ctx =
      filter (\<lambda>row. pathMatchesNodeFilters (flowPathForStages row stages ctx) ?filters) rows"
    by (simp add: filterRowsByNodes_def Let_def pathMatchesNodeFilters_def)
  also have "\<dots> = filter (\<lambda>row. \<forall>k. k \<in> set stages \<and> filter_ids selected k \<noteq> {} \<longrightarrow>
      pn_id (NODE_BUILDERS k row ctx) \<in> filter_ids selected k) rows"
    by (rule filter_cong[OF refl], rule pathMatchesNodeFilters_spec[OF conjunct1[OF spec] conjunct2[OF spec]]) simp
  finally show ?thesis unfolding ids ne Ball_def imp_conjL .
qed

theorem filterRowsByNodes_spec_witness:
  "map token_id (filterRowsByNodes sample_rows
     [\<lparr>filter_kind = GroupKind, filter_id = js ''group:b''\<rparr>] [TokenKind, GroupKind] None) = [7]"
  unfolding filterRowsByNodes_spec by code_simp

end
