(* ===== verification/Web_Handoff.thy ===== *)
theory Web_Handoff
  imports Miniapp_Services "HOL-Library.AList"
begin

text \<open>
  How the console takes over from the mini program and returns users where they came from:
  the one-time tickets of the binding and checkout pages
  (\<open>web/src/features/miniapp-bind/lib/binding-ticket.ts\<close>,
  \<open>web/src/features/miniapp-checkout/lib/checkout-ticket.ts\<close>), the code of the two pages that
  captures, keeps and drops a ticket (\<open>miniapp-bind-page.tsx\<close>, \<open>miniapp-checkout-page.tsx\<close>), and
  the redirect after signing in (\<open>web/src/features/auth/lib/auth-redirect.ts\<close>).

  Parameters, collected in \<open>web_env\<close>: \<open>URL\<close> without and with a base, \<open>URLSearchParams\<close> and
  \<open>JSON.parse\<close>. The tab's session storage may be absent, and each of its operations may throw.
\<close>

section \<open>Model\<close>

record web_env =
  newURL :: "jsstr \<Rightarrow> url option"
  newURLBase :: "jsstr \<Rightarrow> jsstr \<Rightarrow> url option"
  fragmentParams :: "jsstr \<Rightarrow> (jsstr \<times> jsstr) list"
  parseJSON :: "jsstr \<Rightarrow> jsval option"

subsection \<open>Session storage\<close>

record session_storage =
  stored :: "(jsstr \<times> jsstr) list"
  getThrows :: bool
  setThrows :: bool
  removeThrows :: bool

definition getItem :: "jsstr \<Rightarrow> session_storage \<Rightarrow> jsstr option option" where
  "getItem k st = (if getThrows st then None else Some (map_of (stored st) k))"

definition setItem :: "jsstr \<Rightarrow> jsstr \<Rightarrow> session_storage \<Rightarrow> bool \<times> session_storage" where
  "setItem k v st = (if setThrows st then (False, st) else (True, st\<lparr>stored := AList.update k v (stored st)\<rparr>))"

definition removeItem :: "jsstr \<Rightarrow> session_storage \<Rightarrow> bool \<times> session_storage" where
  "removeItem k st = (if removeThrows st then (False, st) else (True, st\<lparr>stored := AList.delete k (stored st)\<rparr>))"

subsection \<open>Binding tickets\<close>

definition maxBindingTicketLength :: nat where
  "maxBindingTicketLength = 512"

definition miniAppBindPath :: jsstr where
  "miniAppBindPath = js ''/miniapp-bind''"

definition miniAppBindingTicketBootstrapWindowKey :: jsstr where
  "miniAppBindingTicketBootstrapWindowKey = js ''__theOneMiniAppBindingTicket''"

definition miniAppBindingTicketSessionStorageKey :: jsstr where
  "miniAppBindingTicketSessionStorageKey = js ''__theOneMiniAppBindingTicketContinuation''"

definition createMiniAppBindingConfirmationPayload :: "jsstr \<Rightarrow> jsstr option" where
  "createMiniAppBindingConfirmationPayload bindingTicket =
     (let normalizedTicket = trim bindingTicket in
      if length normalizedTicket = 0 \<or> length normalizedTicket > maxBindingTicketLength then None
      else Some normalizedTicket)"

definition consumeMiniAppBindingBootstrapTicket :: "(jsstr \<times> jsval) list \<Rightarrow> jsstr option \<times> (jsstr \<times> jsval) list" where
  "consumeMiniAppBindingBootstrapTicket handoff =
     (case map_of handoff miniAppBindingTicketBootstrapWindowKey of
        Some (JStr t) \<Rightarrow> createMiniAppBindingConfirmationPayload t
      | _ \<Rightarrow> None,
      AList.delete miniAppBindingTicketBootstrapWindowKey handoff)"

definition rememberMiniAppBindingSessionTicket ::
  "jsstr \<Rightarrow> session_storage option \<Rightarrow> bool \<times> session_storage option" where
  "rememberMiniAppBindingSessionTicket bindingTicket storage =
     (case (createMiniAppBindingConfirmationPayload bindingTicket, storage) of
        (Some payload, Some st) \<Rightarrow>
          (case setItem miniAppBindingTicketSessionStorageKey payload st of (ok, st') \<Rightarrow> (ok, Some st'))
      | _ \<Rightarrow> (False, storage))"

definition readMiniAppBindingSessionTicket :: "session_storage option \<Rightarrow> jsstr option \<times> session_storage option" where
  "readMiniAppBindingSessionTicket storage =
     (case storage of
        None \<Rightarrow> (None, None)
      | Some st \<Rightarrow>
          (case getItem miniAppBindingTicketSessionStorageKey st of
             None \<Rightarrow> (None, Some st)
           | Some value \<Rightarrow>
               (case Option.bind value createMiniAppBindingConfirmationPayload of
                  Some t \<Rightarrow> (Some t, Some st)
                | None \<Rightarrow> (None, Some (snd (removeItem miniAppBindingTicketSessionStorageKey st))))))"

definition clearMiniAppBindingSessionTicket :: "session_storage option \<Rightarrow> session_storage option" where
  "clearMiniAppBindingSessionTicket storage =
     map_option (\<lambda>st. snd (removeItem miniAppBindingTicketSessionStorageKey st)) storage"

text \<open>The ticket and the address to show instead.\<close>

definition consumeMiniAppBindingURL :: "web_env \<Rightarrow> jsstr \<Rightarrow> (jsstr option \<times> jsstr) option" where
  "consumeMiniAppBindingURL env rawURL =
     (case newURLBase env rawURL (js ''https://console.invalid'') of
        None \<Rightarrow> None
      | Some u \<Rightarrow>
          if pathname u \<noteq> miniAppBindPath then None
          else if search u \<noteq> [] then Some (None, pathname u)
          else
            let fragment = fragmentParams env (drop 1 (hash u));
                bindingTickets = param_values (js ''binding_ticket'') fragment
            in if length bindingTickets \<noteq> 1 \<or> length fragment \<noteq> 1
                  \<or> createMiniAppBindingConfirmationPayload (bindingTickets ! 0) = None
               then Some (None, pathname u)
               else Some (Some (trim (bindingTickets ! 0)), pathname u))"

subsection \<open>Checkout tickets\<close>

definition maxCheckoutTicketLength :: nat where
  "maxCheckoutTicketLength = 512"

definition miniAppCheckoutPath :: jsstr where
  "miniAppCheckoutPath = js ''/miniapp-checkout''"

definition miniAppCheckoutTicketSessionStorageKey :: jsstr where
  "miniAppCheckoutTicketSessionStorageKey = js ''__theOneMiniAppCheckoutTicket''"

definition miniAppCheckoutTicketBootstrapWindowKey :: jsstr where
  "miniAppCheckoutTicketBootstrapWindowKey = js ''__theOneMiniAppCheckoutTicket''"

definition createMiniAppCheckoutConfirmationPayload :: "jsstr \<Rightarrow> jsstr option" where
  "createMiniAppCheckoutConfirmationPayload checkoutTicket =
     (let normalizedTicket = trim checkoutTicket in
      if length normalizedTicket = 0 \<or> length normalizedTicket > maxCheckoutTicketLength then None
      else Some normalizedTicket)"

definition consumeMiniAppCheckoutBootstrapTicket :: "(jsstr \<times> jsval) list \<Rightarrow> jsstr option \<times> (jsstr \<times> jsval) list" where
  "consumeMiniAppCheckoutBootstrapTicket handoff =
     (case map_of handoff miniAppCheckoutTicketBootstrapWindowKey of
        Some (JStr t) \<Rightarrow> createMiniAppCheckoutConfirmationPayload t
      | _ \<Rightarrow> None,
      AList.delete miniAppCheckoutTicketBootstrapWindowKey handoff)"

definition rememberMiniAppCheckoutTicket ::
  "jsstr \<Rightarrow> session_storage option \<Rightarrow> jsstr option \<times> session_storage option" where
  "rememberMiniAppCheckoutTicket checkoutTicket storage =
     (case createMiniAppCheckoutConfirmationPayload checkoutTicket of
        None \<Rightarrow> (None, storage)
      | Some payload \<Rightarrow>
          (case storage of
             None \<Rightarrow> (Some payload, None)
           | Some st \<Rightarrow> (Some payload, Some (snd (setItem miniAppCheckoutTicketSessionStorageKey payload st)))))"

definition getRememberedMiniAppCheckoutTicket :: "session_storage option \<Rightarrow> jsstr option" where
  "getRememberedMiniAppCheckoutTicket storage =
     (case storage of
        None \<Rightarrow> None
      | Some st \<Rightarrow>
          (case getItem miniAppCheckoutTicketSessionStorageKey st of
             Some (Some checkoutTicket) \<Rightarrow>
               if checkoutTicket = [] then None else createMiniAppCheckoutConfirmationPayload checkoutTicket
           | _ \<Rightarrow> None))"

definition clearRememberedMiniAppCheckoutTicket :: "session_storage option \<Rightarrow> session_storage option" where
  "clearRememberedMiniAppCheckoutTicket storage =
     map_option (\<lambda>st. snd (removeItem miniAppCheckoutTicketSessionStorageKey st)) storage"

definition consumeMiniAppCheckoutURL :: "web_env \<Rightarrow> jsstr \<Rightarrow> (jsstr option \<times> jsstr) option" where
  "consumeMiniAppCheckoutURL env rawURL =
     (case newURLBase env rawURL (js ''https://console.invalid'') of
        None \<Rightarrow> None
      | Some u \<Rightarrow>
          if pathname u \<noteq> miniAppCheckoutPath then None
          else if search u \<noteq> [] then Some (None, pathname u)
          else
            let fragment = fragmentParams env (drop 1 (hash u));
                checkoutTickets = param_values (js ''checkout_ticket'') fragment
            in if length checkoutTickets \<noteq> 1 \<or> length fragment \<noteq> 1
                  \<or> createMiniAppCheckoutConfirmationPayload (checkoutTickets ! 0) = None
               then Some (None, pathname u)
               else Some (Some (trim (checkoutTickets ! 0)), pathname u))"

subsection \<open>The pages\<close>

text \<open>
  The window of a tab and the module variables of the two pages: the outer option of a ticket is
  \<open>undefined\<close>, the inner one \<open>null\<close>. \<open>history.replaceState\<close> resolves the address against the
  current one.
\<close>

record handoff_window =
  location_href :: jsstr
  handoff :: "(jsstr \<times> jsval) list"
  tabStorage :: "session_storage option"
  initialBindingTicket :: "jsstr option option"
  browserCheckoutTicket :: "jsstr option option"

definition replaceState :: "web_env \<Rightarrow> jsstr \<Rightarrow> handoff_window \<Rightarrow> handoff_window" where
  "replaceState env visible w =
     (case newURLBase env visible (location_href w) of
        Some u \<Rightarrow> w\<lparr>location_href := href u\<rparr>
      | None \<Rightarrow> w)"

definition location_pathname :: "web_env \<Rightarrow> handoff_window \<Rightarrow> jsstr" where
  "location_pathname env w = (case newURL env (location_href w) of Some u \<Rightarrow> pathname u | None \<Rightarrow> [])"

definition remember_binding :: "jsstr \<Rightarrow> handoff_window \<Rightarrow> handoff_window" where
  "remember_binding t w = w\<lparr>tabStorage := snd (rememberMiniAppBindingSessionTicket t (tabStorage w))\<rparr>"

definition captureBindingTicketFromLocation :: "web_env \<Rightarrow> handoff_window \<Rightarrow> jsstr option \<times> handoff_window" where
  "captureBindingTicketFromLocation env w =
     (case consumeMiniAppBindingURL env (location_href w) of
        None \<Rightarrow> (None, w)
      | Some (t, visible) \<Rightarrow>
          let w1 = replaceState env visible w in
          (t, case t of Some ticket \<Rightarrow> remember_binding ticket w1 | None \<Rightarrow> w1))"

definition consumeBootstrapBindingTicket :: "handoff_window \<Rightarrow> jsstr option \<times> handoff_window" where
  "consumeBootstrapBindingTicket w =
     (case consumeMiniAppBindingBootstrapTicket (handoff w) of (t, h) \<Rightarrow> (t, w\<lparr>handoff := h\<rparr>))"

text \<open>\<open>consumeBootstrapBindingTicket() ?? captureBindingTicketFromLocation()\<close>\<close>

definition handed_over_binding :: "web_env \<Rightarrow> handoff_window \<Rightarrow> jsstr option \<times> handoff_window" where
  "handed_over_binding env w =
     (case consumeBootstrapBindingTicket w of
        (Some t, w1) \<Rightarrow> (Some t, w1)
      | (None, w1) \<Rightarrow> captureBindingTicketFromLocation env w1)"

definition load_bind_module :: "web_env \<Rightarrow> handoff_window \<Rightarrow> handoff_window" where
  "load_bind_module env w =
     (if location_pathname env w = miniAppBindPath
      then (case handed_over_binding env w of (t, w1) \<Rightarrow> w1\<lparr>initialBindingTicket := Some t\<rparr>)
      else w\<lparr>initialBindingTicket := None\<rparr>)"

definition takeBindingTicketFromLocation :: "web_env \<Rightarrow> handoff_window \<Rightarrow> jsstr option \<times> handoff_window" where
  "takeBindingTicketFromLocation env w =
     (case initialBindingTicket w of
        Some t \<Rightarrow> (t, w\<lparr>initialBindingTicket := None\<rparr>)
      | None \<Rightarrow>
          (case handed_over_binding env w of
             (Some t, w1) \<Rightarrow> (Some t, remember_binding t w1)
           | (None, w1) \<Rightarrow>
               (case readMiniAppBindingSessionTicket (tabStorage w1) of
                  (t, st) \<Rightarrow> (t, w1\<lparr>tabStorage := st\<rparr>))))"

text \<open>
  Confirming a binding: the reply to the request, if a request is sent at all, and what the page
  does then.
\<close>

datatype confirm_reply = Confirmed jsval | Failed "int option"

datatype page_effect = PostConfirm jsstr | ClearAuthentication | NavigateToSignIn

definition continueAtSignIn :: "jsstr option \<Rightarrow> handoff_window \<Rightarrow> handoff_window \<times> page_effect list" where
  "continueAtSignIn bindingTicket w =
     (case bindingTicket of Some t \<Rightarrow> remember_binding t w | None \<Rightarrow> w, [NavigateToSignIn])"

definition confirmBinding ::
  "confirm_reply \<Rightarrow> jsstr option \<Rightarrow> handoff_window \<Rightarrow> bool \<times> handoff_window \<times> page_effect list" where
  "confirmBinding reply bindingTicket w =
     (case Option.bind bindingTicket (\<lambda>t. if t = [] then None else createMiniAppBindingConfirmationPayload t) of
        None \<Rightarrow> (False, w, [])
      | Some payload \<Rightarrow>
          (case reply of
             Confirmed d \<Rightarrow>
               if jget d (js ''success'') = JBool True
               then (True, w\<lparr>tabStorage := clearMiniAppBindingSessionTicket (tabStorage w)\<rparr>, [PostConfirm payload])
               else (False, w, [PostConfirm payload])
           | Failed failed_with \<Rightarrow>
               if failed_with = Some 401 then
                 (case continueAtSignIn bindingTicket w of
                    (w', es) \<Rightarrow> (False, w', PostConfirm payload # ClearAuthentication # es))
               else if failed_with \<in> {Some 400, Some 403, Some 409, Some 410} then
                 (False, w\<lparr>tabStorage := clearMiniAppBindingSessionTicket (tabStorage w)\<rparr>, [PostConfirm payload])
               else (False, w, [PostConfirm payload])))"

definition captureCheckoutTicketFromLocation :: "web_env \<Rightarrow> handoff_window \<Rightarrow> jsstr option \<times> handoff_window" where
  "captureCheckoutTicketFromLocation env w =
     (case consumeMiniAppCheckoutURL env (location_href w) of
        None \<Rightarrow> (None, w)
      | Some (t, visible) \<Rightarrow> (t, replaceState env visible w))"

definition consumeBootstrapCheckoutTicket :: "handoff_window \<Rightarrow> jsstr option \<times> handoff_window" where
  "consumeBootstrapCheckoutTicket w =
     (case consumeMiniAppCheckoutBootstrapTicket (handoff w) of (t, h) \<Rightarrow> (t, w\<lparr>handoff := h\<rparr>))"

definition handed_over_checkout :: "web_env \<Rightarrow> handoff_window \<Rightarrow> jsstr option \<times> handoff_window" where
  "handed_over_checkout env w =
     (case consumeBootstrapCheckoutTicket w of
        (Some t, w1) \<Rightarrow> (Some t, w1)
      | (None, w1) \<Rightarrow> captureCheckoutTicketFromLocation env w1)"

definition retainCheckoutTicket :: "jsstr \<Rightarrow> handoff_window \<Rightarrow> jsstr \<times> handoff_window" where
  "retainCheckoutTicket checkoutTicket w =
     (case rememberMiniAppCheckoutTicket checkoutTicket (tabStorage w) of
        (t, st) \<Rightarrow> (case t of Some t' \<Rightarrow> t' | None \<Rightarrow> checkoutTicket, w\<lparr>tabStorage := st\<rparr>))"

definition load_checkout_module :: "web_env \<Rightarrow> handoff_window \<Rightarrow> handoff_window" where
  "load_checkout_module env w =
     (let w0 = w\<lparr>browserCheckoutTicket := None\<rparr> in
      if location_pathname env w0 = miniAppCheckoutPath
      then (case handed_over_checkout env w0 of
              (Some t, w1) \<Rightarrow> (case retainCheckoutTicket t w1 of (t', w2) \<Rightarrow> w2\<lparr>browserCheckoutTicket := Some (Some t')\<rparr>)
            | (None, w1) \<Rightarrow> w1)
      else w0)"

definition checkoutTicketFromMemory :: "web_env \<Rightarrow> handoff_window \<Rightarrow> jsstr option \<times> handoff_window" where
  "checkoutTicketFromMemory env w =
     (case browserCheckoutTicket w of
        Some t \<Rightarrow> (t, w)
      | None \<Rightarrow>
          (case handed_over_checkout env w of
             (None, w1) \<Rightarrow>
               (let t = getRememberedMiniAppCheckoutTicket (tabStorage w1) in (t, w1\<lparr>browserCheckoutTicket := Some t\<rparr>))
           | (Some t, w1) \<Rightarrow>
               (case retainCheckoutTicket t w1 of (t', w2) \<Rightarrow> (Some t', w2\<lparr>browserCheckoutTicket := Some (Some t')\<rparr>))))"

definition positive_digits :: "jsstr \<Rightarrow> bool" where
  "positive_digits s \<longleftrightarrow> (case s of [] \<Rightarrow> False | d # ds \<Rightarrow> 49 \<le> d \<and> d \<le> 57 \<and> list_all is_digit ds)"

definition path_with_id :: "jsstr \<Rightarrow> jsstr \<Rightarrow> bool" where
  "path_with_id p s \<longleftrightarrow> starts_with s p \<and> positive_digits (drop (length p) s)"

definition isAllowedCheckoutPath :: "jsval \<Rightarrow> bool" where
  "isAllowedCheckoutPath v \<longleftrightarrow>
     is_str v \<and> (path_with_id (js ''/wallet?purchase_plan_id='') (str_of v) \<or> path_with_id (js ''/products/'') (str_of v))"

text \<open>The path to continue at, if the checkout was confirmed.\<close>

definition confirmCheckout ::
  "confirm_reply \<Rightarrow> jsstr option \<Rightarrow> handoff_window \<Rightarrow> jsstr option \<times> handoff_window \<times> page_effect list" where
  "confirmCheckout reply checkoutTicket w =
     (case Option.bind checkoutTicket (\<lambda>t. if t = [] then None else createMiniAppCheckoutConfirmationPayload t) of
        None \<Rightarrow> (None, w, [])
      | Some payload \<Rightarrow>
          (case reply of
             Confirmed d \<Rightarrow>
               let checkoutPath = jget (jget d (js ''data'')) (js ''checkout_path'') in
               if jget d (js ''success'') \<noteq> JBool True \<or> \<not> isAllowedCheckoutPath checkoutPath
               then (None, w, [PostConfirm payload])
               else (Some (str_of checkoutPath),
                     w\<lparr>browserCheckoutTicket := Some None,
                       tabStorage := clearRememberedMiniAppCheckoutTicket (tabStorage w)\<rparr>, [PostConfirm payload])
           | Failed failed_with \<Rightarrow> (None, w, [PostConfirm payload])))"

subsection \<open>Redirects after signing in\<close>

definition allowedRedirectProtocols :: "jsstr list" where
  "allowedRedirectProtocols = [js ''http:'', js ''https:'']"

definition authRedirectSessionStorageKey :: jsstr where
  "authRedirectSessionStorageKey = js ''__theOneAuthRedirect''"

definition sanitizeAuthRedirect :: "web_env \<Rightarrow> jsval \<Rightarrow> jsstr \<Rightarrow> jsstr option" where
  "sanitizeAuthRedirect env v trusted =
     (if \<not> is_str v then None
      else
        let target = trim (str_of v) in
        if target = [] \<or> js_includes target [92] \<or> starts_with target (js ''//'') then None
        else case newURL env trusted of
          None \<Rightarrow> None
        | Some trustedOrigin \<Rightarrow>
            if protocol trustedOrigin \<notin> set allowedRedirectProtocols then None
            else case (if starts_with target (js ''/'') then newURLBase env target (origin trustedOrigin)
                       else newURL env target) of
              None \<Rightarrow> None
            | Some redirectURL \<Rightarrow>
                if protocol redirectURL \<notin> set allowedRedirectProtocols \<or> origin redirectURL \<noteq> origin trustedOrigin
                then None
                else Some (pathname redirectURL @ search redirectURL @ hash redirectURL))"

definition rememberAuthRedirect ::
  "web_env \<Rightarrow> jsval \<Rightarrow> jsstr \<Rightarrow> session_storage option \<Rightarrow> session_storage option" where
  "rememberAuthRedirect env v trusted storage =
     (case (sanitizeAuthRedirect env v trusted, storage) of
        (Some redirect, Some st) \<Rightarrow> Some (snd (setItem authRedirectSessionStorageKey redirect st))
      | _ \<Rightarrow> storage)"

definition takeRememberedAuthRedirect ::
  "web_env \<Rightarrow> jsval \<Rightarrow> jsstr \<Rightarrow> session_storage option \<Rightarrow> jsstr option \<times> session_storage option" where
  "takeRememberedAuthRedirect env explicitValue trusted storage =
     (let explicitRedirect = sanitizeAuthRedirect env explicitValue trusted in
      case storage of
        None \<Rightarrow> (explicitRedirect, None)
      | Some st \<Rightarrow>
          (case getItem authRedirectSessionStorageKey st of
             None \<Rightarrow> (explicitRedirect, Some st)
           | Some rememberedRedirect \<Rightarrow>
               (case removeItem authRedirectSessionStorageKey st of
                  (False, st') \<Rightarrow> (explicitRedirect, Some st')
                | (True, st') \<Rightarrow>
                    (case explicitRedirect of
                       Some p \<Rightarrow> (Some p, Some st')
                     | None \<Rightarrow>
                         (sanitizeAuthRedirect env
                            (case rememberedRedirect of Some p \<Rightarrow> JStr p | None \<Rightarrow> JNull) trusted, Some st')))))"

text \<open>The language a user saved: the field, the settings object or the settings as JSON text.\<close>

definition string_field :: "jsval \<Rightarrow> string \<Rightarrow> jsstr option" where
  "string_field v k = (if is_str (jget v (js k)) then Some (str_of (jget v (js k))) else None)"

definition getSavedLanguage :: "web_env \<Rightarrow> jsval \<Rightarrow> jsstr option" where
  "getSavedLanguage env usr =
     (let language = jget usr (js ''language''); setting = jget usr (js ''setting'') in
      if is_str language then Some (str_of language)
      else if is_record setting then string_field setting ''language''
      else if \<not> is_str setting then None
      else case parseJSON env (str_of setting) of
        None \<Rightarrow> None
      | Some v \<Rightarrow> string_field v ''language'')"

section \<open>Lemmas\<close>

subsection \<open>Tickets\<close>

text \<open>A normalised ticket: not blank, no surrounding space, at most 512 units.\<close>

definition ticket_ok :: "jsstr \<Rightarrow> bool" where
  "ticket_ok t \<longleftrightarrow> trim t = t \<and> t \<noteq> [] \<and> length t \<le> 512"

lemma payload_Some:
  "createMiniAppBindingConfirmationPayload t = Some p \<longleftrightarrow> p = trim t \<and> ticket_ok p"
  "createMiniAppCheckoutConfirmationPayload t = Some p \<longleftrightarrow> p = trim t \<and> ticket_ok p"
  by (auto simp: createMiniAppBindingConfirmationPayload_def createMiniAppCheckoutConfirmationPayload_def
      maxBindingTicketLength_def maxCheckoutTicketLength_def ticket_ok_def Let_def)

lemma payload_ok:
  "ticket_ok t \<Longrightarrow> createMiniAppBindingConfirmationPayload t = Some t"
  "ticket_ok t \<Longrightarrow> createMiniAppCheckoutConfirmationPayload t = Some t"
  by (simp_all add: payload_Some) (simp_all add: ticket_ok_def)

text \<open>Storage whose operations do not throw.\<close>

definition works :: "session_storage \<Rightarrow> bool" where
  "works st \<longleftrightarrow> \<not> getThrows st \<and> \<not> setThrows st \<and> \<not> removeThrows st"

lemma storage_simps:
  "works st \<Longrightarrow> getItem k st = Some (map_of (stored st) k)"
  "works st \<Longrightarrow> setItem k v st = (True, st\<lparr>stored := AList.update k v (stored st)\<rparr>)"
  "works st \<Longrightarrow> removeItem k st = (True, st\<lparr>stored := AList.delete k (stored st)\<rparr>)"
  "works (st\<lparr>stored := m\<rparr>) = works st"
  by (simp_all add: works_def getItem_def setItem_def removeItem_def)

definition remembered_binding :: "handoff_window \<Rightarrow> jsstr option" where
  "remembered_binding w = fst (readMiniAppBindingSessionTicket (tabStorage w))"

lemma remembered_binding_remember:
  "tabStorage w = Some st \<Longrightarrow> works st \<Longrightarrow> ticket_ok t \<Longrightarrow> remembered_binding (remember_binding t w) = Some t"
  by (simp add: remembered_binding_def remember_binding_def rememberMiniAppBindingSessionTicket_def
      readMiniAppBindingSessionTicket_def payload_ok storage_simps update_conv')

lemma remembered_binding_clear:
  "tabStorage w = Some st \<Longrightarrow> works st \<Longrightarrow>
     remembered_binding (w\<lparr>tabStorage := clearMiniAppBindingSessionTicket (tabStorage w)\<rparr>) = None"
  by (simp add: remembered_binding_def clearMiniAppBindingSessionTicket_def readMiniAppBindingSessionTicket_def
      storage_simps delete_conv')

lemma remembered_binding_take:
  "initialBindingTicket w = None \<Longrightarrow> handed_over_binding env w = (None, w') \<Longrightarrow> tabStorage w' = tabStorage w \<Longrightarrow>
     fst (takeBindingTicketFromLocation env w) = remembered_binding w"
  by (simp add: takeBindingTicketFromLocation_def remembered_binding_def split: prod.splits)

subsection \<open>Links of the mini program\<close>

text \<open>
  What the composition relies on from \<open>URL\<close>: parsing the serialisation of a URL gives the URL
  again, whatever the base.
\<close>

definition reparses :: "web_env \<Rightarrow> (jsstr \<Rightarrow> url option) \<Rightarrow> bool" where
  "reparses env parse \<longleftrightarrow>
     (\<forall>s u. parse s = Some u \<longrightarrow>
        newURL env (href u) = Some u \<and> newURLBase env (href u) (js ''https://console.invalid'') = Some u)"

lemma readCheckoutURL_parsed:
  assumes "readCheckoutURL env v = Inr u"
  obtains p t s where "parseURL (sapi env) s = Some p" "u = href p" "pathname p = js ''/miniapp-checkout''" "search p = []"
    "searchParams env (drop 1 (hash p)) = [(js ''checkout_ticket'', t)]" "ticket_ok (trim t)"
proof -
  from assms obtain s p where p: "parseURL (sapi env) s = Some p" "u = href p" "pathname p = js ''/miniapp-checkout''"
    "search p = []" "length (searchParams env (drop 1 (hash p))) = 1"
    "length (param_values (js ''checkout_ticket'') (searchParams env (drop 1 (hash p)))) = 1"
    "trim (param_values (js ''checkout_ticket'') (searchParams env (drop 1 (hash p))) ! 0) \<noteq> []"
    "length (param_values (js ''checkout_ticket'') (searchParams env (drop 1 (hash p))) ! 0) \<le> 512"
    by (auto simp: readCheckoutURL_def Let_def split: if_splits sum.splits option.splits)
  then obtain t where t: "searchParams env (drop 1 (hash p)) = [(js ''checkout_ticket'', t)]"
    using param_values_one by blast
  with p(7,8) have "ticket_ok (trim t)"
    using length_trim[of t] by (simp add: param_values_def ticket_ok_def)
  with p(1-4) t that show ?thesis by blast
qed

lemma consumeMiniAppCheckoutURL_accepts:
  assumes "newURLBase env raw (js ''https://console.invalid'') = Some p" "pathname p = js ''/miniapp-checkout''" "search p = []"
    "fragmentParams env (drop 1 (hash p)) = [(js ''checkout_ticket'', t)]" "ticket_ok (trim t)"
  shows "consumeMiniAppCheckoutURL env raw = Some (Some (trim t), js ''/miniapp-checkout'')"
  using assms payload_Some(2)[of t "trim t"]
  by (simp add: consumeMiniAppCheckoutURL_def miniAppCheckoutPath_def param_values_def)

lemma load_checkout_module_captures:
  assumes "newURL env (location_href w) = Some p" "pathname p = js ''/miniapp-checkout''"
    and "map_of (handoff w) miniAppCheckoutTicketBootstrapWindowKey = None"
    and "consumeMiniAppCheckoutURL env (location_href w) = Some (Some t, js ''/miniapp-checkout'')" "ticket_ok t"
    and "newURLBase env (js ''/miniapp-checkout'') (location_href w) = Some u'"
  shows "browserCheckoutTicket (load_checkout_module env w) = Some (Some t)
    \<and> location_href (load_checkout_module env w) = href u'"
  using assms
  by (simp add: load_checkout_module_def location_pathname_def miniAppCheckoutPath_def handed_over_checkout_def
      consumeBootstrapCheckoutTicket_def consumeMiniAppCheckoutBootstrapTicket_def Let_def
      captureCheckoutTicketFromLocation_def replaceState_def retainCheckoutTicket_def
      rememberMiniAppCheckoutTicket_def payload_ok split: option.splits)

lemma empty_fragment_no_ticket:
  assumes "newURLBase env raw (js ''https://console.invalid'') = Some u" "hash u = []" "fragmentParams env [] = []"
  shows "consumeMiniAppCheckoutURL env raw \<noteq> Some (Some t, visible)"
  using assms by (auto simp: consumeMiniAppCheckoutURL_def param_values_def Let_def split: if_splits)

subsection \<open>Redirects\<close>

definition trusted_target :: "web_env \<Rightarrow> jsstr \<Rightarrow> jsstr \<Rightarrow> bool" where
  "trusted_target env trusted p \<longleftrightarrow>
     (\<exists>s (t :: url) (u :: url). newURL env trusted = Some t \<and> (newURL env s = Some u \<or> newURLBase env s (origin t) = Some u)
        \<and> protocol u \<in> set allowedRedirectProtocols \<and> origin u = origin t
        \<and> p = pathname u @ search u @ hash u)"

lemma sanitizeAuthRedirect_trusted:
  "sanitizeAuthRedirect env v trusted = Some p \<Longrightarrow> trusted_target env trusted p"
  unfolding sanitizeAuthRedirect_def trusted_target_def Let_def
  by (auto split: if_splits option.splits)

lemma takeRemembered_explicit:
  "sanitizeAuthRedirect env v trusted = Some p \<Longrightarrow> fst (takeRememberedAuthRedirect env v trusted storage) = Some p"
  by (auto simp: takeRememberedAuthRedirect_def Let_def split: option.splits prod.splits bool.splits)

text \<open>
  A local address the sanitiser produced, and what \<open>URL\<close> gives for it with the trusted origin as
  base: the serialisation starts with a slash, holds no blank at its ends and no backslash, and
  resolves to its own parts unless it starts with two slashes.
\<close>

definition resolves_locally :: "web_env \<Rightarrow> jsstr \<Rightarrow> jsstr \<Rightarrow> bool" where
  "resolves_locally env trusted p \<longleftrightarrow>
     starts_with p (js ''/'') \<and> trim p = p \<and> \<not> js_includes p [92]
     \<and> (\<exists>t :: url. newURL env trusted = Some t \<and> protocol t \<in> set allowedRedirectProtocols
          \<and> (starts_with p (js ''//'') \<or>
              (\<exists>u :: url. newURLBase env p (origin t) = Some u \<and> protocol u \<in> set allowedRedirectProtocols
                 \<and> origin u = origin t \<and> pathname u @ search u @ hash u = p)))"

lemma sanitizeAuthRedirect_again:
  assumes "resolves_locally env trusted p"
  shows "sanitizeAuthRedirect env (JStr p) trusted = (if starts_with p (js ''//'') then None else Some p)"
proof -
  have "p \<noteq> []" using assms by (auto simp: resolves_locally_def starts_with_def js_def)
  with assms show ?thesis
    unfolding sanitizeAuthRedirect_def Let_def resolves_locally_def by auto
qed

section \<open>Examples\<close>

definition link_service_env :: service_env where
  "link_service_env = (demo_service_env (JObj [(js ''checkout_url'', JStr (js ''x''))]))
     \<lparr>searchParams := \<lambda>s. if s = [] then [] else [(js ''checkout_ticket'', js '' t1'')]\<rparr>"

definition landed_url :: url where
  "landed_url = demo_checkout_url\<lparr>hash := [], href := js ''https://api.example.com/miniapp-checkout''\<rparr>"

definition known_url :: "jsstr \<Rightarrow> url option" where
  "known_url s = (if s = js ''/miniapp-checkout'' then Some landed_url
     else map_of (map (\<lambda>u. (href u, u)) [demo_url, demo_checkout_url, landed_url]) s)"

definition link_env :: web_env where
  "link_env = \<lparr>newURL = known_url, newURLBase = (\<lambda>s b. known_url s), fragmentParams = searchParams link_service_env,
     parseJSON = (\<lambda>s. None)\<rparr>"

definition working_storage :: session_storage where
  "working_storage = \<lparr>stored = [], getThrows = False, setThrows = False, removeThrows = False\<rparr>"

definition fresh_window :: "jsstr \<Rightarrow> handoff_window" where
  "fresh_window u = \<lparr>location_href = u, handoff = [], tabStorage = Some working_storage,
     initialBindingTicket = None, browserCheckoutTicket = None\<rparr>"

text \<open>
  The sanitiser rejects an address that starts with two slashes, which browsers read as another host, but
  produces one from an absolute address whose path starts with two slashes.
\<close>

definition slashes_url :: url where
  "slashes_url = demo_url\<lparr>pathname := js ''//evil.example/x'', search := [], hash := [], href := js ''https://api.example.com//evil.example/x''\<rparr>"

definition slashes_env :: web_env where
  "slashes_env = \<lparr>newURL = (\<lambda>s. map_of [(js ''https://api.example.com//evil.example/x'', slashes_url),
       (js ''https://api.example.com'', demo_url)] s),
     newURLBase = (\<lambda>s b. None), fragmentParams = (\<lambda>s. []), parseJSON = (\<lambda>s. None)\<rparr>"

lemma sanitizer_yields_protocol_relative:
  "sanitizeAuthRedirect slashes_env (JStr (js ''https://api.example.com//evil.example/x'')) (js ''https://api.example.com'') =
     Some (js ''//evil.example/x'')"
  "sanitizeAuthRedirect slashes_env (JStr (js ''//evil.example/x'')) (js ''https://api.example.com'') = None"
  by code_simp+

section \<open>Properties\<close>





text \<open>
  C40. The address a user returns to after signing in lies on the console's own origin, whether it comes
  from the address bar or from the tab's storage. A remembered address comes back unchanged exactly once,
  except that one starting with two slashes is dropped.
\<close>

theorem auth_redirect_remembered:
  assumes "sanitizeAuthRedirect env v trusted = Some p" "resolves_locally env trusted p" "works st"
    and "sanitizeAuthRedirect env explicit trusted = None"
    and "takeRememberedAuthRedirect env explicit trusted (rememberAuthRedirect env v trusted (Some st)) = (r, storage)"
  shows "r = (if starts_with p (js ''//'') then None else Some p) \<and> trusted_target env trusted p
    \<and> fst (takeRememberedAuthRedirect env explicit trusted storage) = None"
proof -
  have "rememberAuthRedirect env v trusted (Some st) =
      Some (st\<lparr>stored := AList.update authRedirectSessionStorageKey p (stored st)\<rparr>)"
    using assms(1,3) by (simp add: rememberAuthRedirect_def storage_simps)
  moreover have "sanitizeAuthRedirect env JNull trusted = None" by (simp add: sanitizeAuthRedirect_def)
  ultimately show ?thesis
    using assms(3-5) sanitizeAuthRedirect_again[OF assms(2)] sanitizeAuthRedirect_trusted[OF assms(1)]
    by (auto simp: takeRememberedAuthRedirect_def storage_simps update_conv' delete_conv' Let_def)
qed

definition home_url :: url where
  "home_url = demo_url\<lparr>pathname := js ''/keys'', search := js ''?p=2'', hash := []\<rparr>"

definition home_env :: web_env where
  "home_env = \<lparr>newURL = (\<lambda>s. Some demo_url), newURLBase = (\<lambda>s b. Some home_url), fragmentParams = (\<lambda>s. []),
     parseJSON = (\<lambda>s. None)\<rparr>"

theorem auth_redirect_remembered_witness:
  "fst (takeRememberedAuthRedirect home_env JUndefined []
     (rememberAuthRedirect home_env (JStr (js ''/keys?p=2'')) [] (Some working_storage))) = Some (js ''/keys?p=2'')"
proof -
  have p: "sanitizeAuthRedirect home_env (JStr (js ''/keys?p=2'')) [] = Some (js ''/keys?p=2'')"
    "works working_storage" "sanitizeAuthRedirect home_env JUndefined [] = None"
    "\<not> starts_with (js ''/keys?p=2'') (js ''//'')" by code_simp+
  have "starts_with (js ''/keys?p=2'') (js ''/'')" "trim (js ''/keys?p=2'') = js ''/keys?p=2''"
    "\<not> js_includes (js ''/keys?p=2'') [92]" "protocol demo_url \<in> set allowedRedirectProtocols"
    "protocol home_url \<in> set allowedRedirectProtocols" "origin home_url = origin demo_url"
    "pathname home_url @ search home_url @ hash home_url = js ''/keys?p=2''" by code_simp+
  then have "resolves_locally home_env [] (js ''/keys?p=2'')"
    unfolding resolves_locally_def home_env_def by simp
  then show ?thesis
    using auth_redirect_remembered[OF p(1) _ p(2,3)] p(4)
    by (cases "takeRememberedAuthRedirect home_env JUndefined []
      (rememberAuthRedirect home_env (JStr (js ''/keys?p=2'')) [] (Some working_storage))") auto
qed

end
