(* ===== verification/Playground_Messages.thy ===== *)
theory Playground_Messages
  imports Js_Collections
begin

text \<open>
  The messages of the console's playground (\<open>web/src/features/playground/lib/message\<close>,
  \<open>lib/streaming/payload-builder.ts\<close> and \<open>types.ts\<close>): their versions and timing, the separation
  of reasoning between \<open>think\<close> tags from the visible text, streaming, finishing and repairing
  an answer, editing a conversation, and the request built from it.

  Times and durations are rational numbers. The clock, \<open>Date.now()\<close>, is the argument \<open>now\<close> of a
  synchronous call, during which it stands still; identifiers of \<open>nanoid\<close> are arguments; \<open>t\<close> is the
  translation of \<open>i18next\<close>.
\<close>

section \<open>Model\<close>

subsection \<open>Messages\<close>

datatype MessageRole = UserRole | AssistantRole | SystemRole

datatype MessageStatus = Loading | Streaming | Complete | Error

record MessageVersion =
  ver_id :: jsstr
  ver_content :: jsstr

record Reasoning =
  r_content :: jsstr
  r_duration :: rat
  r_startedAt :: "rat option"
  r_completedAt :: "rat option"
  r_durationMs :: "rat option"

record Message =
  msg_key :: jsstr
  msg_from :: MessageRole
  versions :: "MessageVersion list"
  createdAt :: "rat option"
  startedAt :: "rat option"
  completedAt :: "rat option"
  durationMs :: "rat option"
  sources :: "(jsstr \<times> jsstr) list option"
  reasoning :: "Reasoning option"
  isReasoningStreaming :: "bool option"
  isReasoningComplete :: "bool option"
  isContentComplete :: "bool option"
  msg_status :: "MessageStatus option"
  errorCode :: "jsstr option option"

datatype error_message =
    API_REQUEST_ERROR | NETWORK_ERROR | PARSE_ERROR | STREAM_START_ERROR | CONNECTION_CLOSED | INTERRUPTED

fun ERROR_MESSAGES :: "error_message \<Rightarrow> jsstr" where
  "ERROR_MESSAGES API_REQUEST_ERROR = js ''Request error occurred''"
| "ERROR_MESSAGES NETWORK_ERROR = js ''Network connection failed or server not responding''"
| "ERROR_MESSAGES PARSE_ERROR = js ''Error parsing response data''"
| "ERROR_MESSAGES STREAM_START_ERROR = js ''Error establishing connection''"
| "ERROR_MESSAGES CONNECTION_CLOSED = js ''Connection closed''"
| "ERROR_MESSAGES INTERRUPTED = js ''Generation was interrupted''"

definition createMessageVersion :: "jsstr \<Rightarrow> jsstr \<Rightarrow> MessageVersion" where
  "createMessageVersion nid content = \<lparr>ver_id = nid, ver_content = content\<rparr>"

definition getCurrentVersion :: "Message \<Rightarrow> MessageVersion" where
  "getCurrentVersion message =
     (case versions message of v # vs \<Rightarrow> v | [] \<Rightarrow> \<lparr>ver_id = js ''default'', ver_content = []\<rparr>)"

definition getMessageContent :: "Message \<Rightarrow> jsstr" where
  "getMessageContent message = ver_content (getCurrentVersion message)"

definition hasMessageContent :: "Message \<Rightarrow> bool" where
  "hasMessageContent message \<longleftrightarrow> trim (getMessageContent message) \<noteq> []"

definition updateCurrentVersionContent :: "Message \<Rightarrow> jsstr \<Rightarrow> Message" where
  "updateCurrentVersionContent message content =
     message\<lparr>versions := [(getCurrentVersion message)\<lparr>ver_content := content\<rparr>]\<rparr>"

definition createUserMessage :: "jsstr \<Rightarrow> jsstr \<Rightarrow> jsstr \<Rightarrow> rat \<Rightarrow> Message" where
  "createUserMessage nid vid content created =
     \<lparr>msg_key = nid, msg_from = UserRole, versions = [createMessageVersion vid content], createdAt = Some created,
      startedAt = None, completedAt = None, durationMs = None, sources = None, reasoning = None,
      isReasoningStreaming = None, isReasoningComplete = None, isContentComplete = None, msg_status = None,
      errorCode = None\<rparr>"

definition createLoadingAssistantMessage :: "jsstr \<Rightarrow> jsstr \<Rightarrow> rat \<Rightarrow> Message" where
  "createLoadingAssistantMessage nid vid started =
     \<lparr>msg_key = nid, msg_from = AssistantRole, versions = [createMessageVersion vid []], createdAt = Some started,
      startedAt = Some started, completedAt = None, durationMs = None, sources = None, reasoning = None,
      isReasoningStreaming = Some False, isReasoningComplete = Some False, isContentComplete = Some False,
      msg_status = Some Loading, errorCode = None\<rparr>"

subsection \<open>Content parts\<close>

datatype ContentPart = TextPart "jsstr option" | ImagePart jsstr

definition buildMessageContent :: "jsstr \<Rightarrow> jsstr list \<Rightarrow> jsstr + ContentPart list" where
  "buildMessageContent text imageUrls =
     (let validImages = filter (\<lambda>url. trim url \<noteq> []) imageUrls in
      if validImages = [] then Inl text
      else Inr (TextPart (Some text) # map (\<lambda>url. ImagePart (trim url)) validImages))"

definition getTextContent :: "jsstr + ContentPart list \<Rightarrow> jsstr" where
  "getTextContent content =
     (case content of
        Inl text \<Rightarrow> text
      | Inr parts \<Rightarrow>
          (case find (\<lambda>p. case p of TextPart x \<Rightarrow> True | ImagePart u \<Rightarrow> False) parts of
             Some (TextPart (Some text)) \<Rightarrow> text
           | _ \<Rightarrow> []))"

definition formatMessageForAPI :: "Message \<Rightarrow> MessageRole \<times> jsstr" where
  "formatMessageForAPI message = (msg_from message, ver_content (getCurrentVersion message))"

definition isValidMessage :: "Message \<Rightarrow> bool" where
  "isValidMessage message \<longleftrightarrow>
     versions message \<noteq> [] \<and> \<not> (msg_from message = AssistantRole \<and> \<not> hasMessageContent message)"

subsection \<open>Reasoning\<close>

definition open_tag :: jsstr where
  "open_tag = js ''<think>''"

definition close_tag :: jsstr where
  "close_tag = js ''</think>''"

text \<open>
  The loop of \<open>parseThinkTags\<close> from \<open>currentPos\<close> on, given the rest of the content: the visible
  parts, the reasoning parts and whether a tag is left open.
\<close>

function think_scan :: "jsstr \<Rightarrow> jsstr list \<times> jsstr list \<times> bool" where
  "think_scan rest =
     (case index_of open_tag rest of
        None \<Rightarrow> (if rest \<noteq> [] then [rest] else [], [], False)
      | Some openPos \<Rightarrow>
          let before = (if openPos > 0 then [take openPos rest] else []);
              after = drop (openPos + 7) rest
          in case index_of close_tag after of
               None \<Rightarrow> (before, [after], True)
             | Some closePos \<Rightarrow>
                 (case think_scan (drop (closePos + 8) after) of
                    (vs, rs, unclosed) \<Rightarrow> (before @ vs, take closePos after # rs, unclosed)))"
  by pat_completeness auto

termination
proof (relation "measure length")
  fix rest after :: jsstr and openPos closePos
  assume "index_of open_tag rest = Some openPos" "after = drop (openPos + 7) rest"
    "index_of close_tag after = Some closePos"
  then have "length after \<ge> 8" using index_of_length[of close_tag after closePos] by (simp add: close_tag_def)
  moreover from this \<open>after = _\<close> have "length after < length rest" by auto
  ultimately show "(drop (closePos + 8) after, rest) \<in> measure length" by simp
qed simp

declare think_scan.simps [simp del]

record ParsedThinkTags =
  visibleContent :: jsstr
  think_reasoning :: jsstr
  hasUnclosedTag :: bool

definition parseThinkTags :: "jsstr \<Rightarrow> ParsedThinkTags" where
  "parseThinkTags content =
     (if \<not> js_includes content open_tag
      then \<lparr>visibleContent = content, think_reasoning = [], hasUnclosedTag = False\<rparr>
      else case think_scan content of
        (visibleParts, reasoningParts, unclosed) \<Rightarrow>
          \<lparr>visibleContent = trim (concat visibleParts), think_reasoning = trim (join [10, 10] reasoningParts),
           hasUnclosedTag = unclosed\<rparr>)"

subsection \<open>Timing\<close>

definition orElse :: "'a option \<Rightarrow> 'a option \<Rightarrow> 'a option" where
  "orElse x y = (case x of Some a \<Rightarrow> Some a | None \<Rightarrow> y)"

definition completeAssistantTiming :: "rat \<Rightarrow> Message \<Rightarrow> Message" where
  "completeAssistantTiming completed message =
     (if msg_from message \<noteq> AssistantRole then message
      else let started = the (orElse (startedAt message) (orElse (createdAt message) (Some completed))) in
        message\<lparr>startedAt := Some started, completedAt := Some completed,
          durationMs := Some (max 0 (completed - started))\<rparr>)"

definition startReasoningTiming :: "rat \<Rightarrow> Message \<Rightarrow> Reasoning" where
  "startReasoningTiming started message =
     (case reasoning message of
        None \<Rightarrow> \<lparr>r_content = [], r_duration = 0, r_startedAt = Some started, r_completedAt = None, r_durationMs = None\<rparr>
      | Some r \<Rightarrow> r\<lparr>r_startedAt := orElse (r_startedAt r) (Some started)\<rparr>)"

definition completeReasoningTiming :: "rat \<Rightarrow> Message \<Rightarrow> Message" where
  "completeReasoningTiming completed message =
     (case reasoning message of
        None \<Rightarrow> message
      | Some r \<Rightarrow>
          if r_durationMs r \<noteq> None then message
          else
            let started = the (orElse (r_startedAt r) (orElse (startedAt message) (Some completed)));
                duration = max 0 (completed - started)
            in message\<lparr>reasoning := Some (r\<lparr>r_startedAt := Some started, r_completedAt := Some completed,
                 r_durationMs := Some duration, r_duration := of_int \<lceil>duration / 1000\<rceil>\<rparr>)\<rparr>)"

subsection \<open>Streaming\<close>

definition processStreamingContent :: "rat \<Rightarrow> Message \<Rightarrow> jsstr \<Rightarrow> Message" where
  "processStreamingContent now message contentChunk =
     (let fullContent = ver_content (getCurrentVersion message) @ contentChunk in
      if reasoning message = None \<and> \<not> js_includes fullContent open_tag
      then (updateCurrentVersionContent message fullContent)\<lparr>isReasoningStreaming := Some False\<rparr>
      else
        let parsed = parseThinkTags fullContent;
            finalReasoning =
              (if think_reasoning parsed \<noteq> []
               then Some ((startReasoningTiming now message)\<lparr>r_content := think_reasoning parsed\<rparr>)
               else reasoning message)
        in (updateCurrentVersionContent message fullContent)
             \<lparr>reasoning := finalReasoning, isReasoningStreaming := Some (hasUnclosedTag parsed)\<rparr>)"

datatype StreamChunkType = ReasoningChunk | ContentChunk

definition getAppendableChunk :: "jsstr \<Rightarrow> jsstr \<Rightarrow> jsstr" where
  "getAppendableChunk currentContent chunk =
     (if currentContent = [] \<or> \<not> starts_with chunk currentContent then chunk
      else drop (length currentContent) chunk)"

definition applyStreamingChunk :: "rat \<Rightarrow> Message \<Rightarrow> StreamChunkType \<Rightarrow> jsstr \<Rightarrow> Message" where
  "applyStreamingChunk now message ty chunk =
     (if msg_status message = Some Error then message
      else case ty of
        ReasoningChunk \<Rightarrow>
          let r = startReasoningTiming now message;
              appendableChunk = getAppendableChunk (r_content r) chunk
          in message\<lparr>reasoning := Some (r\<lparr>r_content := r_content r @ appendableChunk\<rparr>),
               isReasoningStreaming := Some True, msg_status := Some Streaming\<rparr>
      | ContentChunk \<Rightarrow>
          let appendableChunk = getAppendableChunk (ver_content (getCurrentVersion message)) chunk;
              contentMessage = processStreamingContent now message appendableChunk
          in (if isReasoningStreaming contentMessage = Some True then contentMessage
              else completeReasoningTiming now contentMessage)\<lparr>msg_status := Some Streaming\<rparr>)"

fun firstNonEmpty :: "jsstr list \<Rightarrow> jsstr" where
  "firstNonEmpty [] = []"
| "firstNonEmpty (s # ss) = (if s \<noteq> [] then s else firstNonEmpty ss)"

definition reasoningText :: "Message \<Rightarrow> jsstr" where
  "reasoningText message = (case reasoning message of Some r \<Rightarrow> r_content r | None \<Rightarrow> [])"

definition finalizeMessage :: "rat \<Rightarrow> Message \<Rightarrow> jsstr \<Rightarrow> Message" where
  "finalizeMessage now message apiReasoningContent =
     (let content = ver_content (getCurrentVersion message);
          parsedThinkTags = (if js_includes content open_tag then Some (parseThinkTags content) else None);
          visible = (case parsedThinkTags of Some p \<Rightarrow> visibleContent p | None \<Rightarrow> content);
          finalReasoning = firstNonEmpty [apiReasoningContent, reasoningText message,
            case parsedThinkTags of Some p \<Rightarrow> think_reasoning p | None \<Rightarrow> []]
      in completeReasoningTiming now
           ((updateCurrentVersionContent message visible)
             \<lparr>reasoning := (if finalReasoning \<noteq> []
                 then Some ((startReasoningTiming now message)\<lparr>r_content := finalReasoning\<rparr>) else None),
              isReasoningStreaming := Some False\<rparr>))"

definition completeAssistantMessage :: "rat \<Rightarrow> Message \<Rightarrow> Message" where
  "completeAssistantMessage now message =
     completeAssistantTiming now ((finalizeMessage now message [])\<lparr>msg_status := Some Complete\<rparr>)"

definition isAssistantMessageFinal :: "Message \<Rightarrow> bool" where
  "isAssistantMessageFinal message \<longleftrightarrow> msg_status message = Some Complete \<or> msg_status message = Some Error"

definition isAssistantMessagePending :: "Message \<Rightarrow> bool" where
  "isAssistantMessagePending message \<longleftrightarrow> msg_status message = Some Loading \<or> msg_status message = Some Streaming"

definition isPendingAssistantMessage :: "Message \<Rightarrow> bool" where
  "isPendingAssistantMessage message \<longleftrightarrow> msg_from message = AssistantRole \<and> isAssistantMessagePending message"

text \<open>The first choice of an answer: its content and its reasoning, absent values as empty ones.\<close>

record ChatCompletionChoice =
  choice_content :: jsstr
  choice_reasoning :: jsstr

definition hasChatCompletionChoice :: "ChatCompletionChoice list \<Rightarrow> bool" where
  "hasChatCompletionChoice choices \<longleftrightarrow> choices \<noteq> []"

definition applyChatCompletionChoice :: "rat \<Rightarrow> Message \<Rightarrow> ChatCompletionChoice \<Rightarrow> Message" where
  "applyChatCompletionChoice now message choice =
     completeAssistantTiming now
       ((finalizeMessage now (updateCurrentVersionContent message (choice_content choice)) (choice_reasoning choice))
          \<lparr>msg_status := Some Complete\<rparr>)"

definition applyChatCompletionResponse :: "rat \<Rightarrow> Message \<Rightarrow> ChatCompletionChoice list \<Rightarrow> Message option" where
  "applyChatCompletionResponse now message choices =
     (case choices of [] \<Rightarrow> None | choice # cs \<Rightarrow> Some (applyChatCompletionChoice now message choice))"

definition interruptedText :: "(jsstr \<Rightarrow> jsstr) \<Rightarrow> jsstr" where
  "interruptedText t = t (ERROR_MESSAGES API_REQUEST_ERROR) @ js '': '' @ t (ERROR_MESSAGES INTERRUPTED)"

definition sanitizeMessage :: "(jsstr \<Rightarrow> jsstr) \<Rightarrow> rat \<Rightarrow> Message \<Rightarrow> Message" where
  "sanitizeMessage t now message =
     (let finalized = finalizeMessage now message [] in
      if hasMessageContent finalized \<or> trim (reasoningText finalized) \<noteq> []
      then completeAssistantTiming now (finalized\<lparr>msg_status := Some Complete, isReasoningStreaming := Some False\<rparr>)
      else completeAssistantTiming now
        ((updateCurrentVersionContent finalized (interruptedText t))
           \<lparr>msg_status := Some Error, isReasoningStreaming := Some False\<rparr>))"

fun last_index :: "('a \<Rightarrow> bool) \<Rightarrow> 'a list \<Rightarrow> nat option" where
  "last_index P [] = None"
| "last_index P (x # xs) =
     (case last_index P xs of Some i \<Rightarrow> Some (Suc i) | None \<Rightarrow> if P x then Some 0 else None)"

definition sanitizeMessagesOnLoad :: "(jsstr \<Rightarrow> jsstr) \<Rightarrow> rat \<Rightarrow> Message list \<Rightarrow> Message list" where
  "sanitizeMessagesOnLoad t now messages =
     (case last_index isPendingAssistantMessage messages of
        None \<Rightarrow> messages
      | Some targetIndex \<Rightarrow> messages[targetIndex := sanitizeMessage t now (messages ! targetIndex)])"

subsection \<open>Updates\<close>

definition updateLastAssistantMessage :: "Message list \<Rightarrow> (Message \<Rightarrow> Message) \<Rightarrow> Message list" where
  "updateLastAssistantMessage messages updater =
     (if messages = [] \<or> msg_from (last messages) \<noteq> AssistantRole then messages
      else butlast messages @ [updater (last messages)])"

definition updateAssistantMessageWithError ::
  "rat \<Rightarrow> Message list \<Rightarrow> jsstr \<Rightarrow> jsstr option \<Rightarrow> jsstr \<Rightarrow> Message list" where
  "updateAssistantMessageWithError now messages errorMessage code title =
     updateLastAssistantMessage messages (\<lambda>message.
       completeAssistantTiming now
         ((updateCurrentVersionContent message (title @ js '': '' @ errorMessage))
            \<lparr>msg_status := Some Error, isReasoningStreaming := Some False,
              errorCode := Some (case code of Some c \<Rightarrow> if c = [] then None else Some c | None \<Rightarrow> None)\<rparr>))"

subsection \<open>Conversations\<close>

text \<open>The identifiers of a new message: its key and that of its version.\<close>

type_synonym fresh_ids = "jsstr \<times> jsstr"

definition appendUserMessagePair :: "rat \<Rightarrow> fresh_ids \<Rightarrow> fresh_ids \<Rightarrow> Message list \<Rightarrow> jsstr \<Rightarrow> Message list" where
  "appendUserMessagePair submitted u a messages content =
     messages @ [createUserMessage (fst u) (snd u) content submitted, createLoadingAssistantMessage (fst a) (snd a) submitted]"

definition createRegeneratedMessages :: "rat \<Rightarrow> fresh_ids \<Rightarrow> Message list \<Rightarrow> jsstr \<Rightarrow> Message list option" where
  "createRegeneratedMessages now a messages messageKey =
     (case find_index (\<lambda>m. msg_key m = messageKey) messages of
        None \<Rightarrow> None
      | Some messageIndex \<Rightarrow>
          Some (take (if msg_from (messages ! messageIndex) = UserRole then messageIndex + 1 else messageIndex) messages
                @ [createLoadingAssistantMessage (fst a) (snd a) now]))"

definition removeMessageByKey :: "Message list \<Rightarrow> jsstr \<Rightarrow> Message list" where
  "removeMessageByKey messages messageKey = filter (\<lambda>m. msg_key m \<noteq> messageKey) messages"

definition getPreviousUserMessage :: "Message list \<Rightarrow> nat \<Rightarrow> Message option" where
  "getPreviousUserMessage messages beforeIndex =
     find (\<lambda>m. msg_from m = UserRole) (rev (take beforeIndex messages))"

definition applyMessageEdit ::
  "rat \<Rightarrow> fresh_ids \<Rightarrow> Message list \<Rightarrow> jsstr \<Rightarrow> jsstr \<Rightarrow> bool \<Rightarrow> (Message list \<times> bool) option" where
  "applyMessageEdit submitted a messages messageKey content shouldSubmit =
     (case find_index (\<lambda>m. msg_key m = messageKey) messages of
        None \<Rightarrow> None
      | Some messageIndex \<Rightarrow>
          let updatedMessages = map (\<lambda>m. if msg_key m = messageKey
                then (updateCurrentVersionContent m content)
                  \<lparr>createdAt := (if shouldSubmit then Some submitted else createdAt m)\<rparr>
                else m) messages
          in if \<not> shouldSubmit \<or> msg_from (updatedMessages ! messageIndex) \<noteq> UserRole
             then Some (updatedMessages, False)
             else Some (take (messageIndex + 1) updatedMessages
                        @ [createLoadingAssistantMessage (fst a) (snd a) submitted], True))"

definition getEditingMessageContent :: "Message list \<Rightarrow> jsstr option \<Rightarrow> jsstr" where
  "getEditingMessageContent messages editingKey =
     (case editingKey of
        None \<Rightarrow> []
      | Some k \<Rightarrow>
          if k = [] then []
          else case find (\<lambda>m. msg_key m = k) messages of Some m \<Rightarrow> getMessageContent m | None \<Rightarrow> [])"

subsection \<open>What a message shows\<close>

record MessageContentState =
  displayContent :: jsstr
  isAssistant :: bool
  showLoader :: bool
  showMessageContent :: bool
  shownSources :: "(jsstr \<times> jsstr) list"
  reasoningContent :: "jsstr option"

definition shouldShowMessageLoader :: "Message \<Rightarrow> bool \<Rightarrow> jsstr \<Rightarrow> bool" where
  "shouldShowMessageLoader message assistant versionContent \<longleftrightarrow>
     assistant \<and> isReasoningStreaming message \<noteq> Some True
     \<and> (msg_status message = Some Loading \<or> msg_status message = Some Streaming \<and> versionContent = [])"

definition shouldShowMessageContent :: "Message \<Rightarrow> jsstr \<Rightarrow> bool" where
  "shouldShowMessageContent message versionContent \<longleftrightarrow>
     (msg_from message = UserRole \<or> isReasoningStreaming message \<noteq> Some True) \<and> versionContent \<noteq> []"

definition getDisplayContent :: "Message \<Rightarrow> jsstr \<Rightarrow> jsstr" where
  "getDisplayContent message versionContent =
     (if msg_from message \<noteq> AssistantRole \<or> \<not> js_includes versionContent open_tag then versionContent
      else visibleContent (parseThinkTags versionContent))"

definition getMessageContentState :: "Message \<Rightarrow> jsstr \<Rightarrow> MessageContentState" where
  "getMessageContentState message versionContent =
     (let assistant = msg_from message = AssistantRole in
      \<lparr>displayContent = getDisplayContent message versionContent, isAssistant = assistant,
       showLoader = shouldShowMessageLoader message assistant versionContent,
       showMessageContent = shouldShowMessageContent message versionContent,
       shownSources = (case sources message of Some ss \<Rightarrow> ss | None \<Rightarrow> []),
       reasoningContent = (if assistant \<and> reasoningText message \<noteq> [] then Some (reasoningText message) else None)\<rparr>)"

definition isAdminRole :: "int option \<Rightarrow> bool" where
  "isAdminRole role \<longleftrightarrow> (case role of Some r \<Rightarrow> r \<ge> 10 | None \<Rightarrow> False)"

record MessageErrorState =
  errorContent :: jsstr
  isModelPrice :: bool
  showSettingsLink :: bool

definition getMessageErrorState :: "Message \<Rightarrow> bool \<Rightarrow> MessageErrorState option" where
  "getMessageErrorState message isAdmin =
     (if msg_status message \<noteq> Some Error then None
      else let modelPrice = errorCode message = Some (Some (js ''model_price_error'')) in
        Some \<lparr>errorContent = firstNonEmpty [getMessageContent message, js ''An unknown error occurred''],
              isModelPrice = modelPrice, showSettingsLink = modelPrice \<and> isAdmin\<rparr>)"

subsection \<open>The request\<close>

record PlaygroundConfig =
  cfg_model :: jsstr
  cfg_group :: jsstr
  cfg_temperature :: rat
  cfg_top_p :: rat
  cfg_max_tokens :: rat
  cfg_frequency_penalty :: rat
  cfg_presence_penalty :: rat
  cfg_seed :: "rat option"
  cfg_stream :: bool

record ParameterEnabled =
  en_temperature :: bool
  en_top_p :: bool
  en_max_tokens :: bool
  en_frequency_penalty :: bool
  en_presence_penalty :: bool
  en_seed :: bool

record ChatCompletionRequest =
  req_model :: jsstr
  req_group :: jsstr
  req_messages :: "(MessageRole \<times> jsstr) list"
  req_stream :: bool
  req_temperature :: "rat option"
  req_top_p :: "rat option"
  req_max_tokens :: "rat option"
  req_frequency_penalty :: "rat option"
  req_presence_penalty :: "rat option"
  req_seed :: "rat option"

definition buildChatCompletionPayload ::
  "Message list \<Rightarrow> PlaygroundConfig \<Rightarrow> ParameterEnabled \<Rightarrow> ChatCompletionRequest" where
  "buildChatCompletionPayload messages config parameterEnabled =
     (let opt = (\<lambda>b x. if b then Some x else None) in
      \<lparr>req_model = cfg_model config, req_group = cfg_group config,
       req_messages = map formatMessageForAPI (filter isValidMessage messages), req_stream = cfg_stream config,
       req_temperature = opt (en_temperature parameterEnabled) (cfg_temperature config),
       req_top_p = opt (en_top_p parameterEnabled) (cfg_top_p config),
       req_max_tokens = opt (en_max_tokens parameterEnabled) (cfg_max_tokens config),
       req_frequency_penalty = opt (en_frequency_penalty parameterEnabled) (cfg_frequency_penalty config),
       req_presence_penalty = opt (en_presence_penalty parameterEnabled) (cfg_presence_penalty config),
       req_seed = (if en_seed parameterEnabled then cfg_seed config else None)\<rparr>)"

section \<open>Library\<close>

subsection \<open>Think tags\<close>

text \<open>A text made of visible parts, each followed by a closed block of reasoning.\<close>

definition weave :: "(jsstr \<times> jsstr) list \<Rightarrow> jsstr" where
  "weave segs = concat (map (\<lambda>(v, r). v @ open_tag @ r @ close_tag) segs)"

definition clean_seg :: "jsstr \<times> jsstr \<Rightarrow> bool" where
  "clean_seg seg \<longleftrightarrow> \<not> sublist open_tag (fst seg) \<and> \<not> sublist close_tag (snd seg)"

lemma weave_simps [simp]: "weave [] = []" "weave (seg # segs) = fst seg @ open_tag @ snd seg @ close_tag @ weave segs"
  by (auto simp: weave_def split: prod.splits)

lemma open_tag_length [simp]: "length open_tag = 7" "open_tag \<noteq> []" "length close_tag = 8" "close_tag \<noteq> []"
  by (simp_all add: open_tag_def close_tag_def)

lemma open_tag_at:
  assumes "index_of open_tag s = Some n"
  obtains v t where "s = v @ open_tag @ t" "take n s = v" "drop (n + 7) s = t" "\<not> sublist open_tag v"
  using that[OF index_of_split[OF assms, unfolded open_tag_length] refl refl index_of_first[OF assms]] by simp

lemma close_tag_at:
  assumes "index_of close_tag s = Some n"
  obtains r t where "s = r @ close_tag @ t" "take n s = r" "drop (n + 8) s = t" "\<not> sublist close_tag r"
  using that[OF index_of_split[OF assms, unfolded open_tag_length] refl refl index_of_first[OF assms]] by simp

lemma think_scan_plain: "index_of open_tag s = None \<Longrightarrow> think_scan s = (if s \<noteq> [] then [s] else [], [], False)"
  by (simp add: think_scan.simps[of s])

lemma think_scan_open:
  "index_of open_tag s = Some n \<Longrightarrow> take n s = v \<Longrightarrow> drop (n + 7) s = after \<Longrightarrow> index_of close_tag after = None \<Longrightarrow>
     think_scan s = (if n > 0 then [v] else [], [after], True)"
  by (simp add: think_scan.simps[of s] Let_def)

lemma think_scan_closed:
  "index_of open_tag s = Some n \<Longrightarrow> take n s = v \<Longrightarrow> drop (n + 7) s = after \<Longrightarrow> index_of close_tag after = Some k \<Longrightarrow>
   take k after = r \<Longrightarrow> drop (k + 8) after = t \<Longrightarrow> think_scan t = (vs, rs, u) \<Longrightarrow>
     think_scan s = ((if n > 0 then [v] else []) @ vs, r # rs, u)"
  by (simp add: think_scan.simps[of s] Let_def)

definition parts_of :: "jsstr \<Rightarrow> jsstr \<Rightarrow> jsstr list \<Rightarrow> bool \<Rightarrow> bool" where
  "parts_of content vis rs unclosed \<longleftrightarrow>
     (\<exists>segs tail. content = weave segs @ tail \<and> list_all clean_seg segs \<and>
       (if unclosed
        then \<exists>v r. tail = v @ open_tag @ r \<and> clean_seg (v, r)
               \<and> vis = concat (map fst segs) @ v \<and> rs = map snd segs @ [r]
        else \<not> sublist open_tag tail \<and> vis = concat (map fst segs) @ tail \<and> rs = map snd segs))"

lemma parts_of_plain: "\<not> sublist open_tag s \<Longrightarrow> parts_of s s [] False"
  unfolding parts_of_def by (intro exI[of _ "[]"] exI[of _ s]) simp

lemma parts_of_open: "clean_seg (v, r) \<Longrightarrow> parts_of (v @ open_tag @ r) v [r] True"
  unfolding parts_of_def by (intro exI[of _ "[]"] exI[of _ "v @ open_tag @ r"]) auto

lemma parts_of_closed:
  assumes "clean_seg (v, r)" "parts_of t vis rs u"
  shows "parts_of (v @ open_tag @ r @ close_tag @ t) (v @ vis) (r # rs) u"
proof -
  from assms(2) obtain segs tail where "t = weave segs @ tail" "list_all clean_seg segs"
    "if u then \<exists>v r. tail = v @ open_tag @ r \<and> clean_seg (v, r)
               \<and> vis = concat (map fst segs) @ v \<and> rs = map snd segs @ [r]
     else \<not> sublist open_tag tail \<and> vis = concat (map fst segs) @ tail \<and> rs = map snd segs"
    unfolding parts_of_def by blast
  with assms(1) show ?thesis
    unfolding parts_of_def by (intro exI[of _ "(v, r) # segs"] exI[of _ tail]) (auto split: if_splits)
qed

lemma think_scan_parts:
  "think_scan content = (vs, rs, unclosed) \<Longrightarrow> parts_of content (concat vs) rs unclosed"
proof (induction content arbitrary: vs rs unclosed rule: think_scan.induct)
  case (1 s)
  show ?case
  proof (cases "index_of open_tag s")
    case None
    with "1.prems" think_scan_plain[OF None] parts_of_plain[OF index_of_None[OF None]] show ?thesis by auto
  next
    case (Some n)
    then obtain v after where v: "s = v @ open_tag @ after" "take n s = v" "drop (n + 7) s = after" "\<not> sublist open_tag v"
      by (rule open_tag_at)
    have b: "concat (if n > 0 then [v] else []) = v" using v(2) by (cases n) auto
    show ?thesis
    proof (cases "index_of close_tag after")
      case None
      have "clean_seg (v, after)" using v(4) index_of_None[OF None] by (simp add: clean_seg_def)
      then show ?thesis
        using "1.prems" think_scan_open[OF Some v(2,3) None] b parts_of_open v(1) by simp
    next
      case close: (Some k)
      then obtain r t where r: "after = r @ close_tag @ t" "take k after = r" "drop (k + 8) after = t" "\<not> sublist close_tag r"
        by (rule close_tag_at)
      obtain vs' rs' u' where rec: "think_scan t = (vs', rs', u')" by (cases "think_scan t")
      have e: "concat vs = v @ concat vs'" "rs = r # rs'" "unclosed = u'"
        using "1.prems" think_scan_closed[OF Some v(2,3) close r(2,3) rec] b by auto
      have "parts_of t (concat vs') rs' u'"
        using "1.IH"[OF Some refl v(3)[symmetric] close] r(3) rec by simp
      then show ?thesis using parts_of_closed[of v r t] v(1,4) r(1,4) e by (simp add: clean_seg_def)
    qed
  qed
qed

lemma parse_plain: "\<not> js_includes content open_tag \<Longrightarrow>
    parseThinkTags content = \<lparr>visibleContent = content, think_reasoning = [], hasUnclosedTag = False\<rparr>"
  by (simp add: parseThinkTags_def)

subsection \<open>Fields the operations keep\<close>

lemma content_update [simp]: "getMessageContent (updateCurrentVersionContent m c) = c"
  by (simp add: getMessageContent_def getCurrentVersion_def updateCurrentVersionContent_def)

lemma update_keeps [simp]:
  "reasoning (updateCurrentVersionContent m c) = reasoning m" "msg_status (updateCurrentVersionContent m c) = msg_status m"
  "startedAt (updateCurrentVersionContent m c) = startedAt m"
  "msg_from (updateCurrentVersionContent m c) = msg_from m" "msg_key (updateCurrentVersionContent m c) = msg_key m"
  by (simp_all add: updateCurrentVersionContent_def)

lemma content_fields [simp]:
  "getMessageContent (m\<lparr>reasoning := r\<rparr>) = getMessageContent m"
  "getMessageContent (m\<lparr>isReasoningStreaming := b\<rparr>) = getMessageContent m"
  "getMessageContent (m\<lparr>msg_status := st\<rparr>) = getMessageContent m"
  "getMessageContent (m\<lparr>errorCode := ec\<rparr>) = getMessageContent m"
  "reasoningText (m\<lparr>isReasoningStreaming := b\<rparr>) = reasoningText m"
  "reasoningText (m\<lparr>msg_status := st\<rparr>) = reasoningText m"
  "reasoningText (m\<lparr>errorCode := ec\<rparr>) = reasoningText m"
  "reasoningText (updateCurrentVersionContent m c) = reasoningText m"
  "reasoningText (m\<lparr>reasoning := r\<rparr>) = (case r of Some r \<Rightarrow> r_content r | None \<Rightarrow> [])"
  by (simp_all add: getMessageContent_def getCurrentVersion_def reasoningText_def)

lemma timing_keeps [simp]:
  "getMessageContent (completeAssistantTiming now m) = getMessageContent m"
  "reasoningText (completeAssistantTiming now m) = reasoningText m"
  "reasoning (completeAssistantTiming now m) = reasoning m"
  "msg_status (completeAssistantTiming now m) = msg_status m"
  "msg_from (completeAssistantTiming now m) = msg_from m"
  "msg_key (completeAssistantTiming now m) = msg_key m"
  "isReasoningStreaming (completeAssistantTiming now m) = isReasoningStreaming m"
  by (simp_all add: completeAssistantTiming_def getMessageContent_def getCurrentVersion_def reasoningText_def Let_def)

lemma reasoning_timing_keeps [simp]:
  "getMessageContent (completeReasoningTiming now m) = getMessageContent m"
  "reasoningText (completeReasoningTiming now m) = reasoningText m"
  "msg_status (completeReasoningTiming now m) = msg_status m"
  "msg_from (completeReasoningTiming now m) = msg_from m"
  "msg_key (completeReasoningTiming now m) = msg_key m"
  "startedAt (completeReasoningTiming now m) = startedAt m"
  "isReasoningStreaming (completeReasoningTiming now m) = isReasoningStreaming m"
  by (auto simp: completeReasoningTiming_def getMessageContent_def getCurrentVersion_def reasoningText_def Let_def
      split: option.splits)

lemma finalize_keeps [simp]:
  "startedAt (finalizeMessage now m a) = startedAt m"
  "msg_from (finalizeMessage now m a) = msg_from m" "msg_key (finalizeMessage now m a) = msg_key m"
  "msg_status (finalizeMessage now m a) = msg_status m" "isReasoningStreaming (finalizeMessage now m a) = Some False"
  by (simp_all add: finalizeMessage_def Let_def)

lemma finalize_content [simp]:
  "getMessageContent (finalizeMessage now m a) = visibleContent (parseThinkTags (getMessageContent m))"
  by (simp add: finalizeMessage_def Let_def parse_plain flip: getMessageContent_def)

lemma finalize_reasoning [simp]:
  "reasoningText (finalizeMessage now m a) =
     firstNonEmpty [a, reasoningText m, think_reasoning (parseThinkTags (getMessageContent m))]"
  by (simp add: finalizeMessage_def Let_def parse_plain flip: getMessageContent_def)

lemma chunk_keeps [simp]:
  "msg_from (applyStreamingChunk now m ty c) = msg_from m" "msg_key (applyStreamingChunk now m ty c) = msg_key m"
  "startedAt (applyStreamingChunk now m ty c) = startedAt m"
  by (auto simp: applyStreamingChunk_def processStreamingContent_def Let_def split: StreamChunkType.splits)

lemma process_content [simp]: "getMessageContent (processStreamingContent now m c) = getMessageContent m @ c"
  by (simp add: processStreamingContent_def Let_def flip: getMessageContent_def)

lemma process_reasoning:
  "reasoningText (processStreamingContent now m c) =
     (let r = think_reasoning (parseThinkTags (getMessageContent m @ c)) in if r \<noteq> [] then r else reasoningText m)"
  by (auto simp: processStreamingContent_def Let_def parse_plain reasoningText_def[of m] simp flip: getMessageContent_def)

subsection \<open>Streaming\<close>

text \<open>A chunk that does not repeat the text before it: it is a delta and not a snapshot.\<close>

definition delta :: "jsstr \<Rightarrow> jsstr \<Rightarrow> bool" where
  "delta content chunk \<longleftrightarrow> content = [] \<or> \<not> starts_with chunk content"

lemma getAppendableChunk_delta [simp]: "delta content chunk \<Longrightarrow> getAppendableChunk content chunk = chunk"
  by (auto simp: getAppendableChunk_def delta_def)

lemma content_chunk:
  assumes "msg_status m \<noteq> Some Error" "delta (getMessageContent m) c"
  shows "getMessageContent (applyStreamingChunk now m ContentChunk c) = getMessageContent m @ c"
    "msg_status (applyStreamingChunk now m ContentChunk c) = Some Streaming"
    "reasoningText (applyStreamingChunk now m ContentChunk c) =
      (let r = think_reasoning (parseThinkTags (getMessageContent m @ c)) in if r \<noteq> [] then r else reasoningText m)"
  using assms by (auto simp: applyStreamingChunk_def Let_def process_reasoning simp flip: getMessageContent_def)

definition stream_content :: "Message \<Rightarrow> (rat \<times> jsstr) list \<Rightarrow> Message" where
  "stream_content m ds = foldl (\<lambda>m (now, d). applyStreamingChunk now m ContentChunk d) m ds"

fun deltas :: "jsstr \<Rightarrow> (rat \<times> jsstr) list \<Rightarrow> bool" where
  "deltas content [] \<longleftrightarrow> True"
| "deltas content ((now, d) # ds) \<longleftrightarrow> delta content d \<and> deltas (content @ d) ds"

lemma stream_content_step [simp]:
  "stream_content m [] = m"
  "stream_content m ((now, d) # ds) = stream_content (applyStreamingChunk now m ContentChunk d) ds"
  by (simp_all add: stream_content_def)

lemma stream_content_keeps [simp]:
  "startedAt (stream_content m ds) = startedAt m"
  "msg_from (stream_content m ds) = msg_from m" "msg_key (stream_content m ds) = msg_key m"
  by (induction ds arbitrary: m) auto

lemma stream_content_total:
  assumes "msg_status m \<noteq> Some Error" "deltas (getMessageContent m) ds"
  shows "getMessageContent (stream_content m ds) = getMessageContent m @ concat (map snd ds)
    \<and> (let r = think_reasoning (parseThinkTags (getMessageContent m @ concat (map snd ds)))
       in r = [] \<or> (ds = [] \<and> reasoningText (stream_content m ds) = reasoningText m)
            \<or> reasoningText (stream_content m ds) = r)"
  using assms
proof (induction ds arbitrary: m)
  case (Cons x ds)
  obtain now d where x: "x = (now, d)" by (cases x)
  let ?m = "applyStreamingChunk now m ContentChunk d"
  from Cons.prems x have d: "delta (getMessageContent m) d" "deltas (getMessageContent m @ d) ds" by auto
  note c = content_chunk[OF Cons.prems(1) d(1), of now]
  have "msg_status ?m \<noteq> Some Error" "deltas (getMessageContent ?m) ds" using c d by auto
  from Cons.IH[OF this] show ?case using c x by (auto simp: Let_def split: if_splits)
qed simp

lemma completeAssistantMessage_fields [simp]:
  "getMessageContent (completeAssistantMessage now m) = visibleContent (parseThinkTags (getMessageContent m))"
  "reasoningText (completeAssistantMessage now m) =
     firstNonEmpty [reasoningText m, think_reasoning (parseThinkTags (getMessageContent m))]"
  "msg_status (completeAssistantMessage now m) = Some Complete"
  "msg_from (completeAssistantMessage now m) = msg_from m" "msg_key (completeAssistantMessage now m) = msg_key m"
  by (simp_all add: completeAssistantMessage_def)

lemma duration_from_start:
  "msg_from m = AssistantRole \<Longrightarrow> startedAt m = Some t \<Longrightarrow>
     durationMs (completeAssistantTiming now m) = Some (max 0 (now - t))"
  by (simp add: completeAssistantTiming_def orElse_def)

lemma loading_fields [simp]:
  "getMessageContent (createLoadingAssistantMessage k v t) = []" "reasoningText (createLoadingAssistantMessage k v t) = []"
  "msg_status (createLoadingAssistantMessage k v t) = Some Loading" "msg_key (createLoadingAssistantMessage k v t) = k"
  "msg_from (createLoadingAssistantMessage k v t) = AssistantRole" "startedAt (createLoadingAssistantMessage k v t) = Some t"
  by (simp_all add: createLoadingAssistantMessage_def getMessageContent_def getCurrentVersion_def createMessageVersion_def
      reasoningText_def)

subsection \<open>The request of a conversation\<close>

lemma payload_of_pair:
  "req_messages (buildChatCompletionPayload (appendUserMessagePair now u a messages content) config en) =
     req_messages (buildChatCompletionPayload messages config en) @ [(UserRole, content)]"
  by (simp add: buildChatCompletionPayload_def appendUserMessagePair_def isValidMessage_def hasMessageContent_def
      createUserMessage_def createLoadingAssistantMessage_def formatMessageForAPI_def getMessageContent_def
      getCurrentVersion_def createMessageVersion_def Let_def trim_Nil)

text \<open>
  An edited message that is submitted again becomes the last thing the model is asked: what followed it is
  gone, what preceded it is kept.
\<close>

lemma applyMessageEdit_submitted:
  assumes "applyMessageEdit now a messages k content True = Some (messages', True)" "distinct (map msg_key messages)"
  shows "\<exists>before m after. messages = before @ m # after \<and> msg_key m = k \<and> msg_from m = UserRole
    \<and> messages' = before @ [(updateCurrentVersionContent m content)\<lparr>createdAt := Some now\<rparr>,
        createLoadingAssistantMessage (fst a) (snd a) now]"
proof -
  let ?f = "\<lambda>m. if msg_key m = k then (updateCurrentVersionContent m content)\<lparr>createdAt := Some now\<rparr> else m"
  from assms(1) obtain i where i: "find_index (\<lambda>m. msg_key m = k) messages = Some i"
    "msg_from (map ?f messages ! i) = UserRole"
    "messages' = take (i + 1) (map ?f messages) @ [createLoadingAssistantMessage (fst a) (snd a) now]"
    unfolding applyMessageEdit_def if_True Let_def by (auto split: option.splits if_splits)
  from find_index_Some[OF i(1)] have l: "i < length messages" "msg_key (messages ! i) = k"
    "\<forall>j < i. msg_key (messages ! j) \<noteq> k" by auto
  have "map ?f (take i messages) = take i messages" using l by (intro map_idI) (auto simp: in_set_conv_nth)
  then have "take (i + 1) (map ?f messages) = take i messages @ [?f (messages ! i)]"
    using l(1) by (simp add: take_Suc_conv_app_nth take_map)
  with i l show ?thesis
    by (intro exI[of _ "take i messages"] exI[of _ "messages ! i"] exI[of _ "drop (Suc i) messages"])
      (auto simp: id_take_nth_drop)
qed

section \<open>Properties\<close>

text \<open>
  C19. Reasoning between think tags is separated from the visible text without loss. A text with a tag
  is, from left to right, visible parts each followed by a closed block of reasoning, and then either
  visible text or one block left open; no visible part holds an opening tag and no block a closing
  one. The parser shows the visible parts joined, yields the blocks joined by an empty line, both
  without outer space, and reports exactly whether a block is left open. A text without a tag is shown
  unchanged.
\<close>

theorem parseThinkTags_parts:
  "if js_includes content open_tag
   then \<exists>vis rs. parts_of content vis rs (hasUnclosedTag (parseThinkTags content))
      \<and> visibleContent (parseThinkTags content) = trim vis
      \<and> think_reasoning (parseThinkTags content) = trim (join [10, 10] rs)
   else parseThinkTags content = \<lparr>visibleContent = content, think_reasoning = [], hasUnclosedTag = False\<rparr>"
proof (cases "think_scan content")
  case (fields vs rs u)
  then show ?thesis using think_scan_parts[OF fields] by (auto simp: parseThinkTags_def)
qed



text \<open>
  Two ways in which a piece of the text matters after all. A piece that begins with all the text before
  it is taken for a snapshot, and a closing tag cut in two leaves its first half behind as reasoning.
\<close>

lemma repeated_piece_dropped:
  "getMessageContent (stream_content (createLoadingAssistantMessage [1] [2] 0) [(1, js ''ha''), (2, js ''ha'')]) = js ''ha''"
  by code_simp

lemma split_closing_tag_kept:
  "reasoningText (completeAssistantMessage 3 (stream_content (createLoadingAssistantMessage [1] [2] 0)
      [(1, js ''<think></''), (2, js ''think>Hello'')])) = js ''</''
   \<and> reasoningText (completeAssistantMessage 3 (stream_content (createLoadingAssistantMessage [1] [2] 0)
      [(1, js ''<think></think>Hello'')])) = []"
  by code_simp

end
