(* ===== verification/Playground_Storage.thy ===== *)
theory Playground_Storage
  imports Playground_Messages "HOL-Library.Monad_Syntax"
begin

text \<open>
  What the playground keeps in the browser (\<open>web/src/features/playground/lib/storage\<close>): the schema of a
  stored message, the limits on number and size, the repair of messages on loading, and the
  operations on \<open>localStorage\<close>.

  \<open>JSON.parse\<close> and \<open>JSON.stringify\<close> are parameters; parsing yields \<open>None\<close> where it throws. A value
  in memory is written as the JSON value that stands for it, with the absent fields left out.
\<close>

section \<open>Model\<close>

subsection \<open>The schema\<close>

fun dec_str :: "jsval \<Rightarrow> jsstr option" where
  "dec_str (JStr s) = Some s"
| "dec_str _ = None"

fun dec_num :: "jsval \<Rightarrow> rat option" where
  "dec_num (JNum (Fin q)) = Some q"
| "dec_num _ = None"

fun dec_bool :: "jsval \<Rightarrow> bool option" where
  "dec_bool (JBool b) = Some b"
| "dec_bool _ = None"

definition optional :: "(jsval \<Rightarrow> 'a option) \<Rightarrow> jsval \<Rightarrow> 'a option option" where
  "optional dec v = (if v = JUndefined then Some None else map_option Some (dec v))"

definition nullable :: "(jsval \<Rightarrow> 'a option) \<Rightarrow> jsval \<Rightarrow> 'a option option" where
  "nullable dec v = (if v = JNull then Some None else map_option Some (dec v))"

fun dec_all :: "(jsval \<Rightarrow> 'a option) \<Rightarrow> jsval list \<Rightarrow> 'a list option" where
  "dec_all dec [] = Some []"
| "dec_all dec (v # vs) = do { x \<leftarrow> dec v; xs \<leftarrow> dec_all dec vs; Some (x # xs) }"

definition dec_array :: "(jsval \<Rightarrow> 'a option) \<Rightarrow> jsval \<Rightarrow> 'a list option" where
  "dec_array dec v = (case v of JArr vs \<Rightarrow> dec_all dec vs | _ \<Rightarrow> None)"

definition dec_object :: "((string \<Rightarrow> jsval) \<Rightarrow> 'a option) \<Rightarrow> jsval \<Rightarrow> 'a option" where
  "dec_object dec v = (case v of JObj ps \<Rightarrow> dec (\<lambda>k. jget v (js k)) | _ \<Rightarrow> None)"

definition messageRoleSchema :: "jsval \<Rightarrow> MessageRole option" where
  "messageRoleSchema v =
     (if v = JStr (js ''user'') then Some UserRole
      else if v = JStr (js ''assistant'') then Some AssistantRole
      else if v = JStr (js ''system'') then Some SystemRole
      else None)"

definition messageStatusSchema :: "jsval \<Rightarrow> MessageStatus option" where
  "messageStatusSchema v =
     (if v = JStr (js ''loading'') then Some Loading
      else if v = JStr (js ''streaming'') then Some Streaming
      else if v = JStr (js ''complete'') then Some Complete
      else if v = JStr (js ''error'') then Some Error
      else None)"

definition messageVersionSchema :: "jsval \<Rightarrow> MessageVersion option" where
  "messageVersionSchema = dec_object (\<lambda>field. do {
     i \<leftarrow> dec_str (field ''id'');
     c \<leftarrow> dec_str (field ''content'');
     Some \<lparr>ver_id = i, ver_content = c\<rparr> })"

definition sourceSchema :: "jsval \<Rightarrow> (jsstr \<times> jsstr) option" where
  "sourceSchema = dec_object (\<lambda>field. do {
     h \<leftarrow> dec_str (field ''href'');
     t \<leftarrow> dec_str (field ''title'');
     Some (h, t) })"

definition reasoningSchema :: "jsval \<Rightarrow> Reasoning option" where
  "reasoningSchema = dec_object (\<lambda>field. do {
     c \<leftarrow> dec_str (field ''content'');
     d \<leftarrow> dec_num (field ''duration'');
     s \<leftarrow> optional dec_num (field ''startedAt'');
     e \<leftarrow> optional dec_num (field ''completedAt'');
     m \<leftarrow> optional dec_num (field ''durationMs'');
     Some \<lparr>r_content = c, r_duration = d, r_startedAt = s, r_completedAt = e, r_durationMs = m\<rparr> })"

definition messageSchema :: "jsval \<Rightarrow> Message option" where
  "messageSchema = dec_object (\<lambda>field. do {
     k \<leftarrow> dec_str (field ''key'');
     f \<leftarrow> messageRoleSchema (field ''from'');
     vs \<leftarrow> dec_array messageVersionSchema (field ''versions'');
     vs \<leftarrow> (if vs = [] then None else Some vs);
     c \<leftarrow> optional dec_num (field ''createdAt'');
     s \<leftarrow> optional dec_num (field ''startedAt'');
     e \<leftarrow> optional dec_num (field ''completedAt'');
     d \<leftarrow> optional dec_num (field ''durationMs'');
     ss \<leftarrow> optional (dec_array sourceSchema) (field ''sources'');
     r \<leftarrow> optional reasoningSchema (field ''reasoning'');
     rs \<leftarrow> optional dec_bool (field ''isReasoningStreaming'');
     rc \<leftarrow> optional dec_bool (field ''isReasoningComplete'');
     cc \<leftarrow> optional dec_bool (field ''isContentComplete'');
     st \<leftarrow> optional messageStatusSchema (field ''status'');
     ec \<leftarrow> optional (nullable dec_str) (field ''errorCode'');
     Some \<lparr>msg_key = k, msg_from = f, versions = vs, createdAt = c, startedAt = s, completedAt = e, durationMs = d,
        sources = ss, reasoning = r, isReasoningStreaming = rs, isReasoningComplete = rc, isContentComplete = cc,
        msg_status = st, errorCode = ec\<rparr> })"

definition messagesSchema :: "jsval \<Rightarrow> Message list option" where
  "messagesSchema = dec_array messageSchema"

subsection \<open>Values in memory\<close>

definition enc_opt :: "string \<Rightarrow> ('a \<Rightarrow> jsval) \<Rightarrow> 'a option \<Rightarrow> (jsstr \<times> jsval) list" where
  "enc_opt k enc x = (case x of Some a \<Rightarrow> [(js k, enc a)] | None \<Rightarrow> [])"

definition enc_num :: "rat \<Rightarrow> jsval" where
  "enc_num q = JNum (Fin q)"

fun role_value :: "MessageRole \<Rightarrow> jsval" where
  "role_value UserRole = JStr (js ''user'')"
| "role_value AssistantRole = JStr (js ''assistant'')"
| "role_value SystemRole = JStr (js ''system'')"

fun status_value :: "MessageStatus \<Rightarrow> jsval" where
  "status_value Loading = JStr (js ''loading'')"
| "status_value Streaming = JStr (js ''streaming'')"
| "status_value Complete = JStr (js ''complete'')"
| "status_value Error = JStr (js ''error'')"

definition version_value :: "MessageVersion \<Rightarrow> jsval" where
  "version_value v = JObj [(js ''id'', JStr (ver_id v)), (js ''content'', JStr (ver_content v))]"

definition source_value :: "jsstr \<times> jsstr \<Rightarrow> jsval" where
  "source_value s = JObj [(js ''href'', JStr (fst s)), (js ''title'', JStr (snd s))]"

definition reasoning_value :: "Reasoning \<Rightarrow> jsval" where
  "reasoning_value r = JObj ([(js ''content'', JStr (r_content r)), (js ''duration'', enc_num (r_duration r))]
     @ enc_opt ''startedAt'' enc_num (r_startedAt r) @ enc_opt ''completedAt'' enc_num (r_completedAt r)
     @ enc_opt ''durationMs'' enc_num (r_durationMs r))"

definition code_value :: "jsstr option \<Rightarrow> jsval" where
  "code_value c = (case c of Some s \<Rightarrow> JStr s | None \<Rightarrow> JNull)"

definition message_value :: "Message \<Rightarrow> jsval" where
  "message_value m = JObj ([(js ''key'', JStr (msg_key m)), (js ''from'', role_value (msg_from m)),
       (js ''versions'', JArr (map version_value (versions m)))]
     @ enc_opt ''createdAt'' enc_num (createdAt m) @ enc_opt ''startedAt'' enc_num (startedAt m)
     @ enc_opt ''completedAt'' enc_num (completedAt m) @ enc_opt ''durationMs'' enc_num (durationMs m)
     @ enc_opt ''sources'' (\<lambda>ss. JArr (map source_value ss)) (sources m)
     @ enc_opt ''reasoning'' reasoning_value (reasoning m)
     @ enc_opt ''isReasoningStreaming'' JBool (isReasoningStreaming m)
     @ enc_opt ''isReasoningComplete'' JBool (isReasoningComplete m)
     @ enc_opt ''isContentComplete'' JBool (isContentComplete m)
     @ enc_opt ''status'' status_value (msg_status m) @ enc_opt ''errorCode'' code_value (errorCode m))"

subsection \<open>Limits\<close>

definition STORAGE_VERSION :: int where
  "STORAGE_VERSION = 1"

definition MAX_STORED_MESSAGES :: nat where
  "MAX_STORED_MESSAGES = 100"

definition MAX_STORED_MESSAGES_BYTES :: nat where
  "MAX_STORED_MESSAGES_BYTES = 1024 * 1024"

definition MAX_LOADED_MESSAGES_CHARS :: nat where
  "MAX_LOADED_MESSAGES_CHARS = 120000"

definition MAX_LOADED_MESSAGE_CHARS :: nat where
  "MAX_LOADED_MESSAGE_CHARS = 40000"

definition MIN_PREFIX_COLLAPSE_LENGTH :: nat where
  "MIN_PREFIX_COLLAPSE_LENGTH = 2000"

definition MIN_REPEATED_SECTION_COUNT :: nat where
  "MIN_REPEATED_SECTION_COUNT = 3"

definition TRUNCATED_CONTENT_SUFFIX :: jsstr where
  "TRUNCATED_CONTENT_SUFFIX = [10, 10] @ js ''[...]''"

definition trimMessages :: "Message list \<Rightarrow> Message list" where
  "trimMessages messages =
     (if length messages \<le> MAX_STORED_MESSAGES then messages
      else drop (length messages - MAX_STORED_MESSAGES) messages)"

definition getMessageSize :: "Message \<Rightarrow> nat" where
  "getMessageSize message = sum_list (map (\<lambda>v. length (ver_content v)) (versions message)) + length (reasoningText message)"

definition truncateText :: "jsstr \<Rightarrow> nat \<Rightarrow> jsstr" where
  "truncateText text maxLength =
     (if length text \<le> maxLength then text
      else if maxLength \<le> length TRUNCATED_CONTENT_SUFFIX then take maxLength text
      else take (maxLength - length TRUNCATED_CONTENT_SUFFIX) text @ TRUNCATED_CONTENT_SUFFIX)"

subsection \<open>Repeated sections\<close>

text \<open>
  \<open>SECTION_HEADING_LINE_PATTERN\<close>: two to six number signs at the start of a line, white space, digits, a
  point, white space and the rest of a line that is not empty. White space may run over line ends. A
  space gives way to the rest of the line when nothing else is left.
\<close>

definition is_line_end :: "int \<Rightarrow> bool" where
  "is_line_end u \<longleftrightarrow> u \<in> {10, 13, 0x2028, 0x2029}"

definition line_length :: "jsstr \<Rightarrow> nat" where
  "line_length s = length (takeWhile (\<lambda>u. \<not> is_line_end u) s)"

text \<open>The last \<open>\s+.+$\<close> of the pattern: how much of the text it matches.\<close>

definition title_length :: "jsstr \<Rightarrow> nat option" where
  "title_length s =
     (let w = takeWhile is_ws s; rest = dropWhile is_ws s in
      if w = [] then None
      else if rest \<noteq> [] then Some (length w + line_length rest)
      else case filter (\<lambda>k. \<not> is_line_end (w ! k)) (rev [1..<length w]) of
        [] \<Rightarrow> None
      | k # ks \<Rightarrow> Some (k + line_length (drop k w)))"

definition heading_length :: "jsstr \<Rightarrow> nat option" where
  "heading_length s =
     (let h = takeWhile (\<lambda>u. u = 35) s; s1 = dropWhile (\<lambda>u. u = 35) s;
          w = takeWhile is_ws s1; s2 = dropWhile is_ws s1;
          d = takeWhile is_digit s2; s3 = dropWhile is_digit s2
      in if 2 \<le> length h \<and> length h \<le> 6 \<and> w \<noteq> [] \<and> d \<noteq> [] \<and> s3 \<noteq> [] \<and> hd s3 = 46
         then map_option (\<lambda>n. length h + length w + length d + 1 + n) (title_length (tl s3))
         else None)"

function section_scan :: "bool \<Rightarrow> nat \<Rightarrow> jsstr \<Rightarrow> (jsstr \<times> nat) list" where
  "section_scan lineStart i [] = []"
| "section_scan lineStart i (u # us) =
     (case (if lineStart then heading_length (u # us) else None) of
        Some n \<Rightarrow> (take n (u # us), i) # section_scan False (i + n) (drop (n - 1) us)
      | None \<Rightarrow> section_scan (is_line_end u) (i + 1) us)"
  by pat_completeness auto

termination
  by (relation "measure (\<lambda>(b, i, s). length s)") auto

definition getSectionOccurrences :: "jsstr \<Rightarrow> (jsstr \<times> nat) list" where
  "getSectionOccurrences text = section_scan True 0 text"

definition getHeadingCounts :: "(jsstr \<times> nat) list \<Rightarrow> (jsstr \<times> nat) list" where
  "getHeadingCounts occurrences = foldl (\<lambda>counts occ. upsert (fst occ) 0 Suc counts) [] occurrences"

fun last_repeated :: "(jsstr \<times> nat) list \<Rightarrow> jsstr list \<Rightarrow> (jsstr \<times> nat) list \<Rightarrow> nat list" where
  "last_repeated counts seen [] = []"
| "last_repeated counts seen (occ # rest) =
     (if (case map_of counts (fst occ) of Some n \<Rightarrow> n | None \<Rightarrow> 0) < MIN_REPEATED_SECTION_COUNT \<or> fst occ \<in> set seen
      then last_repeated counts seen rest
      else snd occ # last_repeated counts (fst occ # seen) rest)"

definition findLastRepeatedSectionRunStart :: "jsstr \<Rightarrow> nat option" where
  "findLastRepeatedSectionRunStart text =
     (let occurrences = getSectionOccurrences text;
          indexes = last_repeated (getHeadingCounts occurrences) [] (rev occurrences)
      in if indexes = [] then None else Some (Min (set indexes)))"

definition collapseRepeatedSectionSnapshots :: "jsstr \<Rightarrow> jsstr" where
  "collapseRepeatedSectionSnapshots text =
     (if length text < MIN_PREFIX_COLLAPSE_LENGTH then text
      else case findLastRepeatedSectionRunStart text of None \<Rightarrow> text | Some start \<Rightarrow> drop start text)"

subsection \<open>Loading\<close>

definition normalizeTexts :: "Message \<Rightarrow> Message" where
  "normalizeTexts message =
     message\<lparr>versions := map (\<lambda>v. v\<lparr>ver_content :=
         truncateText (collapseRepeatedSectionSnapshots (ver_content v)) MAX_LOADED_MESSAGE_CHARS\<rparr>) (versions message),
       reasoning := map_option (\<lambda>r. r\<lparr>r_content := truncateText (r_content r) MAX_LOADED_MESSAGE_CHARS\<rparr>)
         (reasoning message)\<rparr>"

definition normalizeStoredMessageForLoad :: "rat \<Rightarrow> Message \<Rightarrow> Message" where
  "normalizeStoredMessageForLoad now message =
     (let normalized = normalizeTexts message in
      if \<not> isAssistantMessagePending normalized
         \<or> \<not> hasMessageContent normalized \<and> trim (reasoningText normalized) = []
      then normalized
      else
        let completed = the (orElse (completedAt normalized)
              (orElse (Option.bind (reasoning normalized) r_completedAt)
              (orElse (startedAt normalized) (orElse (createdAt normalized) (Some now)))))
        in completeAssistantTiming completed
             ((finalizeMessage now normalized [])\<lparr>msg_status := Some Complete, isReasoningStreaming := Some False\<rparr>))"

fun take_by_size :: "nat \<Rightarrow> Message list \<Rightarrow> Message list \<Rightarrow> Message list" where
  "take_by_size totalSize result [] = result"
| "take_by_size totalSize result (message # rest) =
     (if result \<noteq> [] \<and> totalSize + getMessageSize message > MAX_LOADED_MESSAGES_CHARS then result
      else take_by_size (totalSize + getMessageSize message) (message # result) rest)"

definition trimMessagesByContentSize :: "Message list \<Rightarrow> Message list" where
  "trimMessagesByContentSize messages = take_by_size 0 [] (rev messages)"

subsection \<open>The store\<close>

text \<open>\<open>accepts\<close> tells which values the browser takes; \<open>setItem\<close> throws on the others.\<close>

record storage_env =
  jsonParse :: "jsstr \<Rightarrow> jsval option"
  jsonStringify :: "jsval \<Rightarrow> jsstr"
  accepts :: "jsstr \<Rightarrow> jsstr \<Rightarrow> bool"
  translate :: "jsstr \<Rightarrow> jsstr"

type_synonym local_storage = "(jsstr \<times> jsstr) list"

definition MESSAGES_KEY :: jsstr where
  "MESSAGES_KEY = js ''playground_messages''"

definition CONFIG_KEY :: jsstr where
  "CONFIG_KEY = js ''playground_config''"

definition PARAMETER_ENABLED_KEY :: jsstr where
  "PARAMETER_ENABLED_KEY = js ''playground_parameter_enabled''"

definition envelope :: "jsval \<Rightarrow> jsval" where
  "envelope d = JObj [(js ''version'', JNum (int_num STORAGE_VERSION)), (js ''data'', d)]"

definition writeStoredValue :: "storage_env \<Rightarrow> jsstr \<Rightarrow> jsval \<Rightarrow> local_storage \<Rightarrow> local_storage" where
  "writeStoredValue env key d st =
     (let text = jsonStringify env (envelope d) in
      if accepts env key text then AList.update key text st else st)"

definition unwrapStoredValue :: "jsval \<Rightarrow> jsval" where
  "unwrapStoredValue v =
     (case v of
        JObj ps \<Rightarrow> if map_of ps (js ''version'') \<noteq> None \<and> map_of ps (js ''data'') \<noteq> None then jget v (js ''data'') else v
      | _ \<Rightarrow> v)"

text \<open>The value read, if it is not falsy; \<open>None\<close> also where parsing throws.\<close>

definition readStoredValue :: "storage_env \<Rightarrow> jsstr \<Rightarrow> local_storage \<Rightarrow> jsval option" where
  "readStoredValue env key st =
     (case map_of st key of
        None \<Rightarrow> None
      | Some saved \<Rightarrow>
          if saved = [] then None
          else case jsonParse env saved of Some v \<Rightarrow> if truthy v then Some v else None | None \<Rightarrow> None)"

definition readStoredMessagesValue :: "storage_env \<Rightarrow> local_storage \<Rightarrow> jsval option \<times> local_storage" where
  "readStoredMessagesValue env st =
     (case map_of st MESSAGES_KEY of
        None \<Rightarrow> (None, st)
      | Some saved \<Rightarrow>
          if saved = [] then (None, st)
          else if length saved > MAX_STORED_MESSAGES_BYTES then (None, AList.delete MESSAGES_KEY st)
          else (case jsonParse env saved of Some v \<Rightarrow> if truthy v then Some v else None | None \<Rightarrow> None, st))"

definition saveMessages :: "storage_env \<Rightarrow> Message list \<Rightarrow> local_storage \<Rightarrow> local_storage" where
  "saveMessages env messages st =
     (case messagesSchema (JArr (map message_value (trimMessages messages))) of
        None \<Rightarrow> st
      | Some parsed \<Rightarrow> writeStoredValue env MESSAGES_KEY (JArr (map message_value parsed)) st)"

text \<open>
  The list cut to size is a new array even where nothing was cut, so that the messages are
  saved again whenever they could be read.
\<close>

definition loadMessages :: "storage_env \<Rightarrow> rat \<Rightarrow> local_storage \<Rightarrow> Message list option \<times> local_storage" where
  "loadMessages env now st =
     (case readStoredMessagesValue env st of
        (None, st1) \<Rightarrow> (None, st1)
      | (Some saved, st1) \<Rightarrow>
          (case messagesSchema (unwrapStoredValue saved) of
             None \<Rightarrow> (None, st1)
           | Some parsed \<Rightarrow>
               let normalized = map (normalizeStoredMessageForLoad now) parsed;
                   sizeTrimmed = trimMessagesByContentSize (trimMessages normalized);
                   sanitized = sanitizeMessagesOnLoad (translate env) now sizeTrimmed
               in (Some sanitized, saveMessages env sanitized st1)))"

definition clearPlaygroundData :: "local_storage \<Rightarrow> local_storage" where
  "clearPlaygroundData st =
     AList.delete MESSAGES_KEY (AList.delete PARAMETER_ENABLED_KEY (AList.delete CONFIG_KEY st))"

subsection \<open>Settings\<close>

record PartialConfig =
  pc_model :: "jsstr option"
  pc_group :: "jsstr option"
  pc_temperature :: "rat option"
  pc_top_p :: "rat option"
  pc_max_tokens :: "rat option"
  pc_frequency_penalty :: "rat option"
  pc_presence_penalty :: "rat option"
  pc_seed :: "rat option option"
  pc_stream :: "bool option"

definition playgroundConfigSchema :: "jsval \<Rightarrow> PartialConfig option" where
  "playgroundConfigSchema = dec_object (\<lambda>field. do {
     m \<leftarrow> optional dec_str (field ''model'');
     g \<leftarrow> optional dec_str (field ''group'');
     t \<leftarrow> optional dec_num (field ''temperature'');
     p \<leftarrow> optional dec_num (field ''top_p'');
     k \<leftarrow> optional dec_num (field ''max_tokens'');
     f \<leftarrow> optional dec_num (field ''frequency_penalty'');
     e \<leftarrow> optional dec_num (field ''presence_penalty'');
     d \<leftarrow> optional (nullable dec_num) (field ''seed'');
     s \<leftarrow> optional dec_bool (field ''stream'');
     Some \<lparr>pc_model = m, pc_group = g, pc_temperature = t, pc_top_p = p, pc_max_tokens = k,
        pc_frequency_penalty = f, pc_presence_penalty = e, pc_seed = d, pc_stream = s\<rparr> })"

definition partial_config_value :: "PartialConfig \<Rightarrow> jsval" where
  "partial_config_value c = JObj (enc_opt ''model'' JStr (pc_model c) @ enc_opt ''group'' JStr (pc_group c)
     @ enc_opt ''temperature'' enc_num (pc_temperature c) @ enc_opt ''top_p'' enc_num (pc_top_p c)
     @ enc_opt ''max_tokens'' enc_num (pc_max_tokens c)
     @ enc_opt ''frequency_penalty'' enc_num (pc_frequency_penalty c)
     @ enc_opt ''presence_penalty'' enc_num (pc_presence_penalty c)
     @ enc_opt ''seed'' (\<lambda>d. case d of Some q \<Rightarrow> enc_num q | None \<Rightarrow> JNull) (pc_seed c)
     @ enc_opt ''stream'' JBool (pc_stream c))"

definition no_config :: PartialConfig where
  "no_config = \<lparr>pc_model = None, pc_group = None, pc_temperature = None, pc_top_p = None, pc_max_tokens = None,
     pc_frequency_penalty = None, pc_presence_penalty = None, pc_seed = None, pc_stream = None\<rparr>"

definition loadConfig :: "storage_env \<Rightarrow> local_storage \<Rightarrow> PartialConfig" where
  "loadConfig env st =
     (case Option.bind (readStoredValue env CONFIG_KEY st) (\<lambda>saved. playgroundConfigSchema (unwrapStoredValue saved)) of
        Some c \<Rightarrow> c
      | None \<Rightarrow> no_config)"

definition saveConfig :: "storage_env \<Rightarrow> PartialConfig \<Rightarrow> local_storage \<Rightarrow> local_storage" where
  "saveConfig env config st =
     (case playgroundConfigSchema (partial_config_value config) of
        None \<Rightarrow> st
      | Some parsed \<Rightarrow> writeStoredValue env CONFIG_KEY (partial_config_value parsed) st)"

definition DEFAULT_CONFIG :: PlaygroundConfig where
  "DEFAULT_CONFIG = \<lparr>cfg_model = js ''gpt-4o'', cfg_group = js ''default'', cfg_temperature = 7 / 10, cfg_top_p = 1,
     cfg_max_tokens = 4096, cfg_frequency_penalty = 0, cfg_presence_penalty = 0, cfg_seed = None, cfg_stream = True\<rparr>"

definition whole_config :: "PlaygroundConfig \<Rightarrow> PartialConfig" where
  "whole_config c = \<lparr>pc_model = Some (cfg_model c), pc_group = Some (cfg_group c), pc_temperature = Some (cfg_temperature c),
     pc_top_p = Some (cfg_top_p c), pc_max_tokens = Some (cfg_max_tokens c),
     pc_frequency_penalty = Some (cfg_frequency_penalty c), pc_presence_penalty = Some (cfg_presence_penalty c),
     pc_seed = Some (cfg_seed c), pc_stream = Some (cfg_stream c)\<rparr>"

definition pick :: "'a option \<Rightarrow> 'a \<Rightarrow> 'a" where
  "pick x y = (case x of Some a \<Rightarrow> a | None \<Rightarrow> y)"

definition spread_config :: "PlaygroundConfig \<Rightarrow> PartialConfig \<Rightarrow> PlaygroundConfig" where
  "spread_config d c =
     \<lparr>cfg_model = pick (pc_model c) (cfg_model d), cfg_group = pick (pc_group c) (cfg_group d),
       cfg_temperature = pick (pc_temperature c) (cfg_temperature d), cfg_top_p = pick (pc_top_p c) (cfg_top_p d),
       cfg_max_tokens = pick (pc_max_tokens c) (cfg_max_tokens d),
       cfg_frequency_penalty = pick (pc_frequency_penalty c) (cfg_frequency_penalty d),
       cfg_presence_penalty = pick (pc_presence_penalty c) (cfg_presence_penalty d),
       cfg_seed = pick (pc_seed c) (cfg_seed d),
       cfg_stream = pick (pc_stream c) (cfg_stream d)\<rparr>"

definition getInitialPlaygroundConfig :: "storage_env \<Rightarrow> local_storage \<Rightarrow> PlaygroundConfig" where
  "getInitialPlaygroundConfig env st = spread_config DEFAULT_CONFIG (loadConfig env st)"

record PartialEnabled =
  pe_temperature :: "bool option"
  pe_top_p :: "bool option"
  pe_max_tokens :: "bool option"
  pe_frequency_penalty :: "bool option"
  pe_presence_penalty :: "bool option"
  pe_seed :: "bool option"

definition parameterEnabledSchema :: "jsval \<Rightarrow> PartialEnabled option" where
  "parameterEnabledSchema = dec_object (\<lambda>field. do {
     t \<leftarrow> optional dec_bool (field ''temperature'');
     p \<leftarrow> optional dec_bool (field ''top_p'');
     k \<leftarrow> optional dec_bool (field ''max_tokens'');
     f \<leftarrow> optional dec_bool (field ''frequency_penalty'');
     e \<leftarrow> optional dec_bool (field ''presence_penalty'');
     d \<leftarrow> optional dec_bool (field ''seed'');
     Some \<lparr>pe_temperature = t, pe_top_p = p, pe_max_tokens = k, pe_frequency_penalty = f, pe_presence_penalty = e,
       pe_seed = d\<rparr>})"

definition partial_enabled_value :: "PartialEnabled \<Rightarrow> jsval" where
  "partial_enabled_value c = JObj (enc_opt ''temperature'' JBool (pe_temperature c) @ enc_opt ''top_p'' JBool (pe_top_p c)
     @ enc_opt ''max_tokens'' JBool (pe_max_tokens c)
     @ enc_opt ''frequency_penalty'' JBool (pe_frequency_penalty c)
     @ enc_opt ''presence_penalty'' JBool (pe_presence_penalty c)
     @ enc_opt ''seed'' JBool (pe_seed c))"

definition no_enabled :: PartialEnabled where
  "no_enabled = \<lparr>pe_temperature = None, pe_top_p = None, pe_max_tokens = None, pe_frequency_penalty = None,
     pe_presence_penalty = None, pe_seed = None\<rparr>"

definition loadParameterEnabled :: "storage_env \<Rightarrow> local_storage \<Rightarrow> PartialEnabled" where
  "loadParameterEnabled env st =
     (case Option.bind (readStoredValue env PARAMETER_ENABLED_KEY st)
             (\<lambda>saved. parameterEnabledSchema (unwrapStoredValue saved)) of
        Some c \<Rightarrow> c
      | None \<Rightarrow> no_enabled)"

definition saveParameterEnabled :: "storage_env \<Rightarrow> PartialEnabled \<Rightarrow> local_storage \<Rightarrow> local_storage" where
  "saveParameterEnabled env parameterEnabled st =
     (case parameterEnabledSchema (partial_enabled_value parameterEnabled) of
        None \<Rightarrow> st
      | Some parsed \<Rightarrow> writeStoredValue env PARAMETER_ENABLED_KEY (partial_enabled_value parsed) st)"

definition DEFAULT_PARAMETER_ENABLED :: ParameterEnabled where
  "DEFAULT_PARAMETER_ENABLED = \<lparr>en_temperature = True, en_top_p = True, en_max_tokens = False,
     en_frequency_penalty = True, en_presence_penalty = True, en_seed = False\<rparr>"

definition whole_enabled :: "ParameterEnabled \<Rightarrow> PartialEnabled" where
  "whole_enabled c = \<lparr>pe_temperature = Some (en_temperature c), pe_top_p = Some (en_top_p c),
     pe_max_tokens = Some (en_max_tokens c), pe_frequency_penalty = Some (en_frequency_penalty c),
     pe_presence_penalty = Some (en_presence_penalty c), pe_seed = Some (en_seed c)\<rparr>"

definition spread_enabled :: "ParameterEnabled \<Rightarrow> PartialEnabled \<Rightarrow> ParameterEnabled" where
  "spread_enabled d c =
     \<lparr>en_temperature = pick (pe_temperature c) (en_temperature d), en_top_p = pick (pe_top_p c) (en_top_p d),
       en_max_tokens = pick (pe_max_tokens c) (en_max_tokens d),
       en_frequency_penalty = pick (pe_frequency_penalty c) (en_frequency_penalty d),
       en_presence_penalty = pick (pe_presence_penalty c) (en_presence_penalty d),
       en_seed = pick (pe_seed c) (en_seed d)\<rparr>"

definition getInitialParameterEnabled :: "storage_env \<Rightarrow> local_storage \<Rightarrow> ParameterEnabled" where
  "getInitialParameterEnabled env st = spread_enabled DEFAULT_PARAMETER_ENABLED (loadParameterEnabled env st)"

section \<open>Library\<close>

subsection \<open>The schema reads what is written\<close>

lemma jget_opt [simp]:
  "jget (JObj (enc_opt k enc x @ rest)) (js k') =
     (if k = k' then (case x of Some a \<Rightarrow> enc a | None \<Rightarrow> jget (JObj rest) (js k')) else jget (JObj rest) (js k'))"
  "jget (JObj (enc_opt k enc x)) (js k') = (if k = k' then (case x of Some a \<Rightarrow> enc a | None \<Rightarrow> JUndefined) else JUndefined)"
  by (auto simp: jget_def enc_opt_def split: option.splits)

lemma jget_Cons [simp]:
  "jget (JObj ((k, v) # rest)) k' = (if k' = k then v else jget (JObj rest) k')" "jget (JObj []) k' = JUndefined"
  by (auto simp: jget_def)

lemma dec_all_map: "(\<And>x. x \<in> set xs \<Longrightarrow> dec (enc x) = Some x) \<Longrightarrow> dec_all dec (map enc xs) = Some xs"
  by (induction xs) auto

lemma optional_enc:
  "u = JUndefined \<Longrightarrow> (\<And>a. x = Some a \<Longrightarrow> enc a \<noteq> JUndefined \<and> dec (enc a) = Some a) \<Longrightarrow>
     optional dec (case x of Some a \<Rightarrow> enc a | None \<Rightarrow> u) = Some x"
  by (auto simp: optional_def split: option.splits)

lemma enc_num_simps [simp]: "dec_num (enc_num q) = Some q" "enc_num q \<noteq> JUndefined" "enc_num q \<noteq> JNull"
  by (simp_all add: enc_num_def)

lemma version_roundtrip [simp]: "messageVersionSchema (version_value v) = Some v"
  by (simp add: messageVersionSchema_def version_value_def dec_object_def)

lemma source_roundtrip [simp]: "sourceSchema (source_value s) = Some s"
  by (simp add: sourceSchema_def source_value_def dec_object_def)

lemma reasoning_roundtrip [simp]: "reasoningSchema (reasoning_value r) = Some r" "reasoning_value r \<noteq> JUndefined"
  by (simp_all add: reasoningSchema_def reasoning_value_def dec_object_def optional_enc)

lemma role_roundtrip [simp]: "messageRoleSchema (role_value f) = Some f"
  by (cases f) (simp_all add: messageRoleSchema_def)

lemma status_roundtrip [simp]: "messageStatusSchema (status_value st) = Some st" "status_value st \<noteq> JUndefined"
  by (cases st; simp add: messageStatusSchema_def)+

lemma code_roundtrip [simp]: "nullable dec_str (code_value c) = Some c" "code_value c \<noteq> JUndefined"
  by (auto simp: nullable_def code_value_def split: option.splits)

lemma array_roundtrip: "(\<And>x. dec (enc x) = Some x) \<Longrightarrow> dec_array dec (JArr (map enc xs)) = Some xs"
  by (simp add: dec_array_def dec_all_map)

lemma message_roundtrip: "versions m \<noteq> [] \<Longrightarrow> messageSchema (message_value m) = Some m"
  by (simp add: messageSchema_def message_value_def dec_object_def optional_enc array_roundtrip)

lemma messages_roundtrip:
  "(\<And>m. m \<in> set ms \<Longrightarrow> versions m \<noteq> []) \<Longrightarrow> messagesSchema (JArr (map message_value ms)) = Some ms"
  by (simp add: messagesSchema_def dec_array_def dec_all_map message_roundtrip)

lemma messagesSchema_versions:
  assumes "messagesSchema v = Some ms" "m \<in> set ms"
  shows "versions m \<noteq> []"
proof -
  have one: "messageSchema w = Some x \<Longrightarrow> versions x \<noteq> []" for w x
    by (cases w) (auto simp: messageSchema_def dec_object_def bind_eq_Some_conv split: if_splits)
  have "dec_all messageSchema vs = Some xs \<Longrightarrow> x \<in> set xs \<Longrightarrow> versions x \<noteq> []" for vs xs x
    by (induction vs arbitrary: xs) (auto simp: bind_eq_Some_conv one)
  with assms show ?thesis by (auto simp: messagesSchema_def dec_array_def split: jsval.splits)
qed

lemma config_roundtrip [simp]: "playgroundConfigSchema (partial_config_value c) = Some c"
  by (simp add: playgroundConfigSchema_def partial_config_value_def dec_object_def optional_enc nullable_def
      split: option.splits)

lemma spread_whole [simp]: "spread_config d (whole_config c) = c"
  by (simp add: spread_config_def whole_config_def pick_def)

lemma enabled_roundtrip [simp]: "parameterEnabledSchema (partial_enabled_value c) = Some c"
  by (simp add: parameterEnabledSchema_def partial_enabled_value_def dec_object_def optional_enc split: option.splits)

lemma spread_whole_enabled [simp]: "spread_enabled d (whole_enabled c) = c"
  by (simp add: spread_enabled_def whole_enabled_def pick_def)

subsection \<open>Sizes\<close>

lemma truncateText_length: "length (truncateText s n) \<le> n"
  by (auto simp: truncateText_def)

lemma join_length: "length (join sep ws) + length sep \<le> length sep * max 1 (length ws) + length (concat ws)"
proof (induction sep ws rule: join.induct)
  case (3 sep w v ws)
  then show ?case by simp
qed auto

lemma parts_size:
  assumes "parts_of content vis rs u"
  shows "length vis + length (join [10, 10] rs) \<le> length content"
proof -
  from assms obtain segs tail where c: "content = weave segs @ tail"
    "if u then \<exists>v r. tail = v @ open_tag @ r \<and> vis = concat (map fst segs) @ v \<and> rs = map snd segs @ [r]
     else vis = concat (map fst segs) @ tail \<and> rs = map snd segs"
    unfolding parts_of_def by (auto split: if_splits)
  have w: "length (weave segs) = length (concat (map fst segs)) + length (concat (map snd segs)) + 15 * length segs"
    by (induction segs) auto
  have j: "length (join [10, 10 :: int] rs) + 2 \<le> 2 * max 1 (length rs) + length (concat rs)"
    using join_length[of "[10, 10]" rs] by simp
  from c w j show ?thesis by (cases u) (auto simp: max_def split: if_splits)
qed

lemma parse_size:
  "length (visibleContent (parseThinkTags c)) + length (think_reasoning (parseThinkTags c)) \<le> length c"
proof (cases "think_scan c")
  case (fields vs rs u)
  have "length (trim (concat vs)) + length (trim (join [10, 10] rs)) \<le> length c"
    using parts_size[OF think_scan_parts[OF fields]] length_trim[of "concat vs"] length_trim[of "join [10, 10] rs"] by linarith
  with fields show ?thesis by (simp add: parseThinkTags_def)
qed

lemma versions_keep [simp]:
  "versions (completeAssistantTiming t m) = versions m" "versions (completeReasoningTiming t m) = versions m"
  by (auto simp: completeAssistantTiming_def completeReasoningTiming_def Let_def split: option.splits)

lemma versions_update [simp]:
  "versions (updateCurrentVersionContent m c) = [(getCurrentVersion m)\<lparr>ver_content := c\<rparr>]"
  by (simp add: updateCurrentVersionContent_def)

lemma versions_finalize [simp]:
  "versions (finalizeMessage now m a) = [(getCurrentVersion m)\<lparr>ver_content := visibleContent (parseThinkTags (getMessageContent m))\<rparr>]"
  by (simp add: finalizeMessage_def Let_def parse_plain flip: getMessageContent_def)

lemma size_fields [simp]:
  "getMessageSize (completeAssistantTiming t m) = getMessageSize m"
  "getMessageSize (m\<lparr>msg_status := st\<rparr>) = getMessageSize m"
  "getMessageSize (m\<lparr>isReasoningStreaming := b\<rparr>) = getMessageSize m"
  "getMessageSize (updateCurrentVersionContent m c) = length c + length (reasoningText m)"
  by (simp_all add: getMessageSize_def)

definition texts_within :: "nat \<Rightarrow> Message \<Rightarrow> bool" where
  "texts_within n m \<longleftrightarrow> (\<forall>v \<in> set (versions m). length (ver_content v) \<le> n) \<and> length (reasoningText m) \<le> n"

lemma content_within: "texts_within n m \<Longrightarrow> length (getMessageContent m) \<le> n"
  by (auto simp: texts_within_def getMessageContent_def getCurrentVersion_def split: list.splits)

lemma content_size: "length (getMessageContent m) \<le> sum_list (map (\<lambda>v. length (ver_content v)) (versions m))"
  by (auto simp: getMessageContent_def getCurrentVersion_def split: list.splits)

lemma within_fields [simp]:
  "texts_within n (completeAssistantTiming t m) = texts_within n m"
  "texts_within n (m\<lparr>msg_status := st\<rparr>) = texts_within n m"
  "texts_within n (m\<lparr>isReasoningStreaming := b\<rparr>) = texts_within n m"
  by (simp_all add: texts_within_def)

lemma within_mono: "texts_within n m \<Longrightarrow> n \<le> k \<Longrightarrow> texts_within k m"
  by (fastforce simp: texts_within_def)

lemma finalize_within: "texts_within n m \<Longrightarrow> texts_within n (finalizeMessage now m [])"
  using content_within[of n m] parse_size[of "getMessageContent m"] by (auto simp: texts_within_def)

lemma finalize_size: "getMessageSize (finalizeMessage now m []) \<le> getMessageSize m"
  using content_size[of m] parse_size[of "getMessageContent m"] by (auto simp: getMessageSize_def)

lemma normalizeTexts_within: "texts_within MAX_LOADED_MESSAGE_CHARS (normalizeTexts m)"
  by (auto simp: texts_within_def normalizeTexts_def reasoningText_def truncateText_length split: option.splits)

lemma normalize_within: "texts_within MAX_LOADED_MESSAGE_CHARS (normalizeStoredMessageForLoad now m)"
  by (simp add: normalizeStoredMessageForLoad_def Let_def finalize_within normalizeTexts_within)

definition blank :: "Message \<Rightarrow> bool" where
  "blank m \<longleftrightarrow> \<not> hasMessageContent m \<and> trim (reasoningText m) = []"

lemma normalize_pending: "isAssistantMessagePending (normalizeStoredMessageForLoad now m) \<Longrightarrow> blank (normalizeStoredMessageForLoad now m)"
  by (auto simp: normalizeStoredMessageForLoad_def Let_def blank_def isAssistantMessagePending_def split: if_splits)

subsection \<open>Cutting the list\<close>

lemma trimMessages_suffix: "length (trimMessages ms) \<le> MAX_STORED_MESSAGES" "\<exists>k. trimMessages ms = drop k ms"
  "length ms \<le> MAX_STORED_MESSAGES \<Longrightarrow> trimMessages ms = ms"
  by (auto simp: trimMessages_def intro: exI[of _ 0])

abbreviation total_size :: "Message list \<Rightarrow> nat" where
  "total_size ms \<equiv> sum_list (map getMessageSize ms)"

lemma take_by_size_prefix:
  "\<exists>k. take_by_size t result ms = rev (take k ms) @ result
     \<and> (result \<noteq> [] \<longrightarrow> k = 0 \<or> t + total_size (take k ms) \<le> MAX_LOADED_MESSAGES_CHARS)
     \<and> (k < length ms \<longrightarrow> t + total_size (take (Suc k) ms) > MAX_LOADED_MESSAGES_CHARS)"
proof (induction t result ms rule: take_by_size.induct)
  case (2 t result m ms)
  show ?case
  proof (cases "result \<noteq> [] \<and> t + getMessageSize m > MAX_LOADED_MESSAGES_CHARS")
    case True
    then show ?thesis by (intro exI[of _ 0]) auto
  next
    case False
    with "2.IH" obtain k where k: "take_by_size (t + getMessageSize m) (m # result) ms = rev (take k ms) @ m # result"
      "k = 0 \<or> t + getMessageSize m + total_size (take k ms) \<le> MAX_LOADED_MESSAGES_CHARS"
      "k < length ms \<longrightarrow> t + getMessageSize m + total_size (take (Suc k) ms) > MAX_LOADED_MESSAGES_CHARS"
      by auto
    with False show ?thesis by (intro exI[of _ "Suc k"]) (auto simp: add.assoc)
  qed
qed simp

lemma trimMessagesByContentSize_suffix:
  "\<exists>k. trimMessagesByContentSize ms = drop k ms \<and> (ms \<noteq> [] \<longrightarrow> k < length ms)
     \<and> (1 < length (drop k ms) \<longrightarrow> total_size (drop k ms) \<le> MAX_LOADED_MESSAGES_CHARS)
     \<and> (0 < k \<longrightarrow> total_size (drop (k - 1) ms) > MAX_LOADED_MESSAGES_CHARS)"
proof (cases "rev ms")
  case Nil
  then show ?thesis by (intro exI[of _ 0]) (simp add: trimMessagesByContentSize_def)
next
  case (Cons m r)
  have take_rev: "total_size (take j (rev ms)) = total_size (drop (length ms - j) ms)" for j
    by (simp add: take_rev flip: rev_map)
  from take_by_size_prefix[of "getMessageSize m" "[m]" r] obtain k where
    k: "take_by_size (getMessageSize m) [m] r = rev (take k r) @ [m]"
      "k = 0 \<or> total_size (take (Suc k) (rev ms)) \<le> MAX_LOADED_MESSAGES_CHARS"
      "k < length r \<longrightarrow> total_size (take (Suc (Suc k)) (rev ms)) > MAX_LOADED_MESSAGES_CHARS"
    unfolding Cons by auto
  have len: "length ms = Suc (length r)" using Cons by (metis length_Cons length_rev)
  have "trimMessagesByContentSize ms = rev (take (Suc k) (rev ms))"
    using k(1) by (simp add: trimMessagesByContentSize_def Cons)
  then have "trimMessagesByContentSize ms = drop (length ms - Suc k) ms" by (simp add: rev_take)
  moreover have "length ms - Suc (Suc k) = length ms - Suc k - 1" by simp
  ultimately show ?thesis using k(2,3) len unfolding take_rev
    by (intro exI[of _ "length ms - Suc k"]) auto
qed

lemma trimMessagesByContentSize_all:
  assumes "length ms \<le> 1 \<or> total_size ms \<le> MAX_LOADED_MESSAGES_CHARS"
  shows "trimMessagesByContentSize ms = ms"
proof -
  obtain k where k: "trimMessagesByContentSize ms = drop k ms" "ms \<noteq> [] \<longrightarrow> k < length ms"
    "0 < k \<longrightarrow> total_size (drop (k - 1) ms) > MAX_LOADED_MESSAGES_CHARS"
    using trimMessagesByContentSize_suffix by blast
  have "total_size (drop j ms) \<le> total_size ms" for j
    by (metis append_take_drop_id le_add2 map_append sum_list_append)
  then have "k = 0 \<or> length ms \<le> 1" using k(3) assms by (metis not_le gr0I le_trans)
  then show ?thesis using k(1,2) by (cases ms) auto
qed

subsection \<open>Collapsing repeated sections\<close>

lemma title_length_pos:
  assumes "title_length s = Some n"
  shows "0 < n"
proof (cases "dropWhile is_ws s = []")
  case True
  let ?ks = "filter (\<lambda>k. \<not> is_line_end (takeWhile is_ws s ! k)) (rev [1..<length (takeWhile is_ws s)])"
  from assms True obtain k ks where k: "?ks = k # ks" "k \<le> n"
    by (auto simp: title_length_def Let_def split: if_splits list.splits)
  from k(1) have "k \<in> set ?ks" by simp
  then have "1 \<le> k" by simp
  with k(2) show ?thesis by simp
next
  case False
  with assms show ?thesis by (auto simp: title_length_def Let_def split: if_splits)
qed

lemma heading_length_pos: "heading_length s = Some n \<Longrightarrow> 0 < n"
  by (auto simp: heading_length_def Let_def split: if_splits)

lemma section_scan_sound:
  "(h, j) \<in> set (section_scan b i s) \<Longrightarrow> \<exists>n. j = i + n \<and> n < length s \<and> prefix h (drop n s)"
proof (induction b i s rule: section_scan.induct)
  case (2 lineStart i u us)
  show ?case
  proof (cases "if lineStart then heading_length (u # us) else None")
    case None
    with "2.prems" "2.IH"(1)[OF None] obtain n where "j = i + 1 + n" "n < length us" "prefix h (drop n us)" by auto
    then show ?thesis by (intro exI[of _ "Suc n"]) simp
  next
    case (Some k)
    then have k: "0 < k" using heading_length_pos by (auto split: if_splits)
    from "2.prems" Some consider (here) "h = take k (u # us)" "j = i" | (later) "(h, j) \<in> set (section_scan False (i + k) (drop (k - 1) us))"
      by auto
    then show ?thesis
    proof cases
      case here
      then show ?thesis by (intro exI[of _ 0]) (simp add: take_is_prefix)
    next
      case later
      from "2.IH"(2)[OF Some later] obtain n where "j = i + k + n" "n < length (drop (k - 1) us)" "prefix h (drop n (drop (k - 1) us))"
        by blast
      then show ?thesis using k by (intro exI[of _ "k + n"]) (auto simp: drop_Cons' add.commute)
    qed
  qed
qed simp

lemma getHeadingCounts_count:
  "(case map_of (getHeadingCounts occs) h of Some n \<Rightarrow> n | None \<Rightarrow> 0) = count_list (map fst occs) h"
proof -
  have "(case map_of (foldl (\<lambda>counts occ. upsert (fst occ) 0 Suc counts) m occs) h of Some n \<Rightarrow> n | None \<Rightarrow> 0) =
      (case map_of m h of Some n \<Rightarrow> n | None \<Rightarrow> 0) + count_list (map fst occs) h" for m
    by (induction occs arbitrary: m) (auto simp: map_of_upsert split: option.splits)
  from this[of "[]"] show ?thesis by (simp add: getHeadingCounts_def)
qed

lemma last_repeated_member:
  "j \<in> set (last_repeated counts seen occs) \<Longrightarrow>
     \<exists>h. (h, j) \<in> set occs \<and> MIN_REPEATED_SECTION_COUNT \<le> (case map_of counts h of Some n \<Rightarrow> n | None \<Rightarrow> 0)"
  by (induction counts seen occs rule: last_repeated.induct) (fastforce split: if_splits)+

text \<open>A text is cut only at a heading that occurs three times or more, and from there on it is kept.\<close>

lemma collapse_at_repeated_section:
  assumes "collapseRepeatedSectionSnapshots text \<noteq> text"
  shows "\<exists>h k. collapseRepeatedSectionSnapshots text = drop k text \<and> k < length text \<and> prefix h (drop k text)
    \<and> 3 \<le> count_list (map fst (getSectionOccurrences text)) h"
proof -
  let ?occs = "getSectionOccurrences text"
  let ?idx = "last_repeated (getHeadingCounts ?occs) [] (rev ?occs)"
  from assms have i: "?idx \<noteq> []" "collapseRepeatedSectionSnapshots text = drop (Min (set ?idx)) text"
    by (auto simp: collapseRepeatedSectionSnapshots_def findLastRepeatedSectionRunStart_def Let_def split: if_splits)
  then have "Min (set ?idx) \<in> set ?idx" by (intro Min_in) auto
  from last_repeated_member[OF this] obtain h where h: "(h, Min (set ?idx)) \<in> set ?occs"
    "3 \<le> count_list (map fst ?occs) h"
    unfolding getHeadingCounts_count by (auto simp: MIN_REPEATED_SECTION_COUNT_def)
  with section_scan_sound[of h _ True 0 "text"] i(2) show ?thesis
    by (intro exI[of _ h] exI[of _ "Min (set ?idx)"]) (auto simp: getSectionOccurrences_def)
qed

subsection \<open>Repairing the last answer\<close>

lemma last_index_Some:
  "last_index P xs = Some i \<Longrightarrow> i < length xs \<and> P (xs ! i) \<and> (\<forall>j. i < j \<and> j < length xs \<longrightarrow> \<not> P (xs ! j))"
proof (induction xs arbitrary: i)
  case (Cons x xs)
  show ?case
  proof (cases "last_index P xs")
    case None
    have "last_index P ys = None \<Longrightarrow> \<forall>y \<in> set ys. \<not> P y" for ys
      by (induction ys) (auto split: option.splits if_splits)
    with None Cons.prems show ?thesis by (auto split: if_splits simp: nth_Cons')
  next
    case (Some k)
    with Cons.IH[OF Some] Cons.prems show ?thesis by (auto simp: nth_Cons' less_Suc_eq_0_disj split: if_splits)
  qed
qed simp

lemma last_index_None: "last_index P xs = None \<longleftrightarrow> (\<forall>x \<in> set xs. \<not> P x)"
  by (induction xs) (auto split: option.splits if_splits)

lemma sanitizeMessage_final: "\<not> isAssistantMessagePending (sanitizeMessage t now m)"
  by (simp add: sanitizeMessage_def Let_def isAssistantMessagePending_def)

lemma sanitizeMessage_within:
  "texts_within n m \<Longrightarrow> texts_within (max n (length (interruptedText t))) (sanitizeMessage t now m)"
  using finalize_within[of n m now]
  by (auto simp: sanitizeMessage_def Let_def intro: within_mono) (auto simp: texts_within_def)

lemma sanitizeMessage_size: "getMessageSize (sanitizeMessage t now m) \<le> getMessageSize m + length (interruptedText t)"
  using finalize_size[of now m] by (auto simp: sanitizeMessage_def Let_def getMessageSize_def)

lemma sanitize_cases:
  obtains "\<forall>m \<in> set ms. \<not> isPendingAssistantMessage m" "sanitizeMessagesOnLoad t now ms = ms"
  | i where "i < length ms" "sanitizeMessagesOnLoad t now ms = ms[i := sanitizeMessage t now (ms ! i)]"
      "\<forall>j. i < j \<and> j < length ms \<longrightarrow> \<not> isPendingAssistantMessage (ms ! j)"
  using last_index_Some[of isPendingAssistantMessage ms] last_index_None[of isPendingAssistantMessage ms]
  by (cases "last_index isPendingAssistantMessage ms") (auto simp: sanitizeMessagesOnLoad_def)

lemma sanitize_total: "total_size (sanitizeMessagesOnLoad t now ms) \<le> total_size ms + length (interruptedText t)"
proof (cases rule: sanitize_cases[of ms t now])
  case (2 i)
  have "total_size (ms[i := x]) + getMessageSize (ms ! i) = total_size ms + getMessageSize x" for x
    using 2(1) by (simp add: map_update sum_list_update)
      (metis add.commute add_diff_assoc2 elem_le_sum_list le_add_diff_inverse2 length_map nth_map trans_le_add1)
  from this[of "sanitizeMessage t now (ms ! i)"] sanitizeMessage_size[of t now "ms ! i"] 2(2) show ?thesis by simp
qed simp

lemma sanitize_member:
  assumes "m \<in> set (sanitizeMessagesOnLoad t now ms)"
  shows "m \<in> set ms \<or> (\<exists>m' \<in> set ms. m = sanitizeMessage t now m')"
proof (cases rule: sanitize_cases[of ms t now])
  case (2 i)
  then show ?thesis using assms by (metis in_set_conv_nth length_list_update nth_list_update_eq nth_list_update_neq)
qed (use assms in simp)

lemma sanitize_length [simp]: "length (sanitizeMessagesOnLoad t now ms) = length ms"
  by (cases rule: sanitize_cases[of ms t now]) simp_all

lemma sanitize_last:
  assumes "ms \<noteq> []"
  shows "\<not> isPendingAssistantMessage (last (sanitizeMessagesOnLoad t now ms))"
proof (cases rule: sanitize_cases[of ms t now])
  case (2 i)
  then show ?thesis using assms sanitizeMessage_final[of t now "ms ! i"]
    by (cases "i = length ms - 1") (auto simp: last_conv_nth isPendingAssistantMessage_def)
qed (use assms in simp)

lemma loadMessages_pipeline:
  assumes "loadMessages env now st = (Some ms, st')"
  obtains parsed cut where "ms = sanitizeMessagesOnLoad (translate env) now cut" "length cut \<le> MAX_STORED_MESSAGES"
    "set cut \<subseteq> normalizeStoredMessageForLoad now ` set parsed"
    "1 < length cut \<longrightarrow> total_size cut \<le> MAX_LOADED_MESSAGES_CHARS"
proof -
  from assms obtain parsed where
    p: "ms = sanitizeMessagesOnLoad (translate env) now
          (trimMessagesByContentSize (trimMessages (map (normalizeStoredMessageForLoad now) parsed)))"
    by (auto simp: loadMessages_def Let_def split: prod.splits option.splits)
  let ?t = "trimMessages (map (normalizeStoredMessageForLoad now) parsed)"
  obtain k where k: "trimMessagesByContentSize ?t = drop k ?t"
    "1 < length (drop k ?t) \<longrightarrow> total_size (drop k ?t) \<le> MAX_LOADED_MESSAGES_CHARS"
    using trimMessagesByContentSize_suffix by blast
  obtain j where j: "?t = drop j (map (normalizeStoredMessageForLoad now) parsed)" using trimMessages_suffix(2) by blast
  have "set (drop k ?t) \<subseteq> normalizeStoredMessageForLoad now ` set parsed"
    using j by (metis set_drop_subset subset_trans set_map)
  then show ?thesis using that[OF p, of parsed] k trimMessages_suffix(1)[of "map (normalizeStoredMessageForLoad now) parsed"]
    by (auto simp: k(1))
qed

lemma normalize_idle:
  assumes "\<not> isAssistantMessagePending m" "texts_within MAX_LOADED_MESSAGE_CHARS m"
    "\<And>v. v \<in> set (versions m) \<Longrightarrow> collapseRepeatedSectionSnapshots (ver_content v) = ver_content v"
  shows "normalizeStoredMessageForLoad now m = m"
proof -
  have "map (\<lambda>v. v\<lparr>ver_content :=
      truncateText (collapseRepeatedSectionSnapshots (ver_content v)) MAX_LOADED_MESSAGE_CHARS\<rparr>) (versions m) = versions m"
    using assms(2,3) by (intro map_idI) (auto simp: texts_within_def truncateText_def)
  moreover have "map_option (\<lambda>r. r\<lparr>r_content := truncateText (r_content r) MAX_LOADED_MESSAGE_CHARS\<rparr>) (reasoning m) = reasoning m"
    using assms(2) by (auto simp: texts_within_def truncateText_def reasoningText_def split: option.splits)
  ultimately have "normalizeTexts m = m" by (simp add: normalizeTexts_def)
  with assms(1) show ?thesis by (simp add: normalizeStoredMessageForLoad_def)
qed

lemma unwrap_envelope [simp]: "unwrapStoredValue (envelope d) = d" "truthy (envelope d)"
  by (simp_all add: unwrapStoredValue_def envelope_def)

text \<open>A conversation that loading leaves as it is.\<close>

definition keepable :: "Message list \<Rightarrow> bool" where
  "keepable ms \<longleftrightarrow> length ms \<le> MAX_STORED_MESSAGES \<and> (length ms \<le> 1 \<or> total_size ms \<le> MAX_LOADED_MESSAGES_CHARS)
     \<and> list_all (\<lambda>m. versions m \<noteq> [] \<and> \<not> isAssistantMessagePending m \<and> texts_within MAX_LOADED_MESSAGE_CHARS m
          \<and> list_all (\<lambda>v. collapseRepeatedSectionSnapshots (ver_content v) = ver_content v) (versions m)) ms"

lemma keepable_load:
  assumes "keepable ms"
  shows "sanitizeMessagesOnLoad t now (trimMessagesByContentSize (trimMessages
      (map (normalizeStoredMessageForLoad now) ms))) = ms" "trimMessages ms = ms"
    "messagesSchema (JArr (map message_value ms)) = Some ms"
proof -
  have k: "length ms \<le> MAX_STORED_MESSAGES" "length ms \<le> 1 \<or> total_size ms \<le> MAX_LOADED_MESSAGES_CHARS"
    "\<And>m. m \<in> set ms \<Longrightarrow> versions m \<noteq> [] \<and> \<not> isAssistantMessagePending m \<and> texts_within MAX_LOADED_MESSAGE_CHARS m
       \<and> (\<forall>v \<in> set (versions m). collapseRepeatedSectionSnapshots (ver_content v) = ver_content v)"
    using assms by (auto simp: keepable_def list_all_iff)
  have "map (normalizeStoredMessageForLoad now) ms = ms" by (intro map_idI normalize_idle) (use k(3) in auto)
  moreover have "last_index isPendingAssistantMessage ms = None"
    using k(3) by (auto simp: last_index_None isPendingAssistantMessage_def)
  ultimately show "sanitizeMessagesOnLoad t now (trimMessagesByContentSize (trimMessages
      (map (normalizeStoredMessageForLoad now) ms))) = ms"
    using trimMessages_suffix(3)[OF k(1)] trimMessagesByContentSize_all[OF k(2)] by (simp add: sanitizeMessagesOnLoad_def)
  show "trimMessages ms = ms" by (rule trimMessages_suffix(3)[OF k(1)])
  show "messagesSchema (JArr (map message_value ms)) = Some ms" by (rule messages_roundtrip) (use k(3) in blast)
qed

section \<open>Properties\<close>

text \<open>
  C25. What is loaded is bounded and settled, whatever was stored. At most 100 messages come back, no text
  of a message is longer than 40000 units or the note on an interrupted answer, two or more
  messages together hold at most 120000 units besides that note, an answer still marked as
  pending holds no text, and the last message is never one of these.
\<close>

theorem loadMessages_bounded:
  assumes "loadMessages env now st = (Some ms, st')"
  shows "length ms \<le> 100
    \<and> (\<forall>m \<in> set ms. texts_within (max 40000 (length (interruptedText (translate env)))) m
         \<and> (isAssistantMessagePending m \<longrightarrow> blank m))
    \<and> (1 < length ms \<longrightarrow> sum_list (map getMessageSize ms) \<le> 120000 + length (interruptedText (translate env)))
    \<and> (ms \<noteq> [] \<longrightarrow> \<not> isPendingAssistantMessage (last ms))"
proof -
  let ?t = "translate env"
  from assms obtain parsed cut where c: "ms = sanitizeMessagesOnLoad ?t now cut" "length cut \<le> MAX_STORED_MESSAGES"
    "set cut \<subseteq> normalizeStoredMessageForLoad now ` set parsed"
    "1 < length cut \<longrightarrow> total_size cut \<le> MAX_LOADED_MESSAGES_CHARS" by (rule loadMessages_pipeline)
  have within: "texts_within (max 40000 (length (interruptedText ?t))) m \<and> (isAssistantMessagePending m \<longrightarrow> blank m)"
    if "m \<in> set ms" for m
  proof -
    have cut: "texts_within 40000 m' \<and> (isAssistantMessagePending m' \<longrightarrow> blank m')" if "m' \<in> set cut" for m'
      using that c(3) normalize_within[of now] normalize_pending[of now] by (auto simp: MAX_LOADED_MESSAGE_CHARS_def)
    from sanitize_member[of m ?t now cut] that c(1) consider "m \<in> set cut"
      | m' where "m' \<in> set cut" "m = sanitizeMessage ?t now m'" by blast
    then show ?thesis
      by cases (use cut within_mono[of 40000] sanitizeMessage_within[of 40000 _ ?t now] sanitizeMessage_final in auto)
  qed
  have "1 < length ms \<longrightarrow> total_size ms \<le> 120000 + length (interruptedText ?t)"
    using c(1,4) sanitize_total[of ?t now cut] by (auto simp: MAX_LOADED_MESSAGES_CHARS_def)
  moreover have "ms \<noteq> [] \<longrightarrow> \<not> isPendingAssistantMessage (last ms)"
    using sanitize_last[of cut ?t now] c(1) by (metis length_0_conv sanitize_length)
  ultimately show ?thesis using within c(1,2) by (simp add: MAX_STORED_MESSAGES_def)
qed

definition stuck_message :: Message where
  "stuck_message = createLoadingAssistantMessage (js ''k'') (js ''v'') 5"

definition stuck_env :: storage_env where
  "stuck_env = \<lparr>jsonParse = (\<lambda>s. Some (envelope (JArr [message_value stuck_message]))), jsonStringify = (\<lambda>v. [123]),
     accepts = (\<lambda>k v. True), translate = (\<lambda>s. s)\<rparr>"

lemma stuck_pipeline:
  "normalizeStoredMessageForLoad 9 stuck_message = stuck_message"
  "sanitizeMessagesOnLoad (\<lambda>s. s) 9 [stuck_message] = [sanitizeMessage (\<lambda>s. s) 9 stuck_message]"
  by (simp_all add: normalizeStoredMessageForLoad_def normalizeTexts_def stuck_message_def createLoadingAssistantMessage_def
      createMessageVersion_def collapseRepeatedSectionSnapshots_def MIN_PREFIX_COLLAPSE_LENGTH_def truncateText_def
      isAssistantMessagePending_def hasMessageContent_def getMessageContent_def getCurrentVersion_def reasoningText_def
      sanitizeMessagesOnLoad_def isPendingAssistantMessage_def)

theorem loadMessages_bounded_witness:
  "\<exists>ms st'. loadMessages stuck_env 9 [(MESSAGES_KEY, [123])] = (Some ms, st') \<and> length ms = 1
     \<and> \<not> isPendingAssistantMessage (last ms) \<and> msg_status (last ms) = Some Error"
proof -
  let ?ms = "[sanitizeMessage (\<lambda>s. s) 9 stuck_message]"
  have "messagesSchema (JArr (map message_value [stuck_message])) = Some [stuck_message]"
    by (rule messages_roundtrip) (simp add: stuck_message_def createLoadingAssistantMessage_def)
  then obtain st' where r: "loadMessages stuck_env 9 [(MESSAGES_KEY, [123])] = (Some ?ms, st')"
    by (simp add: loadMessages_def readStoredMessagesValue_def stuck_env_def MAX_STORED_MESSAGES_BYTES_def Let_def
        trimMessages_suffix(3) trimMessagesByContentSize_all stuck_pipeline MAX_STORED_MESSAGES_def)
  moreover have "msg_status (sanitizeMessage (\<lambda>s. s) 9 stuck_message) = Some Error" by code_simp
  ultimately show ?thesis using loadMessages_bounded[OF r] by (intro exI[of _ ?ms] exI[of _ st']) auto
qed

text \<open>
  C24. A conversation that is saved comes back. If nothing in it is pending or over the limits and its
  text in the store is accepted and within a mebibyte, then loading yields exactly
  the messages saved and leaves the store as it is. If the text is longer, loading yields nothing and
  erases it.
\<close>

theorem saved_messages_load:
  assumes "keepable ms" "accepts env MESSAGES_KEY text" "text = jsonStringify env (envelope (JArr (map message_value ms)))"
    and "text \<noteq> []" "jsonParse env text = Some (envelope (JArr (map message_value ms)))"
  shows "if length text \<le> 1048576
    then loadMessages env now (saveMessages env ms st) = (Some ms, saveMessages env ms st)
    else loadMessages env now (saveMessages env ms st) = (None, AList.delete MESSAGES_KEY (saveMessages env ms st))"
proof -
  note k = keepable_load[OF assms(1)]
  have s: "saveMessages env ms st' = AList.update MESSAGES_KEY text st'" for st'
    using assms(2,3) k by (simp add: saveMessages_def writeStoredValue_def Let_def)
  have i: "AList.update MESSAGES_KEY text (AList.update MESSAGES_KEY text st) = AList.update MESSAGES_KEY text st"
    by (induction st) auto
  show ?thesis using assms(4,5) k
    by (simp add: loadMessages_def readStoredMessagesValue_def s i update_Some_unfold update_conv' MAX_STORED_MESSAGES_BYTES_def Let_def)
qed

definition done_message :: Message where
  "done_message = createUserMessage (js ''k'') (js ''v'') (js ''Hello'') 5"

definition done_env :: storage_env where
  "done_env = \<lparr>jsonParse = (\<lambda>s. Some (envelope (JArr [message_value done_message]))), jsonStringify = (\<lambda>v. [123]),
     accepts = (\<lambda>k v. True), translate = (\<lambda>s. s)\<rparr>"

lemma done_keepable: "keepable [done_message]"
  by (simp add: keepable_def done_message_def createUserMessage_def createMessageVersion_def texts_within_def js_def
      MAX_STORED_MESSAGES_def MAX_LOADED_MESSAGE_CHARS_def isAssistantMessagePending_def reasoningText_def
      collapseRepeatedSectionSnapshots_def MIN_PREFIX_COLLAPSE_LENGTH_def)

theorem saved_messages_load_witness:
  "loadMessages done_env 9 (saveMessages done_env [done_message] []) =
     (Some [done_message], saveMessages done_env [done_message] [])"
proof -
  have e: "accepts done_env MESSAGES_KEY [123]" "[123] = jsonStringify done_env (envelope (JArr (map message_value [done_message])))"
    "[123 :: int] \<noteq> []" "jsonParse done_env [123] = Some (envelope (JArr (map message_value [done_message])))"
    by (simp_all add: done_env_def)
  have "length [123 :: int] \<le> 1048576" by simp
  with saved_messages_load[OF done_keepable e, of 9 "[]"] show ?thesis by (simp only: if_True)
qed

end
