(* ===== verification/Playground_State.thy ===== *)
theory Playground_State
  imports Playground_Storage Machines
begin

text \<open>
  The state of the playground page (\<open>web/src/features/playground/hooks/use-playground-state.ts\<close> with
  \<open>lib/state/playground-state-utils.ts\<close>): loading the conversation after the page is shown, saving it
  half a second after the last change or when the page is left, and the settings.

  An updater passed to \<open>setMessages\<close> runs when React renders, or at once if no other update is waiting
  and React is eager; it is then that \<open>persistMessages\<close> is called. \<open>pg_queue\<close> holds what waits for the next
  rendering. A timer that is armed again replaces the one before. Available models and groups are
  values other hooks put in, and are left out; so is a second tab on the same storage.
\<close>

section \<open>Model\<close>

datatype MessageStateUpdater = NewMessages "Message list" | UpdateBy "Message list \<Rightarrow> Message list"

fun applyMessageStateUpdate :: "Message list \<Rightarrow> MessageStateUpdater \<Rightarrow> Message list" where
  "applyMessageStateUpdate previousMessages (UpdateBy updater) = updater previousMessages"
| "applyMessageStateUpdate previousMessages (NewMessages ms) = ms"

datatype set_messages = Updater MessageStateUpdater | Value "Message list"

record playground =
  pg_config :: PlaygroundConfig
  pg_enabled :: ParameterEnabled
  pg_messages :: "Message list"
  pg_queue :: "set_messages list"
  isLoadingMessages :: bool
  saveTimer :: bool
  latestMessages :: "Message list"
  hasLoadedMessages :: bool
  loadTimer :: bool
  cancelled :: bool
  store :: local_storage

text \<open>The first rendering, with its effects: the timer that loads the messages is armed.\<close>

definition usePlaygroundState :: "storage_env \<Rightarrow> local_storage \<Rightarrow> playground" where
  "usePlaygroundState env st =
     \<lparr>pg_config = getInitialPlaygroundConfig env st, pg_enabled = getInitialParameterEnabled env st,
      pg_messages = [], pg_queue = [], isLoadingMessages = True, saveTimer = False, latestMessages = [],
      hasLoadedMessages = False, loadTimer = True, cancelled = False, store = st\<rparr>"

definition persistMessages :: "Message list \<Rightarrow> playground \<Rightarrow> playground" where
  "persistMessages messagesToSave s =
     (let s1 = s\<lparr>latestMessages := messagesToSave\<rparr>
      in if \<not> hasLoadedMessages s1 then s1 else s1\<lparr>saveTimer := True\<rparr>)"

definition save_timer_fires :: "storage_env \<Rightarrow> playground \<Rightarrow> playground" where
  "save_timer_fires env s = s\<lparr>saveTimer := False, store := saveMessages env (latestMessages s) (store s)\<rparr>"

definition load_timer_fires :: "storage_env \<Rightarrow> rat \<Rightarrow> playground \<Rightarrow> playground" where
  "load_timer_fires env now s =
     (let (loaded, st) = loadMessages env now (store s);
          loadedMessages = (case loaded of Some ms \<Rightarrow> ms | None \<Rightarrow> []);
          s1 = s\<lparr>loadTimer := False, store := st\<rparr>
      in if cancelled s1 then s1
         else s1\<lparr>latestMessages := loadedMessages, hasLoadedMessages := True,
                 pg_queue := pg_queue s1 @ [Value loadedMessages], isLoadingMessages := False\<rparr>)"

definition leave_page :: "storage_env \<Rightarrow> playground \<Rightarrow> playground" where
  "leave_page env s =
     (let s1 = s\<lparr>cancelled := True, pg_queue := []\<rparr>
      in if saveTimer s1 then s1\<lparr>saveTimer := False, store := saveMessages env (latestMessages s1) (store s1)\<rparr> else s1)"

text \<open>The updater of \<open>updateMessages\<close>, and one rendering.\<close>

fun run_set :: "set_messages \<Rightarrow> playground \<Rightarrow> playground" where
  "run_set (Updater updater) s =
     (let newMessages = applyMessageStateUpdate (pg_messages s) updater
      in (persistMessages newMessages s)\<lparr>pg_messages := newMessages\<rparr>)"
| "run_set (Value ms) s = s\<lparr>pg_messages := ms\<rparr>"

definition render_messages :: "playground \<Rightarrow> playground" where
  "render_messages s = fold run_set (pg_queue s) (s\<lparr>pg_queue := []\<rparr>)"

definition updateMessages :: "bool \<Rightarrow> MessageStateUpdater \<Rightarrow> playground \<Rightarrow> playground" where
  "updateMessages eager updater s =
     (if eager \<and> pg_queue s = []
      then let newMessages = applyMessageStateUpdate (pg_messages s) updater
           in (persistMessages newMessages s)\<lparr>pg_queue := [Value newMessages]\<rparr>
      else s\<lparr>pg_queue := pg_queue s @ [Updater updater]\<rparr>)"

definition clear_all_messages :: "bool \<Rightarrow> playground \<Rightarrow> playground" where
  "clear_all_messages eager = updateMessages eager (NewMessages [])"

datatype config_change =
    SetModel jsstr | SetGroup jsstr | SetTemperature rat | SetTopP rat | SetMaxTokens rat
  | SetFrequencyPenalty rat | SetPresencePenalty rat | SetSeed "rat option" | SetStream bool

fun change_config :: "config_change \<Rightarrow> PlaygroundConfig \<Rightarrow> PlaygroundConfig" where
  "change_config (SetModel v) c = c\<lparr>cfg_model := v\<rparr>"
| "change_config (SetGroup v) c = c\<lparr>cfg_group := v\<rparr>"
| "change_config (SetTemperature v) c = c\<lparr>cfg_temperature := v\<rparr>"
| "change_config (SetTopP v) c = c\<lparr>cfg_top_p := v\<rparr>"
| "change_config (SetMaxTokens v) c = c\<lparr>cfg_max_tokens := v\<rparr>"
| "change_config (SetFrequencyPenalty v) c = c\<lparr>cfg_frequency_penalty := v\<rparr>"
| "change_config (SetPresencePenalty v) c = c\<lparr>cfg_presence_penalty := v\<rparr>"
| "change_config (SetSeed v) c = c\<lparr>cfg_seed := v\<rparr>"
| "change_config (SetStream v) c = c\<lparr>cfg_stream := v\<rparr>"

definition updateConfig :: "storage_env \<Rightarrow> config_change \<Rightarrow> playground \<Rightarrow> playground" where
  "updateConfig env change s =
     (let updated = change_config change (pg_config s)
      in s\<lparr>pg_config := updated, store := saveConfig env (whole_config updated) (store s)\<rparr>)"

datatype parameter_key = KTemperature | KTopP | KMaxTokens | KFrequencyPenalty | KPresencePenalty | KSeed

fun change_enabled :: "parameter_key \<Rightarrow> bool \<Rightarrow> ParameterEnabled \<Rightarrow> ParameterEnabled" where
  "change_enabled KTemperature v c = c\<lparr>en_temperature := v\<rparr>"
| "change_enabled KTopP v c = c\<lparr>en_top_p := v\<rparr>"
| "change_enabled KMaxTokens v c = c\<lparr>en_max_tokens := v\<rparr>"
| "change_enabled KFrequencyPenalty v c = c\<lparr>en_frequency_penalty := v\<rparr>"
| "change_enabled KPresencePenalty v c = c\<lparr>en_presence_penalty := v\<rparr>"
| "change_enabled KSeed v c = c\<lparr>en_seed := v\<rparr>"

definition updateParameterEnabled :: "storage_env \<Rightarrow> parameter_key \<Rightarrow> bool \<Rightarrow> playground \<Rightarrow> playground" where
  "updateParameterEnabled env key v s =
     (let updated = change_enabled key v (pg_enabled s)
      in s\<lparr>pg_enabled := updated, store := saveParameterEnabled env (whole_enabled updated) (store s)\<rparr>)"

definition resetConfig :: "storage_env \<Rightarrow> playground \<Rightarrow> playground" where
  "resetConfig env s =
     s\<lparr>pg_config := DEFAULT_CONFIG, pg_enabled := DEFAULT_PARAMETER_ENABLED,
       store := saveParameterEnabled env (whole_enabled DEFAULT_PARAMETER_ENABLED)
                  (saveConfig env (whole_config DEFAULT_CONFIG) (store s))\<rparr>"

subsection \<open>The page as a machine\<close>

datatype page_event =
    LoadTimer rat | SaveTimer | Render | UpdateMessages bool MessageStateUpdater
  | UpdateConfig config_change | UpdateEnabled parameter_key bool | ResetConfig

text \<open>A timer fires while it is armed; the rest happens while the page is shown.\<close>

fun page_enabled :: "playground \<Rightarrow> page_event \<Rightarrow> bool" where
  "page_enabled s (LoadTimer now) = loadTimer s"
| "page_enabled s SaveTimer = saveTimer s"
| "page_enabled s _ = (\<not> cancelled s)"

fun page_step :: "storage_env \<Rightarrow> playground \<Rightarrow> page_event \<Rightarrow> playground" where
  "page_step env s (LoadTimer now) = load_timer_fires env now s"
| "page_step env s SaveTimer = save_timer_fires env s"
| "page_step env s Render = render_messages s"
| "page_step env s (UpdateMessages eager updater) = updateMessages eager updater s"
| "page_step env s (UpdateConfig change) = updateConfig env change s"
| "page_step env s (UpdateEnabled key v) = updateParameterEnabled env key v s"
| "page_step env s ResetConfig = resetConfig env s"

abbreviation page_runs :: "storage_env \<Rightarrow> playground \<Rightarrow> page_event list \<Rightarrow> playground option" where
  "page_runs env \<equiv> runs page_enabled (page_step env)"

section \<open>Library\<close>

fun is_updater :: "set_messages \<Rightarrow> bool" where
  "is_updater (Updater u) = True"
| "is_updater (Value ms) = False"

text \<open>Once loaded, only the first waiting entry can be a value, and the last text to save is what is below the updaters.\<close>

definition base_messages :: "playground \<Rightarrow> Message list" where
  "base_messages s = (case pg_queue s of Value ms # _ \<Rightarrow> ms | _ \<Rightarrow> pg_messages s)"

definition in_step :: "playground \<Rightarrow> bool" where
  "in_step s \<longleftrightarrow> hasLoadedMessages s \<and> \<not> loadTimer s \<and> latestMessages s = base_messages s
     \<and> list_all is_updater (tl (pg_queue s))"

text \<open>The storage holds what saving the latest messages writes, unless a save is still due.\<close>

definition kept :: "storage_env \<Rightarrow> playground \<Rightarrow> bool" where
  "kept env s \<longleftrightarrow> saveTimer s \<or> (\<exists>st. map_of (store s) MESSAGES_KEY = map_of (saveMessages env (latestMessages s) st) MESSAGES_KEY)"

definition safe :: "storage_env \<Rightarrow> playground \<Rightarrow> bool" where
  "safe env s \<longleftrightarrow> list_ex is_updater (pg_queue s) \<or> kept env s"

lemma keys_differ [simp]:
  "CONFIG_KEY \<noteq> MESSAGES_KEY" "PARAMETER_ENABLED_KEY \<noteq> MESSAGES_KEY"
  "MESSAGES_KEY \<noteq> CONFIG_KEY" "MESSAGES_KEY \<noteq> PARAMETER_ENABLED_KEY"
  by (simp_all add: CONFIG_KEY_def PARAMETER_ENABLED_KEY_def MESSAGES_KEY_def js_def)

lemma settings_keep_messages [simp]:
  "map_of (saveConfig env c st) MESSAGES_KEY = map_of st MESSAGES_KEY"
  "map_of (saveParameterEnabled env p st) MESSAGES_KEY = map_of st MESSAGES_KEY"
  by (auto simp: saveConfig_def saveParameterEnabled_def writeStoredValue_def Let_def update_conv' split: option.splits)

lemma run_updaters:
  assumes "list_all is_updater q" "hasLoadedMessages s" "latestMessages s = pg_messages s"
  shows "latestMessages (fold run_set q s) = pg_messages (fold run_set q s)"
    "hasLoadedMessages (fold run_set q s)" "loadTimer (fold run_set q s) = loadTimer s"
    "pg_queue (fold run_set q s) = pg_queue s" "store (fold run_set q s) = store s"
    "saveTimer (fold run_set q s) \<longleftrightarrow> saveTimer s \<or> q \<noteq> []" "q = [] \<Longrightarrow> fold run_set q s = s"
proof -
  have "latestMessages (fold run_set q s) = pg_messages (fold run_set q s) \<and> hasLoadedMessages (fold run_set q s)
    \<and> loadTimer (fold run_set q s) = loadTimer s \<and> pg_queue (fold run_set q s) = pg_queue s
    \<and> store (fold run_set q s) = store s \<and> (saveTimer (fold run_set q s) \<longleftrightarrow> saveTimer s \<or> q \<noteq> [])"
    using assms
  proof (induction q arbitrary: s)
    case (Cons u q)
    then obtain f where u: "u = Updater f" by (cases u) auto
    let ?s = "run_set u s"
    have "hasLoadedMessages ?s" "latestMessages ?s = pg_messages ?s" "saveTimer ?s"
      "loadTimer ?s = loadTimer s" "pg_queue ?s = pg_queue s" "store ?s = store s"
      using Cons.prems u by (simp_all add: persistMessages_def Let_def)
    then show ?case using Cons.IH[of ?s] Cons.prems by simp
  qed simp
  then show "latestMessages (fold run_set q s) = pg_messages (fold run_set q s)"
    "hasLoadedMessages (fold run_set q s)" "loadTimer (fold run_set q s) = loadTimer s"
    "pg_queue (fold run_set q s) = pg_queue s" "store (fold run_set q s) = store s"
    "saveTimer (fold run_set q s) \<longleftrightarrow> saveTimer s \<or> q \<noteq> []" by blast+
qed simp

lemma render_in_step:
  assumes "in_step s"
  defines "t \<equiv> render_messages s"
  shows "in_step t" "pg_queue t = []" "store t = store s"
    "saveTimer t \<longleftrightarrow> saveTimer s \<or> list_ex is_updater (pg_queue s)"
    "\<not> list_ex is_updater (pg_queue s) \<Longrightarrow> latestMessages t = latestMessages s"
proof -
  obtain q s1 where q: "list_all is_updater q" "t = fold run_set q s1" "list_ex is_updater (pg_queue s) \<longleftrightarrow> q \<noteq> []"
    and s1: "hasLoadedMessages s1" "\<not> loadTimer s1" "latestMessages s1 = pg_messages s1" "pg_queue s1 = []"
      "store s1 = store s" "saveTimer s1 = saveTimer s" "latestMessages s1 = latestMessages s"
  proof (cases "pg_queue s")
    case Nil
    with assms show ?thesis
      by (intro that[of "[]" "s\<lparr>pg_queue := []\<rparr>"]) (auto simp: render_messages_def in_step_def base_messages_def)
  next
    case (Cons e q)
    have q: "list_all is_updater q" using assms(1) Cons by (simp add: in_step_def)
    then have ex: "list_ex is_updater q \<longleftrightarrow> q \<noteq> []" by (cases q) auto
    show ?thesis
    proof (cases e)
      case (Updater u)
      with assms Cons q show ?thesis
        by (intro that[of "e # q" "s\<lparr>pg_queue := []\<rparr>"]) (auto simp: render_messages_def in_step_def base_messages_def)
    next
      case (Value ms)
      with assms Cons q ex show ?thesis
        by (intro that[of q "s\<lparr>pg_queue := [], pg_messages := ms\<rparr>"]) (auto simp: render_messages_def in_step_def base_messages_def)
    qed
  qed
  note r = run_updaters[OF q(1) s1(1,3)]
  show "in_step t" "pg_queue t = []" "store t = store s"
    "saveTimer t \<longleftrightarrow> saveTimer s \<or> list_ex is_updater (pg_queue s)"
    using r s1 q by (simp_all add: in_step_def base_messages_def)
  show "latestMessages t = latestMessages s" if "\<not> list_ex is_updater (pg_queue s)"
    using that q(2,3) s1(7) by simp
qed

lemma update_in_step:
  assumes "in_step s"
  shows "in_step (updateMessages eager u s)" "safe env (updateMessages eager u s)"
  using assms
  by (auto simp: updateMessages_def in_step_def base_messages_def persistMessages_def safe_def kept_def Let_def
      split: list.splits set_messages.splits)

lemma in_step_fields [simp]:
  "in_step (s\<lparr>saveTimer := b\<rparr>) = in_step s" "in_step (s\<lparr>store := st\<rparr>) = in_step s"
  "in_step (s\<lparr>pg_config := c\<rparr>) = in_step s" "in_step (s\<lparr>pg_enabled := p\<rparr>) = in_step s"
  by (simp_all add: in_step_def base_messages_def split: list.split set_messages.split)

lemma page_step_in_step:
  assumes "in_step s" "page_enabled s e"
  shows "in_step (page_step env s e)"
proof (cases e)
  case (LoadTimer now)
  then show ?thesis using assms by (simp add: in_step_def)
qed (use assms in \<open>simp_all add: render_in_step update_in_step save_timer_fires_def updateConfig_def
      updateParameterEnabled_def resetConfig_def Let_def\<close>)

lemma page_step_safe:
  assumes "in_step s" "safe env s" "page_enabled s e"
  shows "safe env (page_step env s e)"
proof (cases e)
  case Render
  show ?thesis using Render assms render_in_step[OF assms(1)] by (auto simp: safe_def kept_def)
next
  case SaveTimer
  then show ?thesis by (auto simp: safe_def kept_def save_timer_fires_def)
next
  case (UpdateMessages b u)
  then show ?thesis using update_in_step[OF assms(1)] by simp
qed (use assms in \<open>auto simp: safe_def kept_def in_step_def updateConfig_def updateParameterEnabled_def resetConfig_def Let_def\<close>)

text \<open>The page from the moment its messages are loaded.\<close>

interpretation pgm: event_machine in_step page_enabled "page_step env" in_step for env
  by unfold_locales (auto intro: page_step_in_step)

interpretation pgs: event_machine "\<lambda>s. in_step s \<and> safe env s" page_enabled "page_step env" "\<lambda>s. in_step s \<and> safe env s" for env
  by unfold_locales (auto intro: page_step_in_step page_step_safe)

lemma runs_split:
  "page_runs env s (es @ fs) = Some t \<longleftrightarrow> (\<exists>r. page_runs env s es = Some r \<and> page_runs env r fs = Some t)"
  by (induction es arbitrary: s) auto

lemma updated_safe:
  assumes "in_step s" "page_runs env s es = Some t" "UpdateMessages eager u \<in> set es"
  shows "in_step t" "safe env t"
proof -
  obtain pre post where es: "es = pre @ UpdateMessages eager u # post" using assms(3) by (auto simp: in_set_conv_decomp)
  then obtain r where r: "page_runs env s pre = Some r" "page_runs env r (UpdateMessages eager u # post) = Some t"
    using assms(2) by (auto simp: runs_split)
  have i: "in_step r" using pgm.runs_inv[OF assms(1) r(1)] .
  have "page_runs env (updateMessages eager u r) post = Some t" using r(2) by (auto split: if_splits)
  then show "in_step t" "safe env t"
    using pgs.runs_inv[of "updateMessages eager u r" env post t] update_in_step[OF i] by blast+
qed

lemma load_in_step:
  assumes "loadTimer s" "\<not> cancelled s" "pg_queue s = []"
  shows "in_step (load_timer_fires env now s)"
  using assms by (auto simp: load_timer_fires_def in_step_def base_messages_def Let_def split: prod.splits)

lemma stored_text_loads:
  assumes "keepable ms" "map_of st MESSAGES_KEY = Some t" "t \<noteq> []" "length t \<le> MAX_STORED_MESSAGES_BYTES"
    and "jsonParse env t = Some (envelope (JArr (map message_value ms)))"
  shows "fst (loadMessages env now st) = Some ms"
  using assms keepable_load[OF assms(1)]
  by (simp add: loadMessages_def readStoredMessagesValue_def Let_def unwrapStoredValue_def envelope_def js_def)

lemma kept_leaves:
  assumes "kept env s" "keepable (latestMessages s)"
    and "t = jsonStringify env (envelope (JArr (map message_value (latestMessages s))))" "accepts env MESSAGES_KEY t"
  shows "map_of (store (leave_page env s)) MESSAGES_KEY = Some t"
proof -
  have "map_of (saveMessages env (latestMessages s) st) MESSAGES_KEY = Some t" for st
    using assms(3,4) keepable_load[OF assms(2)] by (simp add: saveMessages_def writeStoredValue_def Let_def update_conv')
  then show ?thesis using assms(1) by (auto simp: kept_def leave_page_def Let_def)
qed

section \<open>Properties\<close>


definition demo_page :: playground where
  "demo_page = usePlaygroundState done_env []"

definition demo_visit :: "page_event list" where
  "demo_visit = [Render, UpdateMessages True (NewMessages [done_message]), Render, UpdateConfig (SetStream False)]"

lemma demo_visited:
  "\<exists>t. page_runs done_env (load_timer_fires done_env 1 demo_page) demo_visit = Some t
     \<and> pg_queue t = [] \<and> pg_messages t = [done_message]"
  by (simp add: demo_page_def demo_visit_def usePlaygroundState_def load_timer_fires_def loadMessages_def
      readStoredMessagesValue_def render_messages_def updateMessages_def persistMessages_def updateConfig_def Let_def)


end
