(* ===== verification/Stream_Controller.thy ===== *)
theory Stream_Controller
  imports Playground_Messages Machines
begin

text \<open>
  The controller of streamed answers (\<open>createStreamRequestController\<close> in
  \<open>web/src/features/playground/hooks/use-stream-request.ts\<close>) and the readers of its events
  (\<open>lib/streaming/stream-utils.ts\<close>, \<open>request-error-utils.ts\<close>).

  An event source is a number, the index of its record among those opened so far. A request waits
  for the authorization headers first and then opens a source; \<open>awaiting\<close> holds the waiting ones with
  the generation they were sent in and the client whose callbacks they carry. Every operation
  yields the controller afterwards and the callbacks made, in order. \<open>JSON.parse\<close> is a parameter.
\<close>

section \<open>Model\<close>

subsection \<open>Reading events\<close>

definition text_field :: "jsval \<Rightarrow> string \<Rightarrow> jsstr option" where
  "text_field v k = (case jget v (js k) of JStr s \<Rightarrow> if s = [] then None else Some s | _ \<Rightarrow> None)"

record StreamErrorDetails =
  sed_code :: "jsstr option"
  sed_message :: jsstr

definition parseStreamErrorDetails :: "(jsstr \<Rightarrow> jsval option) \<Rightarrow> jsstr option \<Rightarrow> StreamErrorDetails" where
  "parseStreamErrorDetails parse d =
     (case d of
        None \<Rightarrow> \<lparr>sed_code = None, sed_message = ERROR_MESSAGES API_REQUEST_ERROR\<rparr>
      | Some text \<Rightarrow>
          if text = [] then \<lparr>sed_code = None, sed_message = ERROR_MESSAGES API_REQUEST_ERROR\<rparr>
          else case parse text of
            None \<Rightarrow> \<lparr>sed_code = None, sed_message = text\<rparr>
          | Some parsed \<Rightarrow>
              let err = jget parsed (js ''error'') in
              if \<not> truthy err then \<lparr>sed_code = None, sed_message = text\<rparr>
              else \<lparr>sed_code = text_field err ''code'',
                    sed_message = (case text_field err ''message'' of Some m \<Rightarrow> m | None \<Rightarrow> text)\<rparr>)"

definition first_element :: "jsval \<Rightarrow> jsval" where
  "first_element v = (case v of JArr (x # xs) \<Rightarrow> x | JObj ps \<Rightarrow> jget v (js ''0'') | _ \<Rightarrow> JUndefined)"

text \<open>The updates a message carries; \<open>None\<close> where reading it throws.\<close>

definition parseStreamMessageUpdates :: "(jsstr \<Rightarrow> jsval option) \<Rightarrow> jsstr \<Rightarrow> (StreamChunkType \<times> jsstr) list option" where
  "parseStreamMessageUpdates parse d =
     (case parse d of
        None \<Rightarrow> None
      | Some chunk \<Rightarrow>
          if chunk = JNull then None
          else
            let delta = jget (first_element (jget chunk (js ''choices''))) (js ''delta'') in
            Some ((case text_field delta ''reasoning_content'' of Some c \<Rightarrow> [(ReasoningChunk, c)] | None \<Rightarrow> [])
                  @ (case text_field delta ''content'' of Some c \<Rightarrow> [(ContentChunk, c)] | None \<Rightarrow> [])))"

definition isStreamDoneMessage :: "jsstr \<Rightarrow> bool" where
  "isStreamDoneMessage d \<longleftrightarrow> d = js ''[DONE]''"

definition isStreamClosedReadyState :: "int option \<Rightarrow> bool" where
  "isStreamClosedReadyState readyState \<longleftrightarrow> readyState = Some 2"

definition getStreamReadyStateError :: "int option \<Rightarrow> int option \<Rightarrow> jsstr option" where
  "getStreamReadyStateError eventReadyState httpStatus =
     (case (eventReadyState, httpStatus) of
        (Some r, Some h) \<Rightarrow>
          if r \<ge> 2 \<and> h \<noteq> 200
          then Some (js ''HTTP '' @ show_int h @ js '': '' @ ERROR_MESSAGES CONNECTION_CLOSED) else None
      | _ \<Rightarrow> None)"

record RequestErrorDetails =
  red_code :: "jsstr option"
  red_message :: jsstr

definition parseRequestErrorDetails :: "jsval \<Rightarrow> RequestErrorDetails" where
  "parseRequestErrorDetails err =
     (let d = jget (jget err (js ''response'')) (js ''data'') in
      \<lparr>red_code = text_field (jget d (js ''error'')) ''code'',
       red_message = (case text_field d ''message'' of
          Some m \<Rightarrow> m
        | None \<Rightarrow> (case text_field err ''message'' of Some m \<Rightarrow> m | None \<Rightarrow> ERROR_MESSAGES API_REQUEST_ERROR))\<rparr>)"

subsection \<open>The controller\<close>

datatype StreamCallback = OnUpdate StreamChunkType jsstr | OnComplete | OnError jsstr "jsstr option"

record StreamSource =
  src_request :: nat
  src_client :: nat
  src_completed :: bool
  src_closed :: bool

record stream_controller =
  active_source :: "nat option"
  stream_generation :: nat
  isStreaming :: bool
  opened :: "StreamSource list"
  awaiting :: "(nat \<times> nat) list"

definition createStreamRequestController :: stream_controller where
  "createStreamRequestController =
     \<lparr>active_source = None, stream_generation = 0, isStreaming = False, opened = [], awaiting = []\<rparr>"

definition close_source :: "nat option \<Rightarrow> stream_controller \<Rightarrow> stream_controller" where
  "close_source target c =
     (case target of
        Some i \<Rightarrow> c\<lparr>opened := (opened c)[i := (opened c ! i)\<lparr>src_closed := True\<rparr>]\<rparr>
      | None \<Rightarrow> c)"

definition closeActiveSource :: "nat \<Rightarrow> stream_controller \<Rightarrow> stream_controller" where
  "closeActiveSource target c =
     (let c1 = close_source (Some target) c in
      if active_source c1 = Some target then c1\<lparr>active_source := None, isStreaming := False\<rparr> else c1)"

text \<open>\<open>send\<close> up to \<open>await runtime.getHeaders()\<close>\<close>

definition stream_send :: "nat \<Rightarrow> stream_controller \<Rightarrow> stream_controller" where
  "stream_send client c =
     (let requestGeneration = stream_generation c + 1;
          c1 = close_source (active_source c)
                 (c\<lparr>stream_generation := requestGeneration, active_source := None\<rparr>)
      in c1\<lparr>isStreaming := False, awaiting := (requestGeneration, client) # awaiting c1\<rparr>)"

definition isCurrent :: "nat \<Rightarrow> stream_controller \<Rightarrow> bool" where
  "isCurrent i c \<longleftrightarrow> stream_generation c = src_request (opened c ! i) \<and> active_source c = Some i"

definition complete_source :: "nat \<Rightarrow> stream_controller \<Rightarrow> stream_controller" where
  "complete_source i c = c\<lparr>opened := (opened c)[i := (opened c ! i)\<lparr>src_completed := True\<rparr>]\<rparr>"

definition handleError ::
  "nat \<Rightarrow> jsstr \<Rightarrow> jsstr option \<Rightarrow> stream_controller \<Rightarrow> stream_controller \<times> (nat \<times> StreamCallback) list" where
  "handleError i errorMessage code c =
     (if \<not> isCurrent i c \<or> src_completed (opened c ! i) then (c, [])
      else (closeActiveSource i (complete_source i c), [(src_client (opened c ! i), OnError errorMessage code)]))"

definition headers_rejected ::
  "nat \<times> nat \<Rightarrow> jsstr option \<Rightarrow> stream_controller \<Rightarrow> stream_controller \<times> (nat \<times> StreamCallback) list" where
  "headers_rejected w message c0 =
     (let c = c0\<lparr>awaiting := remove1 w (awaiting c0)\<rparr> in
      if stream_generation c \<noteq> fst w then (c, [])
      else (c, [(snd w, OnError (case message of Some m \<Rightarrow> m | None \<Rightarrow> ERROR_MESSAGES STREAM_START_ERROR) None)]))"

text \<open>\<open>send\<close> from the headers on; \<open>throws\<close> tells whether starting the source throws.\<close>

definition headers_resolved ::
  "nat \<times> nat \<Rightarrow> bool \<Rightarrow> stream_controller \<Rightarrow> stream_controller \<times> (nat \<times> StreamCallback) list" where
  "headers_resolved w throws c0 =
     (let c = c0\<lparr>awaiting := remove1 w (awaiting c0)\<rparr> in
      if stream_generation c \<noteq> fst w then (c, [])
      else
        let i = length (opened c);
            c1 = c\<lparr>opened := opened c @ [\<lparr>src_request = fst w, src_client = snd w, src_completed = False, src_closed = False\<rparr>],
                   active_source := Some i, isStreaming := True\<rparr>
        in if throws then handleError i (ERROR_MESSAGES STREAM_START_ERROR) None c1 else (c1, []))"

definition source_message ::
  "(jsstr \<Rightarrow> jsval option) \<Rightarrow> nat \<Rightarrow> jsstr \<Rightarrow> stream_controller \<Rightarrow> stream_controller \<times> (nat \<times> StreamCallback) list" where
  "source_message parse i d c =
     (if \<not> isCurrent i c \<or> src_completed (opened c ! i) then (c, [])
      else if isStreamDoneMessage d
      then (closeActiveSource i (complete_source i c), [(src_client (opened c ! i), OnComplete)])
      else case parseStreamMessageUpdates parse d of
        Some updates \<Rightarrow> (c, map (\<lambda>(ty, chunk). (src_client (opened c ! i), OnUpdate ty chunk)) updates)
      | None \<Rightarrow> handleError i (ERROR_MESSAGES PARSE_ERROR) None c)"

definition source_error ::
  "(jsstr \<Rightarrow> jsval option) \<Rightarrow> nat \<Rightarrow> int option \<Rightarrow> jsstr option \<Rightarrow> stream_controller
     \<Rightarrow> stream_controller \<times> (nat \<times> StreamCallback) list" where
  "source_error parse i readyState d c =
     (if \<not> isCurrent i c \<or> src_completed (opened c ! i) then (c, [])
      else if isStreamClosedReadyState readyState then (c, [])
      else let details = parseStreamErrorDetails parse d in handleError i (sed_message details) (sed_code details) c)"

definition source_readystate ::
  "nat \<Rightarrow> int option \<Rightarrow> int option \<Rightarrow> stream_controller \<Rightarrow> stream_controller \<times> (nat \<times> StreamCallback) list" where
  "source_readystate i eventReadyState httpStatus c =
     (if \<not> isCurrent i c \<or> src_completed (opened c ! i) then (c, [])
      else case getStreamReadyStateError eventReadyState httpStatus of
        Some errorMessage \<Rightarrow> handleError i errorMessage None c
      | None \<Rightarrow> (c, []))"

definition cancel_stream :: "bool \<Rightarrow> stream_controller \<Rightarrow> stream_controller" where
  "cancel_stream notify c =
     (let c1 = close_source (active_source c) (c\<lparr>stream_generation := stream_generation c + 1, active_source := None\<rparr>)
      in if notify then c1\<lparr>isStreaming := False\<rparr> else c1)"

subsection \<open>Events\<close>

datatype stream_event =
    HeadersResolved "nat \<times> nat" bool
  | HeadersRejected "nat \<times> nat" "jsstr option"
  | SourceMessage nat jsstr
  | SourceError nat "int option" "jsstr option"
  | SourceReadyState nat "int option" "int option"

fun stream_enabled :: "stream_controller \<Rightarrow> stream_event \<Rightarrow> bool" where
  "stream_enabled c (HeadersResolved w throws) \<longleftrightarrow> w \<in> set (awaiting c)"
| "stream_enabled c (HeadersRejected w message) \<longleftrightarrow> w \<in> set (awaiting c)"
| "stream_enabled c (SourceMessage i d) \<longleftrightarrow> i < length (opened c)"
| "stream_enabled c (SourceError i readyState d) \<longleftrightarrow> i < length (opened c)"
| "stream_enabled c (SourceReadyState i r h) \<longleftrightarrow> i < length (opened c)"

fun stream_deliver ::
  "(jsstr \<Rightarrow> jsval option) \<Rightarrow> stream_controller \<Rightarrow> stream_event \<Rightarrow> stream_controller \<times> (nat \<times> StreamCallback) list" where
  "stream_deliver parse c (HeadersResolved w throws) = headers_resolved w throws c"
| "stream_deliver parse c (HeadersRejected w message) = headers_rejected w message c"
| "stream_deliver parse c (SourceMessage i d) = source_message parse i d c"
| "stream_deliver parse c (SourceError i readyState d) = source_error parse i readyState d c"
| "stream_deliver parse c (SourceReadyState i r h) = source_readystate i r h c"

text \<open>What happens to a controller: its owner sends or cancels, the outside delivers an event.\<close>

datatype 'e stream_op = Send nat | Cancel bool | Deliver 'e

fun stream_runs ::
  "('c \<Rightarrow> 'e \<Rightarrow> bool) \<Rightarrow> ('c \<Rightarrow> 'e \<Rightarrow> 'c \<times> 'l list) \<Rightarrow> (nat \<Rightarrow> 'c \<Rightarrow> 'c) \<Rightarrow> (bool \<Rightarrow> 'c \<Rightarrow> 'c)
     \<Rightarrow> 'c \<Rightarrow> 'e stream_op list \<Rightarrow> ('c \<times> 'l list) option" where
  "stream_runs enabled deliver send cancel c [] = Some (c, [])"
| "stream_runs enabled deliver send cancel c (Send k # ops) = stream_runs enabled deliver send cancel (send k c) ops"
| "stream_runs enabled deliver send cancel c (Cancel b # ops) = stream_runs enabled deliver send cancel (cancel b c) ops"
| "stream_runs enabled deliver send cancel c (Deliver e # ops) =
     (if enabled c e
      then (case deliver c e of (c', cbs) \<Rightarrow>
             map_option (\<lambda>(d, calls). (d, cbs @ calls)) (stream_runs enabled deliver send cancel c' ops))
      else None)"

section \<open>The contract\<close>

fun is_update :: "StreamCallback \<Rightarrow> bool" where
  "is_update (OnUpdate ty c) \<longleftrightarrow> True"
| "is_update OnComplete \<longleftrightarrow> False"
| "is_update (OnError m code) \<longleftrightarrow> False"

text \<open>
  What a client relies on: at most one client is live; only the live one is called; it stays live
  through updates and is live no more after its end.
\<close>

definition fair_delivery :: "nat option \<Rightarrow> (nat \<times> StreamCallback) list \<Rightarrow> nat option \<Rightarrow> bool" where
  "fair_delivery before cbs after \<longleftrightarrow>
     cbs = [] \<and> after = before
     \<or> (\<exists>k. before = Some k \<and> after = before \<and> list_all (\<lambda>(k', cb). k' = k \<and> is_update cb) cbs)
     \<or> (\<exists>k cb. before = Some k \<and> after = None \<and> cbs = [(k, cb)] \<and> \<not> is_update cb)"

lemma fair_idle [simp]: "fair_delivery x [] x"
  by (simp add: fair_delivery_def)

fun sends_of :: "'e stream_op list \<Rightarrow> nat list" where
  "sends_of [] = []"
| "sends_of (Send k # ops) = k # sends_of ops"
| "sends_of (Cancel b # ops) = sends_of ops"
| "sends_of (Deliver e # ops) = sends_of ops"

lemma sends_of_append: "sends_of (xs @ ys) = sends_of xs @ sends_of ys"
  by (induction xs rule: sends_of.induct) auto

lemma stream_runs_append:
  "stream_runs enabled deliver send cancel c (xs @ ys) = Some (d, calls) \<Longrightarrow>
     \<exists>c1 cs1 cs2. stream_runs enabled deliver send cancel c xs = Some (c1, cs1)
       \<and> stream_runs enabled deliver send cancel c1 ys = Some (d, cs2) \<and> calls = cs1 @ cs2"
proof (induction xs arbitrary: c calls)
  case (Cons x xs)
  show ?case
  proof (cases x)
    case (Deliver e)
    with Cons.prems obtain c' cbs calls' where e: "enabled c e" "deliver c e = (c', cbs)"
      "stream_runs enabled deliver send cancel c' (xs @ ys) = Some (d, calls')" "calls = cbs @ calls'"
      by (auto split: if_splits prod.splits)
    from Cons.IH[OF e(3)] e Deliver show ?thesis by auto
  qed (use Cons in auto)
qed simp

definition calls_of :: "nat \<Rightarrow> (nat \<times> StreamCallback) list \<Rightarrow> StreamCallback list" where
  "calls_of k calls = map snd (filter (\<lambda>l. fst l = k) calls)"

lemma calls_of_simps [simp]: "calls_of k [] = []" "calls_of k (xs @ ys) = calls_of k xs @ calls_of k ys"
  by (simp_all add: calls_of_def)

locale stream_provider =
  fixes live :: "'c \<Rightarrow> nat option"
    and enabled :: "'c \<Rightarrow> 'e \<Rightarrow> bool"
    and deliver :: "'c \<Rightarrow> 'e \<Rightarrow> 'c \<times> (nat \<times> StreamCallback) list"
    and send :: "nat \<Rightarrow> 'c \<Rightarrow> 'c"
    and cancel :: "bool \<Rightarrow> 'c \<Rightarrow> 'c"
    and ok :: "'c \<Rightarrow> bool"
  assumes send_ok: "ok c \<Longrightarrow> ok (send k c)" and send_live: "ok c \<Longrightarrow> live (send k c) = Some k"
    and cancel_ok: "ok c \<Longrightarrow> ok (cancel b c)" and cancel_live: "ok c \<Longrightarrow> live (cancel b c) = None"
    and deliver_ok: "ok c \<Longrightarrow> enabled c e \<Longrightarrow> deliver c e = (c', cbs) \<Longrightarrow> ok c'"
    and deliver_fair: "ok c \<Longrightarrow> enabled c e \<Longrightarrow> deliver c e = (c', cbs) \<Longrightarrow> fair_delivery (live c) cbs (live c')"
begin

abbreviation provider_runs :: "'c \<Rightarrow> 'e stream_op list \<Rightarrow> ('c \<times> (nat \<times> StreamCallback) list) option" where
  "provider_runs \<equiv> stream_runs enabled deliver send cancel"

lemma deliver_cases:
  assumes "provider_runs c (Deliver e # ops) = Some (d, calls)"
  obtains c' cbs calls' where "enabled c e" "deliver c e = (c', cbs)" "provider_runs c' ops = Some (d, calls')" "calls = cbs @ calls'"
  using assms by (auto split: if_splits prod.splits)

lemma runs_ok: "ok c \<Longrightarrow> provider_runs c ops = Some (d, calls) \<Longrightarrow> ok d"
proof (induction ops arbitrary: c calls)
  case (Cons op ops)
  then show ?case by (cases op) (auto split: if_splits prod.splits intro: send_ok cancel_ok deliver_ok)
qed simp

lemma only_live_called:
  "ok c \<Longrightarrow> provider_runs c ops = Some (d, calls) \<Longrightarrow> live c \<noteq> Some k \<Longrightarrow> k \<notin> set (sends_of ops) \<Longrightarrow> calls_of k calls = []"
proof (induction ops arbitrary: c calls)
  case (Cons op ops)
  show ?case
  proof (cases op)
    case (Deliver e)
    from Cons.prems(2)[unfolded Deliver] obtain c' cbs calls' where e: "enabled c e" "deliver c e = (c', cbs)"
      "provider_runs c' ops = Some (d, calls')" "calls = cbs @ calls'" by (rule deliver_cases)
    have f: "fair_delivery (live c) cbs (live c')" using deliver_fair Cons.prems(1) e by blast
    then have "calls_of k cbs = []" "live c' \<noteq> Some k"
      using Cons.prems(3) by (auto simp: fair_delivery_def calls_of_def filter_empty_conv list_all_iff)
    with Cons.IH[OF deliver_ok[OF Cons.prems(1) e(1,2)] e(3)] Cons.prems e(4) Deliver show ?thesis by simp
  next
    case (Send k')
    with Cons.IH[OF send_ok[OF Cons.prems(1)]] Cons.prems send_live show ?thesis by simp
  next
    case (Cancel b)
    with Cons.IH[OF cancel_ok[OF Cons.prems(1)]] Cons.prems cancel_live show ?thesis by simp
  qed
qed simp

lemma calls_end_once:
  assumes "ok c" "provider_runs c ops = Some (d, calls)" "distinct (sends_of ops)"
    and "live c = Some k \<longrightarrow> k \<notin> set (sends_of ops)"
  shows "list_all is_update (butlast (calls_of k calls))"
  using assms
proof (induction ops arbitrary: c calls)
  case (Cons op ops)
  show ?case
  proof (cases op)
    case (Deliver e)
    from Cons.prems(2)[unfolded Deliver] obtain c' cbs calls' where e: "enabled c e" "deliver c e = (c', cbs)"
      "provider_runs c' ops = Some (d, calls')" "calls = cbs @ calls'" by (rule deliver_cases)
    have f: "fair_delivery (live c) cbs (live c')" using deliver_fair Cons.prems(1) e by blast
    have ok': "ok c'" using deliver_ok Cons.prems(1) e by blast
    have "live c' = Some k \<longrightarrow> k \<notin> set (sends_of ops)" using f Cons.prems(4) Deliver by (auto simp: fair_delivery_def)
    then have ih: "list_all is_update (butlast (calls_of k calls'))" using Cons.IH[OF ok' e(3)] Cons.prems(3) Deliver by simp
    show ?thesis
    proof (cases "list_all is_update (calls_of k cbs)")
      case True
      then show ?thesis using ih e(4) by (auto simp: butlast_append dest: in_set_butlastD simp: list_all_iff)
    next
      case False
      then obtain cb where cb: "live c = Some k" "live c' = None" "cbs = [(k, cb)]"
        using f by (auto simp: fair_delivery_def calls_of_def list_all_iff split: if_splits)
      then have "calls_of k calls' = []"
        using only_live_called[OF ok' e(3), of k] Cons.prems(4) Deliver by simp
      then show ?thesis using e(4) cb by (simp add: calls_of_def)
    qed
  next
    case (Send k')
    then have "k = k' \<longrightarrow> k \<notin> set (sends_of ops)" using Cons.prems(3) by auto
    with Cons.IH[of "send k' c" calls] Cons.prems Send send_ok send_live show ?thesis by auto
  next
    case (Cancel b)
    with Cons.IH[of "cancel b c" calls] Cons.prems cancel_ok cancel_live show ?thesis by auto
  qed
qed simp

text \<open>Whoever was served before is not called again once another request is sent or all are cancelled.\<close>

lemma superseded_silent:
  assumes "ok c" "op = Cancel b \<or> op = Send k0" "provider_runs c (op # ops) = Some (d, calls)" "k \<notin> set (sends_of (op # ops))"
  shows "calls_of k calls = []"
  using assms only_live_called[of "cancel b c" ops d calls k] only_live_called[of "send k0 c" ops d calls k]
    send_ok send_live cancel_ok cancel_live by auto

end

section \<open>Library\<close>

text \<open>The client of the request of the current generation, as long as that has not ended.\<close>

definition live_client :: "stream_controller \<Rightarrow> nat option" where
  "live_client c =
     (case map_of (awaiting c) (stream_generation c) of
        Some k \<Rightarrow> Some k
      | None \<Rightarrow> map_option (\<lambda>i. src_client (opened c ! i)) (active_source c))"

definition stream_ok :: "stream_controller \<Rightarrow> bool" where
  "stream_ok c \<longleftrightarrow>
     distinct (map fst (awaiting c)) \<and> (\<forall>w \<in> set (awaiting c). fst w \<le> stream_generation c)
     \<and> (\<forall>i. active_source c = Some i \<longrightarrow> i < length (opened c) \<and> src_request (opened c ! i) = stream_generation c
          \<and> \<not> src_completed (opened c ! i) \<and> \<not> src_closed (opened c ! i)
          \<and> stream_generation c \<notin> fst ` set (awaiting c))
     \<and> (\<forall>i < length (opened c). active_source c \<noteq> Some i \<longrightarrow> src_closed (opened c ! i))
     \<and> (active_source c \<noteq> None \<longrightarrow> isStreaming c)"

lemma stream_ok_new [simp]: "stream_ok createStreamRequestController" "live_client createStreamRequestController = None"
  by (simp_all add: stream_ok_def createStreamRequestController_def live_client_def)

lemma close_source_fields [simp]:
  "active_source (close_source t c) = active_source c" "stream_generation (close_source t c) = stream_generation c"
  "isStreaming (close_source t c) = isStreaming c" "awaiting (close_source t c) = awaiting c"
  "length (opened (close_source t c)) = length (opened c)"
  by (simp_all add: close_source_def split: option.splits)

lemma close_source_closed:
  "i < length (opened c) \<Longrightarrow> src_closed (opened (close_source t c) ! i) \<longleftrightarrow> src_closed (opened c ! i) \<or> t = Some i"
  by (cases t; cases "t = Some i") (auto simp: close_source_def)

lemma stream_send_ok:
  assumes "stream_ok c"
  shows "stream_ok (stream_send k c)" "live_client (stream_send k c) = Some k"
proof -
  have "stream_generation c + 1 \<notin> fst ` set (awaiting c)" using assms by (fastforce simp: stream_ok_def)
  then show "stream_ok (stream_send k c)"
    using assms by (auto simp: stream_ok_def stream_send_def Let_def close_source_closed)
  show "live_client (stream_send k c) = Some k" by (simp add: live_client_def stream_send_def Let_def)
qed

lemma cancel_stream_ok:
  assumes "stream_ok c"
  shows "stream_ok (cancel_stream b c)" "live_client (cancel_stream b c) = None"
proof -
  have n: "stream_generation c + 1 \<notin> fst ` set (awaiting c)" using assms by (fastforce simp: stream_ok_def)
  then have "map_of (awaiting c) (Suc (stream_generation c)) = None" by (simp add: map_of_eq_None_iff)
  then show "live_client (cancel_stream b c) = None" by (simp add: live_client_def cancel_stream_def Let_def)
  show "stream_ok (cancel_stream b c)"
    using assms by (auto simp: stream_ok_def cancel_stream_def Let_def close_source_closed)
qed

text \<open>The end of the current source\<close>

definition end_source :: "nat \<Rightarrow> stream_controller \<Rightarrow> stream_controller" where
  "end_source i c = closeActiveSource i (complete_source i c)"

lemma end_source_ok:
  assumes "stream_ok c" "active_source c = Some i"
  shows "stream_ok (end_source i c)" "live_client (end_source i c) = None" "live_client c = Some (src_client (opened c ! i))"
proof -
  have a: "active_source (end_source i c) = None" "stream_generation (end_source i c) = stream_generation c"
    "awaiting (end_source i c) = awaiting c" "length (opened (end_source i c)) = length (opened c)"
    using assms(2) by (simp_all add: end_source_def closeActiveSource_def complete_source_def Let_def)
  have "src_closed (opened (end_source i c) ! j) \<longleftrightarrow> src_closed (opened c ! j) \<or> j = i" if "j < length (opened c)" for j
    using that assms(2)
    by (auto simp: end_source_def closeActiveSource_def complete_source_def Let_def close_source_closed nth_list_update)
  with assms a show "stream_ok (end_source i c)" by (auto simp: stream_ok_def)
  have "map_of (awaiting c) (stream_generation c) = None" using assms by (auto simp: stream_ok_def map_of_eq_None_iff)
  with a assms show "live_client (end_source i c) = None" "live_client c = Some (src_client (opened c ! i))"
    by (simp_all add: live_client_def)
qed

lemma current_source:
  assumes "isCurrent i c"
  shows "active_source c = Some i"
  using assms by (simp add: isCurrent_def)

lemma handleError_fair:
  assumes "stream_ok c" "handleError i m code c = (c', cbs)"
  shows "stream_ok c' \<and> fair_delivery (live_client c) cbs (live_client c')"
proof (cases "\<not> isCurrent i c \<or> src_completed (opened c ! i)")
  case False
  then have "active_source c = Some i" using current_source by blast
  note e = end_source_ok[OF assms(1) this]
  from False assms(2) have "c' = end_source i c" "cbs = [(src_client (opened c ! i), OnError m code)]"
    by (auto simp: handleError_def end_source_def)
  with e show ?thesis by (simp add: fair_delivery_def)
qed (use assms in \<open>auto simp: handleError_def fair_delivery_def\<close>)

lemma remove_wait:
  assumes "distinct (map fst ws)"
  shows "map_of (remove1 w ws) r = (if w \<in> set ws \<and> fst w = r then None else map_of ws r)"
    "set (remove1 w ws) \<subseteq> set ws" "distinct (map fst (remove1 w ws))"
proof (atomize (full), cases "w \<in> set ws")
  case True
  then obtain as bs where ws: "ws = as @ w # bs" "w \<notin> set as" by (meson split_list_first)
  then have r: "remove1 w ws = as @ bs" by (simp add: remove1_append)
  have n: "fst w \<notin> fst ` set as" "fst w \<notin> fst ` set bs" using assms ws(1) by auto
  then have "map_of as (fst w) = None" "map_of bs (fst w) = None" by (simp_all add: map_of_eq_None_iff)
  with r ws assms True show "map_of (remove1 w ws) r = (if w \<in> set ws \<and> fst w = r then None else map_of ws r)
      \<and> set (remove1 w ws) \<subseteq> set ws \<and> distinct (map fst (remove1 w ws))"
    by (cases w) (auto simp: map_add_def split: option.splits)
qed (use assms in \<open>simp add: remove1_idem\<close>)

lemma stream_ok_awaiting:
  assumes "stream_ok c" "set ws \<subseteq> set (awaiting c)" "distinct (map fst ws)"
  shows "stream_ok (c\<lparr>awaiting := ws\<rparr>)"
proof -
  have "stream_generation c \<notin> fst ` set ws" if "stream_generation c \<notin> fst ` set (awaiting c)"
    using that assms(2) by (metis image_mono subsetD)
  moreover have "\<forall>w \<in> set ws. fst w \<le> stream_generation c" using assms(1,2) by (auto simp: stream_ok_def)
  ultimately show ?thesis using assms(1,3) by (simp add: stream_ok_def)
qed

lemma remove_wait_ok:
  assumes "stream_ok c" "w \<in> set (awaiting c)"
  shows "stream_ok (c\<lparr>awaiting := remove1 w (awaiting c)\<rparr>)"
    "fst w \<noteq> stream_generation c \<Longrightarrow> live_client (c\<lparr>awaiting := remove1 w (awaiting c)\<rparr>) = live_client c"
    "fst w = stream_generation c \<Longrightarrow> live_client c = Some (snd w) \<and> active_source c = None
       \<and> live_client (c\<lparr>awaiting := remove1 w (awaiting c)\<rparr>) = None"
proof -
  have d: "distinct (map fst (awaiting c))" using assms by (simp add: stream_ok_def)
  show "stream_ok (c\<lparr>awaiting := remove1 w (awaiting c)\<rparr>)"
    by (rule stream_ok_awaiting[OF assms(1) remove_wait(2,3)[OF d]])
  show "fst w \<noteq> stream_generation c \<Longrightarrow> live_client (c\<lparr>awaiting := remove1 w (awaiting c)\<rparr>) = live_client c"
    by (simp add: live_client_def remove_wait(1)[OF d] split: option.splits)
  assume g: "fst w = stream_generation c"
  then have "stream_generation c \<in> fst ` set (awaiting c)" using assms(2) by (metis image_eqI)
  then have "active_source c = None" using assms(1) unfolding stream_ok_def by (cases "active_source c") blast+
  moreover have "map_of (awaiting c) (stream_generation c) = Some (snd w)" using d assms(2) g by (metis map_of_is_SomeI prod.collapse)
  ultimately show "live_client c = Some (snd w) \<and> active_source c = None
       \<and> live_client (c\<lparr>awaiting := remove1 w (awaiting c)\<rparr>) = None"
    using g assms(2) by (simp add: live_client_def remove_wait(1)[OF d])
qed

lemma headers_rejected_fair:
  assumes "stream_ok c" "w \<in> set (awaiting c)" "headers_rejected w m c = (c', cbs)"
  shows "stream_ok c' \<and> fair_delivery (live_client c) cbs (live_client c')"
  using assms(3) remove_wait_ok[OF assms(1,2)]
  by (cases "stream_generation c = fst w") (auto simp: headers_rejected_def Let_def fair_delivery_def)

definition open_source :: "nat \<times> nat \<Rightarrow> stream_controller \<Rightarrow> stream_controller" where
  "open_source w c =
     c\<lparr>opened := opened c @ [\<lparr>src_request = fst w, src_client = snd w, src_completed = False, src_closed = False\<rparr>],
       active_source := Some (length (opened c)), isStreaming := True\<rparr>"

lemma open_source_ok:
  assumes "stream_ok c" "active_source c = None" "fst w = stream_generation c" "map_of (awaiting c) (fst w) = None"
  shows "stream_ok (open_source w c)" "live_client (open_source w c) = Some (snd w)"
proof -
  have "stream_generation c \<notin> fst ` set (awaiting c)" using assms(3,4) by (simp add: map_of_eq_None_iff)
  with assms show "stream_ok (open_source w c)"
    by (auto simp: stream_ok_def open_source_def nth_append less_Suc_eq)
  show "live_client (open_source w c) = Some (snd w)" using assms by (simp add: live_client_def open_source_def)
qed

lemma headers_resolved_fair:
  assumes "stream_ok c" "w \<in> set (awaiting c)" "headers_resolved w throws c = (c', cbs)"
  shows "stream_ok c' \<and> fair_delivery (live_client c) cbs (live_client c')"
proof -
  let ?c = "c\<lparr>awaiting := remove1 w (awaiting c)\<rparr>"
  note r = remove_wait_ok[OF assms(1,2)]
  show ?thesis
  proof (cases "stream_generation c = fst w")
    case False
    with assms(3) r show ?thesis by (auto simp: headers_resolved_def Let_def fair_delivery_def)
  next
    case True
    have d: "distinct (map fst (awaiting c))" using assms(1) by (simp add: stream_ok_def)
    have a: "live_client c = Some (snd w)" "active_source ?c = None" using r(3) True by auto
    have "map_of (awaiting ?c) (fst w) = None" using assms(2) by (simp add: remove_wait(1)[OF d])
    with open_source_ok[of ?c w] r(1) a(2) True
    have o: "stream_ok (open_source w ?c)" "live_client (open_source w ?c) = live_client c" using a(1) by simp_all
    from True assms(3) have "if throws then handleError (length (opened c)) (ERROR_MESSAGES STREAM_START_ERROR) None (open_source w ?c) = (c', cbs)
        else (open_source w ?c, []) = (c', cbs)"
      by (simp add: headers_resolved_def Let_def open_source_def split: if_splits)
    with handleError_fair[OF o(1)] o show ?thesis by (auto simp: fair_delivery_def split: if_splits)
  qed
qed

lemma source_message_fair:
  assumes "stream_ok c" "source_message parse i d c = (c', cbs)"
  shows "stream_ok c' \<and> fair_delivery (live_client c) cbs (live_client c')"
proof (cases "\<not> isCurrent i c \<or> src_completed (opened c ! i)")
  case False
  then have a: "active_source c = Some i" using current_source by blast
  note e = end_source_ok[OF assms(1) a]
  show ?thesis
  proof (cases "isStreamDoneMessage d")
    case True
    with False assms(2) have "c' = end_source i c" "cbs = [(src_client (opened c ! i), OnComplete)]"
      by (auto simp: source_message_def end_source_def)
    with e show ?thesis by (simp add: fair_delivery_def)
  next
    case not_done: False
    show ?thesis
    proof (cases "parseStreamMessageUpdates parse d")
      case None
      with False not_done assms(2) handleError_fair[OF assms(1)] show ?thesis by (auto simp: source_message_def)
    next
      case (Some updates)
      with False not_done assms e(3) show ?thesis
        by (auto simp: source_message_def fair_delivery_def list_all_iff)
    qed
  qed
qed (use assms in \<open>auto simp: source_message_def fair_delivery_def\<close>)

lemma source_error_fair:
  assumes "stream_ok c" "source_error parse i r d c = (c', cbs)"
  shows "stream_ok c' \<and> fair_delivery (live_client c) cbs (live_client c')"
  using assms(2) handleError_fair[OF assms(1)] assms(1)
  by (auto simp: source_error_def Let_def split: if_splits)

lemma source_readystate_fair:
  assumes "stream_ok c" "source_readystate i r h c = (c', cbs)"
  shows "stream_ok c' \<and> fair_delivery (live_client c) cbs (live_client c')"
  using assms(2) handleError_fair[OF assms(1)] assms(1)
  by (auto simp: source_readystate_def split: if_splits option.splits)

lemma stream_deliver_fair:
  assumes "stream_ok c" "stream_enabled c e" "stream_deliver parse c e = (c', cbs)"
  shows "stream_ok c' \<and> fair_delivery (live_client c) cbs (live_client c')"
proof (cases e)
  case (HeadersResolved w throws)
  then show ?thesis using headers_resolved_fair[of c w throws] assms by simp
next
  case (HeadersRejected w m)
  then show ?thesis using headers_rejected_fair[of c w m] assms by simp
next
  case (SourceMessage i d)
  then show ?thesis using source_message_fair[of c parse i d] assms by simp
next
  case (SourceError i r d)
  then show ?thesis using source_error_fair[of c parse i r d] assms by simp
next
  case (SourceReadyState i r h)
  then show ?thesis using source_readystate_fair[of c i r h] assms by simp
qed

interpretation sp: stream_provider live_client stream_enabled "stream_deliver parse" stream_send cancel_stream stream_ok
  for parse
  by unfold_locales (use stream_send_ok cancel_stream_ok stream_deliver_fair in blast)+

abbreviation controller_runs ::
  "(jsstr \<Rightarrow> jsval option) \<Rightarrow> stream_controller \<Rightarrow> stream_event stream_op list
     \<Rightarrow> (stream_controller \<times> (nat \<times> StreamCallback) list) option" where
  "controller_runs parse \<equiv> stream_runs stream_enabled (stream_deliver parse) stream_send cancel_stream"

text \<open>The streaming flag is never up without an open source, unless the controller was disposed of.\<close>

definition flag_right :: "stream_controller \<Rightarrow> bool" where
  "flag_right c \<longleftrightarrow> (isStreaming c \<longrightarrow> active_source c \<noteq> None)"

lemma flag_right_ops [simp]:
  "flag_right createStreamRequestController" "flag_right (stream_send k c)" "flag_right (cancel_stream True c)"
  by (simp_all add: flag_right_def createStreamRequestController_def stream_send_def cancel_stream_def Let_def)

lemma flag_right_handleError: "flag_right c \<Longrightarrow> flag_right (fst (handleError i m code c))"
  by (auto simp: flag_right_def handleError_def isCurrent_def closeActiveSource_def complete_source_def Let_def)

lemma flag_right_deliver:
  assumes "flag_right c"
  shows "flag_right (fst (stream_deliver parse c e))"
proof -
  have a: "flag_right (c\<lparr>awaiting := ws\<rparr>)" "flag_right (c\<lparr>opened := os, active_source := Some i, isStreaming := True\<rparr>)"
    "flag_right (c\<lparr>awaiting := ws, opened := os, active_source := Some i, isStreaming := True\<rparr>)" for ws os i
    using assms by (simp_all add: flag_right_def)
  show ?thesis
  proof (cases e)
    case (SourceMessage i d)
    with assms flag_right_handleError[OF assms] show ?thesis
      by (auto simp: source_message_def flag_right_def closeActiveSource_def complete_source_def isCurrent_def Let_def
          split: option.splits)
  qed (use assms a flag_right_handleError in \<open>auto simp: headers_resolved_def headers_rejected_def source_error_def
      source_readystate_def Let_def split: option.splits\<close>)
qed

section \<open>Properties\<close>

text \<open>
  C11. Streamed requests end once and in order. Whatever is sent, cancelled and delivered, each request
  gets updates and then at most one end, completion or error, with nothing after it; a request is
  not called any more once another one is sent or the stream is cancelled; and at most one event source
  is open at any time, the one the controller knows.
\<close>

theorem stream_ends_once:
  assumes "controller_runs parse createStreamRequestController (ops @ op # ops') = Some (c, calls)"
    and "distinct (sends_of (ops @ op # ops'))" "op = Cancel b \<or> op = Send k0"
  shows "list_all is_update (butlast (calls_of k calls))
    \<and> (\<forall>i < length (opened c). \<not> src_closed (opened c ! i) \<longrightarrow> active_source c = Some i)
    \<and> (\<exists>c1 calls1 calls2. controller_runs parse createStreamRequestController ops = Some (c1, calls1)
         \<and> calls = calls1 @ calls2 \<and> (k \<in> set (sends_of ops) \<longrightarrow> calls_of k calls2 = []))"
proof -
  from stream_runs_append[OF assms(1)] obtain c1 cs1 cs2 where r: "controller_runs parse createStreamRequestController ops = Some (c1, cs1)"
    "controller_runs parse c1 (op # ops') = Some (c, cs2)" "calls = cs1 @ cs2" by blast
  have "calls_of k cs2 = []" if "k \<in> set (sends_of ops)"
    using sp.superseded_silent[OF sp.runs_ok[OF stream_ok_new(1) r(1)] assms(3) r(2)] that assms(2)
    unfolding sends_of_append by auto
  moreover have "list_all is_update (butlast (calls_of k calls))"
    using sp.calls_end_once[OF stream_ok_new(1) assms(1,2)] by simp
  moreover have "\<forall>i < length (opened c). \<not> src_closed (opened c ! i) \<longrightarrow> active_source c = Some i"
    using sp.runs_ok[OF stream_ok_new(1) assms(1)] by (auto simp: stream_ok_def)
  ultimately show ?thesis using r by blast
qed

definition no_json :: "jsstr \<Rightarrow> jsval option" where
  "no_json s = None"

theorem stream_ends_once_witness:
  "\<exists>c calls. controller_runs no_json createStreamRequestController
       ([Send 1, Deliver (HeadersResolved (1, 1) False)] @ Send 2 #
        [Deliver (SourceMessage 0 (js ''[DONE]'')), Deliver (HeadersResolved (2, 2) False), Deliver (SourceMessage 1 (js ''[DONE]''))])
     = Some (c, calls) \<and> calls_of 1 calls = [] \<and> calls_of 2 calls = [OnComplete] \<and> list_all is_update (butlast (calls_of 2 calls))"
proof -
  let ?ops = "[Send 1, Deliver (HeadersResolved (1, 1) False)]"
  let ?ops' = "[Deliver (SourceMessage 0 (js ''[DONE]'')), Deliver (HeadersResolved (2, 2) False),
      Deliver (SourceMessage 1 (js ''[DONE]''))]"
  let ?r = "controller_runs no_json createStreamRequestController (?ops @ Send 2 # ?ops')"
  have e: "?r \<noteq> None" "calls_of 1 (snd (the ?r)) = []" "calls_of 2 (snd (the ?r)) = [OnComplete]" by code_simp+
  then obtain c calls where r: "?r = Some (c, calls)" by auto
  have "distinct (sends_of (?ops @ Send 2 # ?ops'))" by simp
  from stream_ends_once[OF r this, of True 2 2] e r show ?thesis by (intro exI[of _ c] exI[of _ calls]) auto
qed

text \<open>A stream that closes normally without its closing message is not noticed: nothing changes.\<close>

lemma closed_without_done_ignored:
  "source_readystate i (Some 2) (Some 200) c = (c, []) \<and> source_error parse i (Some 2) d c = (c, [])"
  by (simp add: source_readystate_def getStreamReadyStateError_def source_error_def isStreamClosedReadyState_def)

end
