(* ===== verification/Playground_Chat.thy ===== *)
theory Playground_Chat
  imports Stream_Controller
begin

text \<open>
  The playground's conversation at work (\<open>hooks/use-chat-handler.ts\<close>, \<open>hooks/use-stream-request.ts\<close>,
  \<open>hooks/use-playground-conversation.ts\<close> and \<open>updateMessages\<close> of \<open>hooks/use-playground-state.ts\<close>):
  sending, streaming through a buffer that is flushed by a timer, answers delivered at once,
  stopping, and the updates of the message list.

  The refs and states of the hooks are one record. React runs a state updater when it renders, or at
  once if no other update is waiting and it chooses to; \<open>queued\<close> holds the updates
  that wait for the next rendering, and every event says what the clock shows and whether React is
  eager. A request without a stream is identified by its generation and its abort signal.
\<close>

section \<open>Model\<close>

subsection \<open>Updates of the message list\<close>

datatype MessageUpdate =
    FlushChunks nat jsstr jsstr
  | CompleteStream nat
  | FailStream nat jsstr "jsstr option" jsstr
  | ApplyResponse nat "ChatCompletionChoice list"
  | StopPending nat
  | ReplaceMessages "Message list"
  | RemoveMessage jsstr

datatype queued_update = Waiting MessageUpdate | Evaluated "Message list"

definition flush_message :: "rat \<Rightarrow> jsstr \<Rightarrow> jsstr \<Rightarrow> Message \<Rightarrow> Message" where
  "flush_message now r c message =
     (let m1 = (if r \<noteq> [] then applyStreamingChunk now message ReasoningChunk r else message)
      in if c \<noteq> [] then applyStreamingChunk now m1 ContentChunk c else m1)"

text \<open>An updater run when \<open>current\<close> is the generation of requests.\<close>

fun run_update :: "rat \<Rightarrow> nat \<Rightarrow> MessageUpdate \<Rightarrow> Message list \<Rightarrow> Message list" where
  "run_update now current (FlushChunks g r c) prev =
     (if g \<noteq> current then prev else updateLastAssistantMessage prev (flush_message now r c))"
| "run_update now current (CompleteStream g) prev =
     (if g \<noteq> current then prev
      else updateLastAssistantMessage prev
        (\<lambda>message. if isAssistantMessageFinal message then message else completeAssistantMessage now message))"
| "run_update now current (FailStream g displayError code title) prev =
     (if g \<noteq> current then prev else updateAssistantMessageWithError now prev displayError code title)"
| "run_update now current (ApplyResponse g choices) prev =
     (if g \<noteq> current then prev
      else updateLastAssistantMessage prev (\<lambda>message.
        case applyChatCompletionResponse now message choices of Some m \<Rightarrow> m | None \<Rightarrow> message))"
| "run_update now current (StopPending g) prev =
     (if g \<noteq> current then prev
      else updateLastAssistantMessage prev
        (\<lambda>message. if isAssistantMessagePending message then completeAssistantMessage now message else message))"
| "run_update now current (ReplaceMessages ms) prev = ms"
| "run_update now current (RemoveMessage k) prev = removeMessageByKey prev k"

fun run_queued :: "rat \<Rightarrow> nat \<Rightarrow> Message list \<Rightarrow> queued_update \<Rightarrow> Message list" where
  "run_queued now current prev (Waiting u) = run_update now current u prev"
| "run_queued now current prev (Evaluated ms) = ms"

subsection \<open>The state\<close>

record chat =
  ctl :: stream_controller
  requestGeneration :: nat
  chunkGeneration :: nat
  chunkContent :: jsstr
  chunkReasoning :: jsstr
  flushTimer :: "nat option"
  isRequesting :: bool
  abortController :: "nat option"
  abortedSignals :: "nat list"
  nextSignal :: nat
  completions :: "(nat \<times> nat) list"
  messages :: "Message list"
  queued :: "queued_update list"
  toasts :: "jsstr list"
  sentPayloads :: "ChatCompletionRequest list"
  mounted :: bool

record chat_env =
  parseJson :: "jsstr \<Rightarrow> jsval option"
  translation :: "jsstr \<Rightarrow> jsstr"

record tick =
  eager :: bool
  clock :: rat

definition new_chat :: "Message list \<Rightarrow> chat" where
  "new_chat ms =
     \<lparr>ctl = createStreamRequestController, requestGeneration = 0, chunkGeneration = 0, chunkContent = [], chunkReasoning = [],
      flushTimer = None, isRequesting = False, abortController = None, abortedSignals = [], nextSignal = 0, completions = [],
      messages = ms, queued = [], toasts = [], sentPayloads = [], mounted = True\<rparr>"

definition onMessageUpdate :: "tick \<Rightarrow> MessageUpdate \<Rightarrow> chat \<Rightarrow> chat" where
  "onMessageUpdate tk u s =
     (if eager tk \<and> queued s = []
      then s\<lparr>queued := [Evaluated (run_update (clock tk) (requestGeneration s) u (messages s))]\<rparr>
      else s\<lparr>queued := queued s @ [Waiting u]\<rparr>)"

definition render :: "rat \<Rightarrow> chat \<Rightarrow> chat" where
  "render now s = s\<lparr>messages := foldl (run_queued now (requestGeneration s)) (messages s) (queued s), queued := []\<rparr>"

subsection \<open>Buffering\<close>

definition mergePendingStreamChunk :: "jsstr \<Rightarrow> jsstr \<Rightarrow> jsstr" where
  "mergePendingStreamChunk currentChunk nextChunk =
     (if currentChunk = [] \<or> \<not> starts_with nextChunk currentChunk then currentChunk @ nextChunk else nextChunk)"

definition discardPendingStreamUpdates :: "nat \<Rightarrow> chat \<Rightarrow> chat" where
  "discardPendingStreamUpdates generation s =
     s\<lparr>flushTimer := None, chunkGeneration := generation, chunkContent := [], chunkReasoning := []\<rparr>"

definition flushStreamUpdates :: "tick \<Rightarrow> nat \<Rightarrow> chat \<Rightarrow> chat" where
  "flushStreamUpdates tk generation s =
     (if generation \<noteq> requestGeneration s then s
      else
        let s1 = s\<lparr>flushTimer := None\<rparr> in
        if chunkGeneration s1 \<noteq> generation then s1
        else if chunkReasoning s1 = [] \<and> chunkContent s1 = [] then s1
        else onMessageUpdate tk (FlushChunks generation (chunkReasoning s1) (chunkContent s1))
               (s1\<lparr>chunkGeneration := generation, chunkContent := [], chunkReasoning := []\<rparr>))"

definition scheduleStreamFlush :: "nat \<Rightarrow> chat \<Rightarrow> chat" where
  "scheduleStreamFlush generation s =
     (if generation \<noteq> requestGeneration s \<or> flushTimer s \<noteq> None then s else s\<lparr>flushTimer := Some generation\<rparr>)"

definition ends_with :: "jsstr \<Rightarrow> jsstr \<Rightarrow> bool" where
  "ends_with s p \<longleftrightarrow> suffix p s"

definition KNOWN_ERROR_MESSAGES :: "jsstr list" where
  "KNOWN_ERROR_MESSAGES = map ERROR_MESSAGES
     [API_REQUEST_ERROR, NETWORK_ERROR, PARSE_ERROR, STREAM_START_ERROR, CONNECTION_CLOSED, INTERRUPTED]"

definition getDisplayError :: "chat_env \<Rightarrow> jsstr \<Rightarrow> jsstr" where
  "getDisplayError env err =
     (if err \<in> set KNOWN_ERROR_MESSAGES then translation env err
      else if ends_with err (js '': '' @ ERROR_MESSAGES CONNECTION_CLOSED)
      then take (length err - length (ERROR_MESSAGES CONNECTION_CLOSED)) err @ translation env (ERROR_MESSAGES CONNECTION_CLOSED)
      else err)"

definition handleStreamUpdate :: "nat \<Rightarrow> StreamChunkType \<Rightarrow> jsstr \<Rightarrow> chat \<Rightarrow> chat" where
  "handleStreamUpdate generation ty chunk s =
     (if generation \<noteq> requestGeneration s \<or> chunkGeneration s \<noteq> generation then s
      else scheduleStreamFlush generation
        (case ty of
           ReasoningChunk \<Rightarrow> s\<lparr>chunkReasoning := mergePendingStreamChunk (chunkReasoning s) chunk\<rparr>
         | ContentChunk \<Rightarrow> s\<lparr>chunkContent := mergePendingStreamChunk (chunkContent s) chunk\<rparr>))"

definition handleStreamComplete :: "tick \<Rightarrow> nat \<Rightarrow> chat \<Rightarrow> chat" where
  "handleStreamComplete tk generation s =
     (if generation \<noteq> requestGeneration s then s
      else onMessageUpdate tk (CompleteStream generation) ((flushStreamUpdates tk generation s)\<lparr>isRequesting := False\<rparr>))"

definition handleStreamError :: "chat_env \<Rightarrow> tick \<Rightarrow> nat \<Rightarrow> jsstr \<Rightarrow> jsstr option \<Rightarrow> chat \<Rightarrow> chat" where
  "handleStreamError env tk generation err code s =
     (if generation \<noteq> requestGeneration s then s
      else
        let s1 = (flushStreamUpdates tk generation s)\<lparr>isRequesting := False\<rparr>;
            displayError = getDisplayError env err;
            errorTitle = translation env (ERROR_MESSAGES API_REQUEST_ERROR)
        in onMessageUpdate tk (FailStream generation displayError code errorTitle)
             (s1\<lparr>toasts := displayError # toasts s1\<rparr>))"

fun run_callback :: "chat_env \<Rightarrow> tick \<Rightarrow> chat \<Rightarrow> nat \<times> StreamCallback \<Rightarrow> chat" where
  "run_callback env tk s (g, OnUpdate ty chunk) = handleStreamUpdate g ty chunk s"
| "run_callback env tk s (g, OnComplete) = handleStreamComplete tk g s"
| "run_callback env tk s (g, OnError m code) = handleStreamError env tk g m code s"

subsection \<open>Requests\<close>

definition abort_current :: "chat \<Rightarrow> chat" where
  "abort_current s =
     s\<lparr>abortedSignals := (case abortController s of Some a \<Rightarrow> a # abortedSignals s | None \<Rightarrow> abortedSignals s),
       abortController := None\<rparr>"

definition sendStreamingChat :: "PlaygroundConfig \<Rightarrow> ParameterEnabled \<Rightarrow> Message list \<Rightarrow> chat \<Rightarrow> chat" where
  "sendStreamingChat config en ms s =
     (let generation = requestGeneration s + 1;
          s1 = discardPendingStreamUpdates generation (abort_current (s\<lparr>requestGeneration := generation\<rparr>))
      in s1\<lparr>isRequesting := True, sentPayloads := buildChatCompletionPayload ms config en # sentPayloads s1,
            ctl := stream_send generation (ctl s1)\<rparr>)"

text \<open>\<open>sendNonStreamingChat\<close> up to \<open>await sendChatCompletion\<close>\<close>

definition sendNonStreamingChat :: "PlaygroundConfig \<Rightarrow> ParameterEnabled \<Rightarrow> Message list \<Rightarrow> chat \<Rightarrow> chat" where
  "sendNonStreamingChat config en ms s =
     (let generation = requestGeneration s + 1;
          signal = nextSignal s;
          s1 = s\<lparr>nextSignal := signal + 1, requestGeneration := generation, ctl := cancel_stream True (ctl s)\<rparr>;
          s2 = abort_current (discardPendingStreamUpdates generation s1)
      in s2\<lparr>abortController := Some signal, isRequesting := True,
            sentPayloads := buildChatCompletionPayload ms config en # sentPayloads s2,
            completions := (generation, signal) # completions s2\<rparr>)"

definition completion_finally :: "nat \<Rightarrow> chat \<Rightarrow> chat" where
  "completion_finally generation s =
     (if requestGeneration s = generation then s\<lparr>abortController := None, isRequesting := False\<rparr> else s)"

definition completion_resolved ::
  "chat_env \<Rightarrow> tick \<Rightarrow> nat \<times> nat \<Rightarrow> ChatCompletionChoice list \<Rightarrow> chat \<Rightarrow> chat" where
  "completion_resolved env tk w choices s0 =
     (let s = s0\<lparr>completions := remove1 w (completions s0)\<rparr>; generation = fst w
      in completion_finally generation
           (if snd w \<in> set (abortedSignals s) \<or> requestGeneration s \<noteq> generation then s
            else if \<not> hasChatCompletionChoice choices
            then handleStreamError env tk generation (ERROR_MESSAGES API_REQUEST_ERROR) None s
            else onMessageUpdate tk (ApplyResponse generation choices) s))"

definition completion_rejected :: "chat_env \<Rightarrow> tick \<Rightarrow> nat \<times> nat \<Rightarrow> jsval \<Rightarrow> chat \<Rightarrow> chat" where
  "completion_rejected env tk w err s0 =
     (let s = s0\<lparr>completions := remove1 w (completions s0)\<rparr>; generation = fst w
      in completion_finally generation
           (if snd w \<in> set (abortedSignals s) \<or> requestGeneration s \<noteq> generation then s
            else let details = parseRequestErrorDetails err
                 in handleStreamError env tk generation (red_message details) (red_code details) s))"

definition sendChat :: "PlaygroundConfig \<Rightarrow> ParameterEnabled \<Rightarrow> Message list \<Rightarrow> chat \<Rightarrow> chat" where
  "sendChat config en ms s =
     (if cfg_stream config then sendStreamingChat config en ms s else sendNonStreamingChat config en ms s)"

definition stopGeneration :: "tick \<Rightarrow> chat \<Rightarrow> chat" where
  "stopGeneration tk s =
     (let stoppedGeneration = requestGeneration s;
          s1 = flushStreamUpdates tk stoppedGeneration s;
          idleGeneration = stoppedGeneration + 1;
          s2 = discardPendingStreamUpdates idleGeneration (s1\<lparr>requestGeneration := idleGeneration\<rparr>);
          s3 = abort_current (s2\<lparr>ctl := cancel_stream True (ctl s2)\<rparr>)
      in onMessageUpdate tk (StopPending idleGeneration) (s3\<lparr>isRequesting := False\<rparr>))"

definition isGenerating :: "chat \<Rightarrow> bool" where
  "isGenerating s \<longleftrightarrow> isStreaming (ctl s) \<or> isRequesting s"

text \<open>Leaving the page: the controller is disposed of first.\<close>

definition unmount :: "chat \<Rightarrow> chat" where
  "unmount s =
     (let s1 = s\<lparr>ctl := cancel_stream False (ctl s)\<rparr>
      in (abort_current (s1\<lparr>requestGeneration := requestGeneration s1 + 1\<rparr>))\<lparr>mounted := False\<rparr>)"

subsection \<open>The conversation\<close>

definition handleSendMessage ::
  "tick \<Rightarrow> PlaygroundConfig \<Rightarrow> ParameterEnabled \<Rightarrow> fresh_ids \<Rightarrow> fresh_ids \<Rightarrow> jsstr \<Rightarrow> chat \<Rightarrow> chat" where
  "handleSendMessage tk config en u a content s =
     (let nextMessages = appendUserMessagePair (clock tk) u a (messages s) content
      in sendChat config en nextMessages (onMessageUpdate tk (ReplaceMessages nextMessages) s))"

definition handleRegenerateMessage ::
  "tick \<Rightarrow> PlaygroundConfig \<Rightarrow> ParameterEnabled \<Rightarrow> fresh_ids \<Rightarrow> jsstr \<Rightarrow> chat \<Rightarrow> chat" where
  "handleRegenerateMessage tk config en a k s =
     (case createRegeneratedMessages (clock tk) a (messages s) k of
        None \<Rightarrow> s
      | Some nextMessages \<Rightarrow> sendChat config en nextMessages (onMessageUpdate tk (ReplaceMessages nextMessages) s))"

definition applyEdit ::
  "tick \<Rightarrow> PlaygroundConfig \<Rightarrow> ParameterEnabled \<Rightarrow> fresh_ids \<Rightarrow> jsstr \<Rightarrow> jsstr \<Rightarrow> bool \<Rightarrow> chat \<Rightarrow> chat" where
  "applyEdit tk config en a editingMessageKey newContent shouldSubmit s =
     (if editingMessageKey = [] then s
      else case applyMessageEdit (clock tk) a (messages s) editingMessageKey newContent shouldSubmit of
        None \<Rightarrow> s
      | Some (ms, shouldSend) \<Rightarrow>
          let s1 = onMessageUpdate tk (ReplaceMessages ms) s in if shouldSend then sendChat config en ms s1 else s1)"

definition handleDeleteMessage :: "tick \<Rightarrow> jsstr \<Rightarrow> chat \<Rightarrow> chat" where
  "handleDeleteMessage tk k s = onMessageUpdate tk (RemoveMessage k) s"

definition clearMessages :: "tick \<Rightarrow> chat \<Rightarrow> chat" where
  "clearMessages tk s = onMessageUpdate tk (ReplaceMessages []) s"

subsection \<open>Events\<close>

datatype chat_event =
    SendMessage PlaygroundConfig ParameterEnabled fresh_ids fresh_ids jsstr
  | Regenerate PlaygroundConfig ParameterEnabled fresh_ids jsstr
  | Edit PlaygroundConfig ParameterEnabled fresh_ids jsstr jsstr bool
  | Delete jsstr
  | Clear
  | Stop
  | Unmount
  | StreamEvent stream_event
  | FlushTimer
  | CompletionResolved "nat \<times> nat" "ChatCompletionChoice list"
  | CompletionRejected "nat \<times> nat" jsval
  | Render

fun chat_enabled :: "chat \<Rightarrow> tick \<times> chat_event \<Rightarrow> bool" where
  "chat_enabled s (tk, StreamEvent e) \<longleftrightarrow> stream_enabled (ctl s) e"
| "chat_enabled s (tk, FlushTimer) \<longleftrightarrow> mounted s \<and> flushTimer s \<noteq> None"
| "chat_enabled s (tk, CompletionResolved w choices) \<longleftrightarrow> w \<in> set (completions s)"
| "chat_enabled s (tk, CompletionRejected w err) \<longleftrightarrow> w \<in> set (completions s)"
| "chat_enabled s (tk, e) \<longleftrightarrow> mounted s"

fun chat_step :: "chat_env \<Rightarrow> chat \<Rightarrow> tick \<times> chat_event \<Rightarrow> chat" where
  "chat_step env s (tk, SendMessage config en u a content) = handleSendMessage tk config en u a content s"
| "chat_step env s (tk, Regenerate config en a k) = handleRegenerateMessage tk config en a k s"
| "chat_step env s (tk, Edit config en a k content submit) = applyEdit tk config en a k content submit s"
| "chat_step env s (tk, Delete k) = handleDeleteMessage tk k s"
| "chat_step env s (tk, Clear) = clearMessages tk s"
| "chat_step env s (tk, Stop) = stopGeneration tk s"
| "chat_step env s (tk, Unmount) = unmount s"
| "chat_step env s (tk, StreamEvent e) =
     (case stream_deliver (parseJson env) (ctl s) e of (c, cbs) \<Rightarrow> foldl (run_callback env tk) (s\<lparr>ctl := c\<rparr>) cbs)"
| "chat_step env s (tk, FlushTimer) =
     (case flushTimer s of Some g \<Rightarrow> flushStreamUpdates tk g s | None \<Rightarrow> s)"
| "chat_step env s (tk, CompletionResolved w choices) = completion_resolved env tk w choices s"
| "chat_step env s (tk, CompletionRejected w err) = completion_rejected env tk w err s"
| "chat_step env s (tk, Render) = render (clock tk) s"

definition chat_init :: "chat \<Rightarrow> bool" where
  "chat_init s \<longleftrightarrow> (\<exists>ms. s = new_chat ms)"

abbreviation chat_reach :: "chat_env \<Rightarrow> chat \<Rightarrow> bool" where
  "chat_reach env \<equiv> reach chat_init chat_enabled (chat_step env)"

abbreviation chat_runs :: "chat_env \<Rightarrow> chat \<Rightarrow> (tick \<times> chat_event) list \<Rightarrow> chat option" where
  "chat_runs env \<equiv> runs chat_enabled (chat_step env)"

section \<open>Library\<close>

subsection \<open>What the operations keep\<close>

lemma onMessageUpdate_keeps [simp]:
  "ctl (onMessageUpdate tk u s) = ctl s" "requestGeneration (onMessageUpdate tk u s) = requestGeneration s"
  "chunkGeneration (onMessageUpdate tk u s) = chunkGeneration s" "flushTimer (onMessageUpdate tk u s) = flushTimer s"
  "chunkContent (onMessageUpdate tk u s) = chunkContent s" "chunkReasoning (onMessageUpdate tk u s) = chunkReasoning s"
  "isRequesting (onMessageUpdate tk u s) = isRequesting s" "completions (onMessageUpdate tk u s) = completions s"
  "mounted (onMessageUpdate tk u s) = mounted s" "messages (onMessageUpdate tk u s) = messages s"
  "toasts (onMessageUpdate tk u s) = toasts s" "abortController (onMessageUpdate tk u s) = abortController s"
  by (simp_all add: onMessageUpdate_def)

lemma flush_keeps [simp]:
  "ctl (flushStreamUpdates tk g s) = ctl s" "requestGeneration (flushStreamUpdates tk g s) = requestGeneration s"
  "chunkGeneration (flushStreamUpdates tk g s) = chunkGeneration s"
  "isRequesting (flushStreamUpdates tk g s) = isRequesting s" "completions (flushStreamUpdates tk g s) = completions s"
  "mounted (flushStreamUpdates tk g s) = mounted s" "messages (flushStreamUpdates tk g s) = messages s"
  "toasts (flushStreamUpdates tk g s) = toasts s"
  "flushTimer (flushStreamUpdates tk g s) = (if g = requestGeneration s then None else flushTimer s)"
  by (simp_all add: flushStreamUpdates_def Let_def)

lemma schedule_keeps [simp]:
  "ctl (scheduleStreamFlush g s) = ctl s" "requestGeneration (scheduleStreamFlush g s) = requestGeneration s"
  "chunkGeneration (scheduleStreamFlush g s) = chunkGeneration s" "isRequesting (scheduleStreamFlush g s) = isRequesting s"
  "completions (scheduleStreamFlush g s) = completions s" "mounted (scheduleStreamFlush g s) = mounted s"
  by (simp_all add: scheduleStreamFlush_def)

lemma run_update_keeps [simp]:
  "ctl (handleStreamUpdate g ty c s) = ctl s" "requestGeneration (handleStreamUpdate g ty c s) = requestGeneration s"
  "chunkGeneration (handleStreamUpdate g ty c s) = chunkGeneration s" "isRequesting (handleStreamUpdate g ty c s) = isRequesting s"
  "completions (handleStreamUpdate g ty c s) = completions s" "mounted (handleStreamUpdate g ty c s) = mounted s"
  by (simp_all add: handleStreamUpdate_def split: StreamChunkType.splits)

lemma abort_keeps [simp]:
  "ctl (abort_current s) = ctl s" "requestGeneration (abort_current s) = requestGeneration s"
  "chunkGeneration (abort_current s) = chunkGeneration s" "flushTimer (abort_current s) = flushTimer s"
  "chunkContent (abort_current s) = chunkContent s" "chunkReasoning (abort_current s) = chunkReasoning s"
  "isRequesting (abort_current s) = isRequesting s" "completions (abort_current s) = completions s"
  "mounted (abort_current s) = mounted s" "messages (abort_current s) = messages s" "queued (abort_current s) = queued s"
  "toasts (abort_current s) = toasts s"
  by (simp_all add: abort_current_def)

lemma discard_keeps [simp]:
  "ctl (discardPendingStreamUpdates g s) = ctl s"
  "requestGeneration (discardPendingStreamUpdates g s) = requestGeneration s"
  "chunkGeneration (discardPendingStreamUpdates g s) = g" "flushTimer (discardPendingStreamUpdates g s) = None"
  "chunkContent (discardPendingStreamUpdates g s) = []" "chunkReasoning (discardPendingStreamUpdates g s) = []"
  "isRequesting (discardPendingStreamUpdates g s) = isRequesting s"
  "completions (discardPendingStreamUpdates g s) = completions s" "mounted (discardPendingStreamUpdates g s) = mounted s"
  "messages (discardPendingStreamUpdates g s) = messages s" "queued (discardPendingStreamUpdates g s) = queued s"
  "toasts (discardPendingStreamUpdates g s) = toasts s"
  by (simp_all add: discardPendingStreamUpdates_def)

subsection \<open>The invariant\<close>

text \<open>
  The part of the state that decides which request is outstanding: the controller, the generation, those
  of the buffer and of the timer, the flag, and the generations of requests without a stream.
\<close>

definition core_ok :: "stream_controller \<Rightarrow> nat \<Rightarrow> nat \<Rightarrow> nat option \<Rightarrow> bool \<Rightarrow> nat list \<Rightarrow> bool \<Rightarrow> bool" where
  "core_ok c rg cg ft req gs mt \<longleftrightarrow>
     stream_ok c \<and> distinct gs \<and> (\<forall>g \<in> set gs. g \<le> rg)
     \<and> (if mt
        then cg = rg \<and> (ft = None \<or> ft = Some rg) \<and> flag_right c
          \<and> (live_client c = None \<or> live_client c = Some rg) \<and> \<not> (live_client c = Some rg \<and> rg \<in> set gs)
          \<and> (req \<longleftrightarrow> live_client c = Some rg \<or> rg \<in> set gs)
        else live_client c = None \<and> rg \<notin> set gs)"

definition gens :: "chat \<Rightarrow> nat list" where
  "gens s = map fst (completions s)"

definition chat_inv :: "chat \<Rightarrow> bool" where
  "chat_inv s \<longleftrightarrow> core_ok (ctl s) (requestGeneration s) (chunkGeneration s) (flushTimer s) (isRequesting s) (gens s) (mounted s)"

lemma gens_eq: "completions t = completions s \<Longrightarrow> gens t = gens s"
  by (simp add: gens_def)

lemma core_timer: "core_ok c rg cg ft req gs mt \<Longrightarrow> ft' = ft \<or> ft' = None \<or> ft' = Some rg \<Longrightarrow> core_ok c rg cg ft' req gs mt"
  by (auto simp: core_ok_def)

lemma core_stream: "core_ok c rg cg ft req gs True \<Longrightarrow> core_ok (stream_send (Suc rg) c) (Suc rg) (Suc rg) None True gs True"
  using stream_send_ok[of c "Suc rg"] by (auto simp: core_ok_def)

lemma core_completion:
  "core_ok c rg cg ft req gs True \<Longrightarrow> core_ok (cancel_stream True c) (Suc rg) (Suc rg) None True (Suc rg # gs) True"
  using cancel_stream_ok[of c True] by (auto simp: core_ok_def)

lemma core_stop: "core_ok c rg cg ft req gs True \<Longrightarrow> core_ok (cancel_stream True c) (Suc rg) (Suc rg) None False gs True"
  using cancel_stream_ok[of c True] by (auto simp: core_ok_def)

lemma core_unmount: "core_ok c rg cg ft req gs mt \<Longrightarrow> core_ok (cancel_stream False c) (Suc rg) cg' ft' req' gs False"
  using cancel_stream_ok[of c False] by (auto simp: core_ok_def split: if_splits)

text \<open>The end of a request: of the current one if that was live or without a stream, else nothing\<close>

lemma core_stream_end:
  "core_ok c rg cg ft req gs True \<Longrightarrow> live_client c = Some rg \<Longrightarrow> stream_ok c' \<Longrightarrow> flag_right c' \<Longrightarrow> live_client c' = None \<Longrightarrow>
     core_ok c' rg cg ft False gs True"
  by (auto simp: core_ok_def)

lemma core_deliver:
  "core_ok c rg cg ft req gs mt \<Longrightarrow> stream_ok c' \<Longrightarrow> flag_right c' \<or> \<not> mt \<Longrightarrow> live_client c' = live_client c \<Longrightarrow>
     core_ok c' rg cg ft req gs mt"
  by (auto simp: core_ok_def split: if_splits)

lemma core_completion_end:
  assumes "core_ok c rg cg ft req gs mt" "g \<in> set gs"
  shows "core_ok c rg cg ft (if g = rg then False else req) (remove1 g gs) mt"
  using assms by (auto simp: core_ok_def split: if_splits)

lemma chat_inv_fields:
  "ctl t = ctl s \<Longrightarrow> completions t = completions s \<Longrightarrow> requestGeneration t = requestGeneration s \<Longrightarrow>
   chunkGeneration t = chunkGeneration s \<Longrightarrow> isRequesting t = isRequesting s \<Longrightarrow> mounted t = mounted s \<Longrightarrow>
   flushTimer t = flushTimer s \<or> flushTimer t = None \<or> flushTimer t = Some (requestGeneration s) \<Longrightarrow>
   chat_inv s \<Longrightarrow> chat_inv t"
  unfolding chat_inv_def using gens_eq[of t s] by (auto intro: core_timer)

lemma chat_inv_new: "chat_init s \<Longrightarrow> chat_inv s"
  by (auto simp: chat_init_def new_chat_def chat_inv_def core_ok_def gens_def)

lemma chat_inv_onMessageUpdate [simp]: "chat_inv (onMessageUpdate tk u s) = chat_inv s"
  by (simp add: chat_inv_def gens_def)

lemma sendChat_inv:
  assumes "chat_inv s" "mounted s"
  shows "chat_inv (sendChat config en ms s)"
  using assms core_stream core_completion
  by (auto simp: chat_inv_def sendChat_def sendStreamingChat_def sendNonStreamingChat_def Let_def gens_def)

lemma stopGeneration_inv: "chat_inv s \<Longrightarrow> mounted s \<Longrightarrow> chat_inv (stopGeneration tk s)"
  using core_stop by (auto simp: chat_inv_def stopGeneration_def Let_def gens_def)

lemma unmount_inv: "chat_inv s \<Longrightarrow> chat_inv (unmount s)"
  using core_unmount by (auto simp: chat_inv_def unmount_def Let_def gens_def)

lemma flush_inv: "chat_inv s \<Longrightarrow> chat_inv (flushStreamUpdates tk g s)"
  by (erule chat_inv_fields[rotated -1]) simp_all

lemma handleStreamUpdate_timer:
  "flushTimer (handleStreamUpdate g ty c s) = flushTimer s \<or> flushTimer (handleStreamUpdate g ty c s) = Some (requestGeneration s)"
  by (auto simp: handleStreamUpdate_def scheduleStreamFlush_def split: StreamChunkType.splits)

lemma handleStreamUpdate_inv: "chat_inv s \<Longrightarrow> chat_inv (handleStreamUpdate g ty c s)"
  by (erule chat_inv_fields[rotated -1]) (use handleStreamUpdate_timer in auto)

lemma render_inv: "chat_inv s \<Longrightarrow> chat_inv (render now s)"
  by (erule chat_inv_fields[rotated -1]) (simp_all add: render_def)

lemma end_fields:
  assumes "g = requestGeneration s" "t = handleStreamComplete tk g s \<or> t = handleStreamError env tk g m code s"
  shows "ctl t = ctl s" "requestGeneration t = requestGeneration s" "completions t = completions s" "mounted t = mounted s"
    "chunkGeneration t = chunkGeneration s" "\<not> isRequesting t" "flushTimer t = None"
  using assms by (auto simp: handleStreamComplete_def handleStreamError_def Let_def)

lemma updates_inv: "chat_inv s \<Longrightarrow> list_all (\<lambda>(k, cb). is_update cb) cbs \<Longrightarrow> chat_inv (foldl (run_callback env tk) s cbs)"
proof (induction cbs arbitrary: s)
  case (Cons l cbs)
  then obtain k ty c where "l = (k, OnUpdate ty c)" by (cases l; cases "snd l") auto
  with Cons handleStreamUpdate_inv show ?case by simp
qed simp

lemma fair_cases:
  assumes "fair_delivery x cbs y"
  obtains (updates) "list_all (\<lambda>(k, cb). is_update cb) cbs" "y = x"
  | (ends) k cb where "x = Some k" "y = None" "cbs = [(k, cb)]" "\<not> is_update cb"
proof -
  have "list_all (\<lambda>(k', cb). k' = k \<and> is_update cb) cbs \<Longrightarrow> list_all (\<lambda>(k, cb). is_update cb) cbs" for k
    by (auto simp: list_all_iff)
  with assms show ?thesis unfolding fair_delivery_def using that by auto
qed

lemma callback_end_inv:
  assumes core: "core_ok c (requestGeneration s) (chunkGeneration s) (flushTimer s) False (gens s) True"
    and s: "ctl s = c" "mounted s" "k = requestGeneration s" "\<not> is_update cb"
  shows "chat_inv (run_callback env tk s (k, cb))"
proof -
  obtain m code where "run_callback env tk s (k, cb) = handleStreamComplete tk k s
      \<or> run_callback env tk s (k, cb) = handleStreamError env tk k m code s"
    using s(4) that by (cases cb) auto
  note f = end_fields[OF s(3) this]
  from f(6) have "isRequesting (run_callback env tk s (k, cb)) = False" by simp
  then show ?thesis
    unfolding chat_inv_def f(1,2,4,5) gens_eq[OF f(3)] s(1) using core_timer[OF core, of None] f(7) s(2) by simp
qed

lemma stream_event_inv:
  assumes "chat_inv s" "stream_enabled (ctl s) e"
  shows "chat_inv (chat_step env s (tk, StreamEvent e))"
proof -
  obtain c cbs where d: "stream_deliver (parseJson env) (ctl s) e = (c, cbs)" by (cases "stream_deliver (parseJson env) (ctl s) e")
  have core: "core_ok (ctl s) (requestGeneration s) (chunkGeneration s) (flushTimer s) (isRequesting s) (gens s) (mounted s)"
    using assms(1) by (simp add: chat_inv_def)
  then have ok: "stream_ok (ctl s)" by (simp add: core_ok_def)
  note f = stream_deliver_fair[OF ok assms(2) d]
  have flag: "flag_right c \<or> \<not> mounted s"
    using flag_right_deliver[of "ctl s" "parseJson env" e] d core by (auto simp: core_ok_def)
  from f have "fair_delivery (live_client (ctl s)) cbs (live_client c)" by blast
  then show ?thesis
  proof (cases rule: fair_cases)
    case updates
    have "chat_inv (s\<lparr>ctl := c\<rparr>)"
      using core_deliver[OF core _ flag updates(2)] f by (simp add: chat_inv_def gens_def)
    from updates_inv[OF this updates(1)] d show ?thesis by simp
  next
    case (ends k cb)
    then have k: "k = requestGeneration s" "mounted s" using core by (auto simp: core_ok_def split: if_splits)
    have "core_ok c (requestGeneration s) (chunkGeneration s) (flushTimer s) False (gens s) True"
      using core_stream_end[of "ctl s" "requestGeneration s"] core k ends f flag by simp
    then have "chat_inv (run_callback env tk (s\<lparr>ctl := c\<rparr>) (k, cb))"
      using callback_end_inv[of c "s\<lparr>ctl := c\<rparr>" k cb] k ends(4) by (simp add: gens_def)
    with d ends(3) show ?thesis by simp
  qed
qed

lemma map_fst_remove1:
  "distinct (map fst ws) \<Longrightarrow> w \<in> set ws \<Longrightarrow> map fst (remove1 w ws) = remove1 (fst w) (map fst ws)"
proof (induction ws)
  case (Cons x ws)
  then show ?case by (cases "x = w") (auto simp: rev_image_eqI)
qed simp

text \<open>How a request without a stream may change the rest before its \<open>finally\<close> block\<close>

definition settles :: "nat \<Rightarrow> chat \<Rightarrow> chat \<Rightarrow> bool" where
  "settles g u t \<longleftrightarrow> requestGeneration t = requestGeneration u \<and> ctl t = ctl u \<and> completions t = completions u
     \<and> mounted t = mounted u \<and> chunkGeneration t = chunkGeneration u
     \<and> (flushTimer t = flushTimer u \<or> flushTimer t = None) \<and> (isRequesting t = isRequesting u \<or> g = requestGeneration u)"

lemma completion_inv:
  assumes "chat_inv s" "w \<in> set (completions s)" "settles (fst w) (s\<lparr>completions := remove1 w (completions s)\<rparr>) t"
  shows "chat_inv (completion_finally (fst w) t)"
proof -
  let ?t = "completion_finally (fst w) t"
  have "distinct (map fst (completions s))" using assms(1) by (simp add: chat_inv_def core_ok_def gens_def)
  then have g: "gens ?t = remove1 (fst w) (gens s)"
    using map_fst_remove1 assms(2,3) by (simp add: gens_def completion_finally_def settles_def)
  have f: "isRequesting ?t = (if fst w = requestGeneration s then False else isRequesting s)"
    "ctl ?t = ctl s" "requestGeneration ?t = requestGeneration s" "mounted ?t = mounted s" "chunkGeneration ?t = chunkGeneration s"
    "flushTimer ?t = flushTimer s \<or> flushTimer ?t = None"
    using assms(3) by (auto simp: settles_def completion_finally_def)
  have "fst w \<in> set (gens s)" using assms(2) by (simp add: gens_def)
  note core_completion_end[OF assms(1)[unfolded chat_inv_def] this]
  then show ?thesis unfolding chat_inv_def g f(1-5) by (rule core_timer) (use f(6) in blast)
qed

lemma settles_refl [simp]: "settles g u u" "settles g u (onMessageUpdate tk up u)"
  by (simp_all add: settles_def)

lemma settles_error [simp]: "g = requestGeneration u \<Longrightarrow> settles g u (handleStreamError env tk g m code u)"
  using end_fields[of g u "handleStreamError env tk g m code u" tk env m code] by (simp add: settles_def)

lemma completion_resolved_inv:
  "chat_inv s \<Longrightarrow> w \<in> set (completions s) \<Longrightarrow> chat_inv (completion_resolved env tk w choices s)"
  unfolding completion_resolved_def Let_def by (rule completion_inv) auto

lemma completion_rejected_inv:
  "chat_inv s \<Longrightarrow> w \<in> set (completions s) \<Longrightarrow> chat_inv (completion_rejected env tk w err s)"
  unfolding completion_rejected_def Let_def by (rule completion_inv) auto

lemma chat_step_inv:
  assumes "chat_inv s" "chat_enabled s e"
  shows "chat_inv (chat_step env s e)"
proof -
  obtain tk ev where e: "e = (tk, ev)" by (cases e)
  show ?thesis
  proof (cases ev)
    case (SendMessage config en u a content)
    with assms e show ?thesis by (simp add: handleSendMessage_def Let_def sendChat_inv)
  next
    case (Regenerate config en a k)
    with assms e show ?thesis by (simp add: handleRegenerateMessage_def sendChat_inv split: option.splits)
  next
    case (Edit config en a k content submit)
    with assms e show ?thesis by (simp add: applyEdit_def Let_def sendChat_inv split: option.splits)
  next
    case (StreamEvent se)
    with assms e stream_event_inv show ?thesis by simp
  qed (use assms e stopGeneration_inv unmount_inv flush_inv render_inv completion_resolved_inv completion_rejected_inv in
      \<open>auto simp: handleDeleteMessage_def clearMessages_def split: option.splits\<close>)
qed

interpretation cm: event_machine chat_init chat_enabled "chat_step env" chat_inv
  for env
  by unfold_locales (use chat_inv_new chat_step_inv in blast)+

subsection \<open>After stopping\<close>

fun is_background :: "chat_event \<Rightarrow> bool" where
  "is_background (StreamEvent e) \<longleftrightarrow> True"
| "is_background FlushTimer \<longleftrightarrow> True"
| "is_background (CompletionResolved w choices) \<longleftrightarrow> True"
| "is_background (CompletionRejected w err) \<longleftrightarrow> True"
| "is_background Render \<longleftrightarrow> True"
| "is_background _ \<longleftrightarrow> False"

text \<open>No request of the current generation is outstanding and nothing is buffered.\<close>

definition quiet :: "chat \<Rightarrow> bool" where
  "quiet s \<longleftrightarrow> chat_inv s \<and> mounted s \<and> \<not> isRequesting s \<and> flushTimer s = None"

lemma quiet_idle:
  assumes "quiet s"
  shows "live_client (ctl s) = None" "requestGeneration s \<notin> set (gens s)" "\<not> isStreaming (ctl s)" "stream_ok (ctl s)"
proof -
  show l: "live_client (ctl s) = None" and "requestGeneration s \<notin> set (gens s)" and ok: "stream_ok (ctl s)"
    using assms by (auto simp: quiet_def chat_inv_def core_ok_def)
  have "active_source (ctl s) = None" using l by (auto simp: live_client_def split: option.splits)
  moreover have "flag_right (ctl s)" using assms by (simp add: quiet_def chat_inv_def core_ok_def)
  ultimately show "\<not> isStreaming (ctl s)" by (simp add: flag_right_def)
qed

text \<open>What the page shows now and will show at the next rendering\<close>

definition view :: "chat \<Rightarrow> nat \<times> Message list \<times> queued_update list \<times> jsstr list" where
  "view s = (requestGeneration s, messages s, queued s, toasts s)"

lemma completion_stale:
  assumes "requestGeneration s \<noteq> fst w"
  shows "view (completion_resolved env tk w choices s) = view s" "view (completion_rejected env tk w err s) = view s"
    "flushTimer (completion_resolved env tk w choices s) = flushTimer s" "flushTimer (completion_rejected env tk w err s) = flushTimer s"
    "isRequesting (completion_resolved env tk w choices s) = isRequesting s"
    "isRequesting (completion_rejected env tk w err s) = isRequesting s"
    "mounted (completion_resolved env tk w choices s) = mounted s" "mounted (completion_rejected env tk w err s) = mounted s"
  using assms by (simp_all add: completion_resolved_def completion_rejected_def completion_finally_def view_def Let_def)

lemma quiet_step:
  assumes "quiet s" "chat_enabled s (tk, ev)" "is_background ev"
  shows "quiet (chat_step env s (tk, ev)) \<and> (if ev = Render then True else view (chat_step env s (tk, ev)) = view s)"
proof -
  have inv: "chat_inv (chat_step env s (tk, ev))" using assms chat_step_inv by (auto simp: quiet_def)
  note i = quiet_idle[OF assms(1)]
  have stale: "requestGeneration s \<noteq> fst w" if "w \<in> set (completions s)" for w
    using that i(2) by (auto simp: gens_def)
  show ?thesis
  proof (cases ev)
    case (StreamEvent e)
    obtain c cbs where d: "stream_deliver (parseJson env) (ctl s) e = (c, cbs)"
      by (cases "stream_deliver (parseJson env) (ctl s) e")
    have "fair_delivery None cbs (live_client c)"
      using stream_deliver_fair[OF i(4) _ d] assms(2) StreamEvent i(1) by simp
    then have "cbs = []" by (simp add: fair_delivery_def)
    with d StreamEvent inv assms(1) show ?thesis by (simp add: quiet_def view_def)
  next
    case (CompletionResolved w choices)
    with assms stale[of w] inv completion_stale[of s w] show ?thesis by (simp add: quiet_def)
  next
    case (CompletionRejected w err)
    with assms stale[of w] inv completion_stale[of s w] show ?thesis by (simp add: quiet_def)
  next
    case Render
    with assms inv show ?thesis by (simp add: quiet_def render_def)
  qed (use assms in \<open>simp_all add: quiet_def\<close>)
qed

text \<open>The messages as they are, or as a rendering leaves them\<close>

definition settled_as :: "chat \<Rightarrow> chat \<Rightarrow> bool" where
  "settled_as s t \<longleftrightarrow> view t = view s \<or> (\<exists>now. view t = view (render now s))"

lemma settled_render:
  assumes "settled_as s t"
  shows "settled_as s (render now t)"
proof -
  have v: "view t = view u \<Longrightarrow> view (render now t) = view (render now u)" for u
    by (simp add: view_def render_def)
  have "view (render now (render now' s)) = view (render now' s)" for now'
    by (simp add: view_def render_def)
  with assms v show ?thesis unfolding settled_as_def by metis
qed

lemma quiet_runs:
  assumes "quiet s" "chat_runs env s es = Some t" "list_all (\<lambda>(tk, ev). is_background ev) es"
  shows "quiet t \<and> settled_as s t"
proof -
  have "chat_runs env u es = Some t \<Longrightarrow> quiet u \<Longrightarrow> settled_as s u \<Longrightarrow> list_all (\<lambda>(tk, ev). is_background ev) es \<Longrightarrow>
      quiet t \<and> settled_as s t" for u
  proof (induction es arbitrary: u)
    case (Cons e es)
    obtain tk ev where e: "e = (tk, ev)" by (cases e)
    with Cons.prems have en: "chat_enabled u (tk, ev)" "is_background ev" "chat_runs env (chat_step env u (tk, ev)) es = Some t"
      by (auto split: if_splits)
    from quiet_step[OF Cons.prems(2) en(1,2), of env] have q: "quiet (chat_step env u (tk, ev))"
      "ev \<noteq> Render \<Longrightarrow> view (chat_step env u (tk, ev)) = view u" by (auto split: if_splits)
    have "settled_as s (chat_step env u (tk, ev))"
    proof (cases "ev = Render")
      case True
      then show ?thesis using settled_render Cons.prems(3) by simp
    next
      case False
      then show ?thesis using q(2) Cons.prems(3) unfolding settled_as_def by metis
    qed
    with Cons.IH[OF en(3) q(1)] Cons.prems(4) show ?case by simp
  qed simp
  from this[OF assms(2,1) _ assms(3)] show ?thesis by (simp add: settled_as_def)
qed

lemma stop_quiet: "chat_inv s \<Longrightarrow> mounted s \<Longrightarrow> quiet (stopGeneration tk s)"
  using stopGeneration_inv by (auto simp: quiet_def) (simp_all add: stopGeneration_def Let_def)

lemma updateLast_last:
  "ms \<noteq> [] \<Longrightarrow> updateLastAssistantMessage ms f \<noteq> [] \<and>
     last (updateLastAssistantMessage ms f) = (if msg_from (last ms) = AssistantRole then f (last ms) else last ms)"
  by (simp add: updateLastAssistantMessage_def)

lemma stop_update_settles:
  assumes "ms' = run_update now g (StopPending g) ms" "ms' \<noteq> []"
  shows "\<not> isPendingAssistantMessage (last ms')"
proof -
  have "ms \<noteq> []" using assms by (auto simp: updateLastAssistantMessage_def split: if_splits)
  from updateLast_last[OF this] assms(1) show ?thesis
    by (auto simp: isPendingAssistantMessage_def isAssistantMessagePending_def)
qed

lemma queued_onMessageUpdate:
  obtains "queued (onMessageUpdate tk u s) = queued s @ [Waiting u]"
  | "queued (onMessageUpdate tk u s) = [Evaluated (run_update (clock tk) (requestGeneration s) u (messages s))]"
  by (cases "eager tk \<and> queued s = []") (auto simp: onMessageUpdate_def simp del: run_update.simps)

lemma stop_render:
  assumes "messages (render now (stopGeneration tk s)) \<noteq> []"
  shows "\<not> isPendingAssistantMessage (last (messages (render now (stopGeneration tk s))))"
proof -
  let ?t = "stopGeneration tk s" and ?g = "requestGeneration s + 1"
  obtain u where u: "?t = onMessageUpdate tk (StopPending ?g) u" "requestGeneration u = ?g"
    by (simp add: stopGeneration_def Let_def)
  then have g: "requestGeneration ?t = ?g" by simp
  obtain q where "queued ?t = q @ [Waiting (StopPending ?g)]
      \<or> queued ?t = [Evaluated (run_update (clock tk) ?g (StopPending ?g) (messages u))]"
    using queued_onMessageUpdate[of tk "StopPending ?g" u] u by metis
  then show ?thesis using assms stop_update_settles g by (auto simp: render_def simp del: run_update.simps)
qed

subsection \<open>An answer that streams in\<close>

text \<open>The messages the next rendering will show\<close>

definition pending_view :: "rat \<Rightarrow> chat \<Rightarrow> Message list" where
  "pending_view now s = foldl (run_queued now (requestGeneration s)) (messages s) (queued s)"

definition last_is :: "Message list \<Rightarrow> (Message \<Rightarrow> bool) \<Rightarrow> chat \<Rightarrow> bool" where
  "last_is base P s \<longleftrightarrow> (\<forall>now. \<exists>m. pending_view now s = base @ [m] \<and> P m)"

lemma last_is_update:
  assumes "last_is base P s" "\<And>now m. P m \<Longrightarrow> \<exists>m'. run_update now (requestGeneration s) u (base @ [m]) = base @ [m'] \<and> Q m'"
  shows "last_is base Q (onMessageUpdate tk u s)"
proof (cases "eager tk \<and> queued s = []")
  case True
  then have "messages s = pending_view now s" for now by (simp add: pending_view_def)
  with assms True show ?thesis
    unfolding last_is_def by (simp add: onMessageUpdate_def pending_view_def del: run_update.simps) metis
next
  case False
  with assms show ?thesis
    unfolding last_is_def by (simp add: onMessageUpdate_def pending_view_def del: run_update.simps) metis
qed

lemma last_is_replace: "last_is base P (onMessageUpdate tk (ReplaceMessages (base @ [m])) s) \<longleftrightarrow> P m"
  by (auto simp: last_is_def onMessageUpdate_def pending_view_def)

lemma last_is_render: "last_is base P s \<Longrightarrow> last_is base P (render now s)"
  unfolding last_is_def by (simp add: render_def pending_view_def)

lemma last_is_fields:
  "messages t = messages s \<Longrightarrow> queued t = queued s \<Longrightarrow> requestGeneration t = requestGeneration s \<Longrightarrow>
     last_is base P t = last_is base P s"
  by (simp add: last_is_def pending_view_def)

lemma updateLast_snoc: "msg_from m = AssistantRole \<Longrightarrow> updateLastAssistantMessage (base @ [m]) f = base @ [f m]"
  by (simp add: updateLastAssistantMessage_def)

definition answering :: "jsstr \<Rightarrow> Message \<Rightarrow> bool" where
  "answering content m \<longleftrightarrow> msg_from m = AssistantRole \<and> isAssistantMessagePending m \<and> getMessageContent m = content
     \<and> (think_reasoning (parseThinkTags content) \<noteq> [] \<longrightarrow> reasoningText m = think_reasoning (parseThinkTags content))"

definition answered :: "jsstr \<Rightarrow> Message \<Rightarrow> bool" where
  "answered content m \<longleftrightarrow> msg_status m = Some Complete \<and> getMessageContent m = visibleContent (parseThinkTags content)
     \<and> (think_reasoning (parseThinkTags content) \<noteq> [] \<longrightarrow> reasoningText m = think_reasoning (parseThinkTags content))"

lemma answering_flush:
  assumes "answering content m" "delta content c" "c \<noteq> []"
  shows "answering (content @ c) (flush_message now [] c m)"
proof -
  have "msg_status m \<noteq> Some Error" "delta (getMessageContent m) c" using assms by (auto simp: answering_def isAssistantMessagePending_def)
  note k = content_chunk[OF this, of now]
  show ?thesis using assms k by (auto simp: answering_def flush_message_def isAssistantMessagePending_def Let_def)
qed

lemma answering_complete:
  assumes "answering content m"
  shows "answered content (completeAssistantMessage now m)"
  using assms by (auto simp: answering_def answered_def)

text \<open>The request of the current generation streams from source \<open>i\<close>; \<open>content\<close> is flushed, the rest buffered.\<close>

definition streaming_from :: "nat \<Rightarrow> Message list \<Rightarrow> jsstr \<Rightarrow> chat \<Rightarrow> bool" where
  "streaming_from i base content s \<longleftrightarrow>
     isCurrent i (ctl s) \<and> \<not> src_completed (opened (ctl s) ! i) \<and> src_client (opened (ctl s) ! i) = requestGeneration s
     \<and> chunkGeneration s = requestGeneration s \<and> chunkReasoning s = [] \<and> (flushTimer s = None \<or> flushTimer s = Some (requestGeneration s))
     \<and> last_is base (answering content) s"

lemma streaming_flush:
  assumes "streaming_from i base content s" "delta content (chunkContent s)"
  shows "streaming_from i base (content @ chunkContent s) (flushStreamUpdates tk (requestGeneration s) s)"
    "chunkContent (flushStreamUpdates tk (requestGeneration s) s) = []"
    "chunkReasoning (flushStreamUpdates tk (requestGeneration s) s) = []"
proof -
  let ?g = "requestGeneration s"
  let ?u = "s\<lparr>flushTimer := None, chunkGeneration := ?g, chunkContent := [], chunkReasoning := []\<rparr>"
  have c: "chunkGeneration s = ?g" "chunkReasoning s = []" using assms(1) by (simp_all add: streaming_from_def)
  then show "chunkContent (flushStreamUpdates tk ?g s) = []" "chunkReasoning (flushStreamUpdates tk ?g s) = []"
    by (simp_all add: flushStreamUpdates_def Let_def)
  have l: "last_is base (answering content) (s\<lparr>flushTimer := None\<rparr>)" "last_is base (answering content) ?u"
    using assms(1) by (simp_all add: streaming_from_def last_is_def pending_view_def)
  show "streaming_from i base (content @ chunkContent s) (flushStreamUpdates tk ?g s)"
  proof (cases "chunkContent s = []")
    case True
    with assms(1) c l(1) show ?thesis by (simp add: flushStreamUpdates_def Let_def streaming_from_def)
  next
    case False
    let ?up = "FlushChunks ?g [] (chunkContent s)"
    have "\<exists>m'. run_update now (requestGeneration ?u) ?up (base @ [m]) = base @ [m'] \<and> answering (content @ chunkContent s) m'"
      if "answering content m" for now m
      using answering_flush[OF that assms(2) False, of now] that
      by (intro exI[of _ "flush_message now [] (chunkContent s) m"]) (simp add: updateLast_snoc answering_def[of content])
    from last_is_update[OF l(2) this]
    have "last_is base (answering (content @ chunkContent s)) (onMessageUpdate tk ?up ?u)" .
    moreover have "flushStreamUpdates tk ?g s = onMessageUpdate tk ?up ?u"
      using False c by (simp add: flushStreamUpdates_def)
    ultimately show ?thesis using assms(1) by (simp add: streaming_from_def)
  qed
qed

text \<open>
  The pieces of an answer: no run of pieces is at once followed by the same text again, so that none is
  taken for a snapshot, whatever the timer makes of the runs.
\<close>

definition text_slice :: "nat \<Rightarrow> nat \<Rightarrow> 'a list \<Rightarrow> 'a list" where
  "text_slice i j xs = drop i (take j xs)"

definition fresh_text :: "jsstr list \<Rightarrow> bool" where
  "fresh_text ds \<longleftrightarrow> list_all (\<lambda>j. list_all (\<lambda>i. concat (text_slice i j ds) \<noteq> [] \<longrightarrow>
     \<not> prefix (concat (text_slice i j ds)) (concat (drop j ds))) [0..<j]) [0..<Suc (length ds)]"

lemma fresh_textD:
  assumes "fresh_text ds" "j \<le> length ds" "i < j" "concat (text_slice i j ds) \<noteq> []"
  shows "\<not> prefix (concat (text_slice i j ds)) (concat (drop j ds))"
proof -
  have "j \<in> set [0..<Suc (length ds)]" "i \<in> set [0..<j]" using assms(2,3) by auto
  with assms(1,4) show ?thesis unfolding fresh_text_def list_all_iff by blast
qed

lemma fresh_delta:
  assumes "fresh_text (pre @ rest)" "k \<le> length pre"
  shows "delta (concat (take k pre)) (concat (drop k pre))"
proof (cases "k = 0")
  case False
  have "concat (drop k (pre @ rest)) = concat (drop k pre) @ concat rest" "text_slice 0 k (pre @ rest) = take k pre"
    using assms(2) by (simp_all add: text_slice_def)
  with assms False have "concat (take k pre) \<noteq> [] \<longrightarrow> \<not> prefix (concat (take k pre)) (concat (drop k pre) @ concat rest)"
    using fresh_textD[of "pre @ rest" k 0] by (simp del: concat_eq_Nil_conv)
  then show ?thesis by (auto simp: delta_def starts_with_def)
qed (simp add: delta_def)

lemma fresh_merge:
  assumes "fresh_text (pre @ c # rest)" "k \<le> length pre"
  shows "mergePendingStreamChunk (concat (drop k pre)) c = concat (drop k pre) @ c"
proof (cases "k < length pre")
  case True
  have "concat (drop (length pre) (pre @ c # rest)) = c @ concat rest" "text_slice k (length pre) (pre @ c # rest) = drop k pre"
    by (simp_all add: text_slice_def)
  with assms True have "concat (drop k pre) \<noteq> [] \<longrightarrow> \<not> prefix (concat (drop k pre)) (c @ concat rest)"
    using fresh_textD[of "pre @ c # rest" "length pre" k] by (simp del: concat_eq_Nil_conv)
  then show ?thesis by (auto simp: mergePendingStreamChunk_def starts_with_def)
qed (simp add: mergePendingStreamChunk_def)

definition piece_of :: "chat_env \<Rightarrow> nat \<Rightarrow> chat_event \<Rightarrow> jsstr option" where
  "piece_of env i ev =
     (case ev of
        StreamEvent (SourceMessage j d) \<Rightarrow>
          if j = i \<and> \<not> isStreamDoneMessage d
          then (case parseStreamMessageUpdates (parseJson env) d of Some [(ContentChunk, c)] \<Rightarrow> Some c | _ \<Rightarrow> None)
          else None
      | _ \<Rightarrow> None)"

definition answer_event :: "chat_env \<Rightarrow> nat \<Rightarrow> chat_event \<Rightarrow> bool" where
  "answer_event env i ev \<longleftrightarrow> ev = Render \<or> ev = FlushTimer \<or> piece_of env i ev \<noteq> None"

definition pieces :: "chat_env \<Rightarrow> nat \<Rightarrow> (tick \<times> chat_event) list \<Rightarrow> jsstr list" where
  "pieces env i es = List.map_filter (\<lambda>(tk, ev). piece_of env i ev) es"

lemma piece_ofD:
  assumes "piece_of env i ev = Some c"
  obtains d where "ev = StreamEvent (SourceMessage i d)" "\<not> isStreamDoneMessage d"
    "parseStreamMessageUpdates (parseJson env) d = Some [(ContentChunk, c)]"
  using assms by (auto simp: piece_of_def split: chat_event.splits stream_event.splits if_splits option.splits list.splits
      StreamChunkType.splits)

text \<open>All pieces received are in the message, in a waiting update or in the buffer.\<close>

definition received :: "nat \<Rightarrow> Message list \<Rightarrow> jsstr list \<Rightarrow> chat \<Rightarrow> bool" where
  "received i base pre s \<longleftrightarrow>
     (\<exists>k \<le> length pre. streaming_from i base (concat (take k pre)) s \<and> chunkContent s = concat (drop k pre))"

lemma received_flush:
  assumes "received i base pre s" "fresh_text (pre @ rest)"
  shows "received i base pre (flushStreamUpdates tk (requestGeneration s) s)"
    "streaming_from i base (concat pre) (flushStreamUpdates tk (requestGeneration s) s)"
proof -
  from assms(1) obtain k where k: "k \<le> length pre" "streaming_from i base (concat (take k pre)) s" "chunkContent s = concat (drop k pre)"
    by (auto simp: received_def)
  have j: "concat (take k pre) @ chunkContent s = concat pre" unfolding k(3) by (metis append_take_drop_id concat_append)
  note f = streaming_flush[OF k(2) fresh_delta[OF assms(2) k(1), folded k(3)], of tk, unfolded j]
  from f(1) show "streaming_from i base (concat pre) (flushStreamUpdates tk (requestGeneration s) s)" .
  with f(2) show "received i base pre (flushStreamUpdates tk (requestGeneration s) s)"
    unfolding received_def by (intro exI[of _ "length pre"]) simp
qed

lemma received_piece:
  assumes "received i base pre s" "fresh_text (pre @ c # rest)"
  shows "received i base (pre @ [c]) (handleStreamUpdate (requestGeneration s) ContentChunk c s)"
proof -
  from assms(1) obtain k where k: "k \<le> length pre" "streaming_from i base (concat (take k pre)) s" "chunkContent s = concat (drop k pre)"
    by (auto simp: received_def)
  let ?t = "handleStreamUpdate (requestGeneration s) ContentChunk c s"
  have g: "chunkGeneration s = requestGeneration s" using k(2) by (simp add: streaming_from_def)
  then have t: "chunkContent ?t = mergePendingStreamChunk (chunkContent s) c" "chunkReasoning ?t = chunkReasoning s"
    "messages ?t = messages s" "queued ?t = queued s"
    by (simp_all add: handleStreamUpdate_def scheduleStreamFlush_def)
  have "streaming_from i base (concat (take k pre)) ?t"
    using k(2) t handleStreamUpdate_timer[of "requestGeneration s" ContentChunk c s]
    by (auto simp: streaming_from_def last_is_def pending_view_def)
  with k(1) t(1) fresh_merge[OF assms(2) k(1)] show ?thesis
    unfolding received_def k(3) by (intro exI[of _ k]) simp
qed

lemma received_render: "received i base pre s \<Longrightarrow> received i base pre (render now s)"
  unfolding received_def streaming_from_def by (auto simp: render_def dest: last_is_render[of _ _ _ now, unfolded render_def])

lemma received_step:
  assumes "received i base pre s" "chat_enabled s (tk, ev)" "answer_event env i ev"
    and "fresh_text (pre @ pieces env i ((tk, ev) # es))"
  shows "received i base (pre @ (case piece_of env i ev of Some c \<Rightarrow> [c] | None \<Rightarrow> [])) (chat_step env s (tk, ev))"
proof (cases "piece_of env i ev")
  case None
  then have "ev = Render \<or> ev = FlushTimer" using assms(3) by (auto simp: answer_event_def)
  moreover have "flushTimer s = None \<or> flushTimer s = Some (requestGeneration s)"
    using assms(1) by (auto simp: received_def streaming_from_def)
  ultimately show ?thesis using None assms(1,2,4) received_render received_flush(1)[OF assms(1), of "pieces env i es"]
    by (auto simp: pieces_def List.map_filter_def)
next
  case (Some c)
  then obtain d where d: "ev = StreamEvent (SourceMessage i d)" "\<not> isStreamDoneMessage d"
    "parseStreamMessageUpdates (parseJson env) d = Some [(ContentChunk, c)]" by (rule piece_ofD)
  have "isCurrent i (ctl s)" "\<not> src_completed (opened (ctl s) ! i)" "src_client (opened (ctl s) ! i) = requestGeneration s"
    using assms(1) by (auto simp: received_def streaming_from_def)
  then have "chat_step env s (tk, ev) = handleStreamUpdate (requestGeneration s) ContentChunk c s"
    using d by (simp add: source_message_def)
  moreover have "pieces env i ((tk, ev) # es) = c # pieces env i es" using Some by (simp add: pieces_def List.map_filter_def)
  ultimately show ?thesis using received_piece[OF assms(1)] assms(4) Some by simp
qed

lemma received_runs:
  "received i base pre s \<Longrightarrow> chat_runs env s es = Some t \<Longrightarrow> list_all (\<lambda>(tk, ev). answer_event env i ev) es \<Longrightarrow>
   fresh_text (pre @ pieces env i es) \<Longrightarrow> received i base (pre @ pieces env i es) t"
proof (induction es arbitrary: pre s)
  case (Cons e es)
  obtain tk ev where e: "e = (tk, ev)" by (cases e)
  with Cons.prems have en: "chat_enabled s (tk, ev)" "chat_runs env (chat_step env s (tk, ev)) es = Some t" "answer_event env i ev"
    by (auto split: if_splits)
  let ?p = "case piece_of env i ev of Some c \<Rightarrow> [c] | None \<Rightarrow> []"
  have p: "pieces env i (e # es) = ?p @ pieces env i es"
    by (simp add: e pieces_def List.map_filter_def split: option.splits)
  from received_step[OF Cons.prems(1) en(1,3)] Cons.prems(4) e have "received i base (pre @ ?p) (chat_step env s (tk, ev))" by simp
  from Cons.IH[OF this en(2)] Cons.prems(3,4) p show ?case by simp
qed (simp add: pieces_def List.map_filter_def)

lemma send_starts:
  fixes s0 config en u a content env tk0 tk1
  defines "s1 \<equiv> chat_step env s0 (tk0, SendMessage config en u a content)"
  defines "s2 \<equiv> chat_step env s1 (tk1, StreamEvent (HeadersResolved (stream_generation (ctl s1), requestGeneration s1) False))"
  assumes "cfg_stream config"
  shows "received (length (opened (ctl s1))) (messages s0 @ [createUserMessage (fst u) (snd u) content (clock tk0)]) [] s2"
    "mounted s2 = mounted s0"
    "hd (sentPayloads s1) = buildChatCompletionPayload (appendUserMessagePair (clock tk0) u a (messages s0) content) config en"
proof -
  let ?m = "createLoadingAssistantMessage (fst a) (snd a) (clock tk0)"
  let ?base = "messages s0 @ [createUserMessage (fst u) (snd u) content (clock tk0)]"
  let ?next = "appendUserMessagePair (clock tk0) u a (messages s0) content"
  let ?q = "onMessageUpdate tk0 (ReplaceMessages ?next) s0"
  have s1: "s1 = sendStreamingChat config en ?next ?q"
    using assms(3) by (simp add: s1_def handleSendMessage_def sendChat_def Let_def)
  have f1: "queued s1 = queued ?q" "messages s1 = messages s0" "requestGeneration s1 = Suc (requestGeneration s0)"
    "chunkGeneration s1 = Suc (requestGeneration s0)" "chunkContent s1 = []" "chunkReasoning s1 = []" "flushTimer s1 = None"
    "mounted s1 = mounted s0" "ctl s1 = stream_send (Suc (requestGeneration s0)) (ctl s0)"
    by (simp_all add: s1 sendStreamingChat_def Let_def)
  show "hd (sentPayloads s1) = buildChatCompletionPayload ?next config en" by (simp add: s1 sendStreamingChat_def Let_def)
  have v: "foldl (run_queued now g) (messages s0) (queued ?q) = ?base @ [?m]" for now g
    by (rule queued_onMessageUpdate[of tk0 "ReplaceMessages ?next" s0]) (simp_all add: appendUserMessagePair_def)
  have s2: "s2 = s1\<lparr>ctl := fst (headers_resolved (stream_generation (ctl s1), requestGeneration s1) False (ctl s1))\<rparr>"
    by (simp add: s2_def headers_resolved_def Let_def)
  then show "mounted s2 = mounted s0" using f1 by simp
  have "isCurrent (length (opened (ctl s1))) (ctl s2)" "\<not> src_completed (opened (ctl s2) ! length (opened (ctl s1)))"
    "src_client (opened (ctl s2) ! length (opened (ctl s1))) = requestGeneration s1"
    by (simp_all add: s2 headers_resolved_def Let_def isCurrent_def)
  moreover have "answering [] ?m"
    by (simp add: answering_def isAssistantMessagePending_def parse_plain js_includes_def open_tag_def js_def parseThinkTags_def)
  ultimately show "received (length (opened (ctl s1))) ?base [] s2"
    using f1 v by (simp add: received_def streaming_from_def last_is_def pending_view_def s2)
qed

lemma done_completes:
  fixes s env tk now i
  defines "t \<equiv> render now (chat_step env s (tk, StreamEvent (SourceMessage i (js ''[DONE]''))))"
  assumes "received i base pre s" "fresh_text pre"
  shows "\<exists>m. messages t = base @ [m] \<and> answered (concat pre) m" "\<not> isGenerating t"
proof -
  let ?g = "requestGeneration s" and ?c = "closeActiveSource i (complete_source i (ctl s))"
  have c: "isCurrent i (ctl s)" "\<not> src_completed (opened (ctl s) ! i)" "src_client (opened (ctl s) ! i) = ?g"
    using assms(2) by (auto simp: received_def streaming_from_def)
  let ?f = "(flushStreamUpdates tk ?g (s\<lparr>ctl := ?c\<rparr>))\<lparr>isRequesting := False\<rparr>"
  have t: "t = render now (onMessageUpdate tk (CompleteStream ?g) ?f)"
    using c by (simp add: t_def source_message_def isStreamDoneMessage_def handleStreamComplete_def)
  have "flushStreamUpdates tk ?g (s\<lparr>ctl := ?c\<rparr>) = (flushStreamUpdates tk ?g s)\<lparr>ctl := ?c\<rparr>"
    by (simp add: flushStreamUpdates_def Let_def onMessageUpdate_def)
  then have "last_is base (answering (concat pre)) ?f"
    using received_flush(2)[OF assms(2), of "[]" tk] assms(3)
    by (simp add: streaming_from_def last_is_def pending_view_def)
  then have "last_is base (answered (concat pre)) (onMessageUpdate tk (CompleteStream ?g) ?f)"
  proof (rule last_is_update)
    fix nw m
    assume m: "answering (concat pre) m"
    then have "msg_from m = AssistantRole" "\<not> isAssistantMessageFinal m"
      by (auto simp: answering_def isAssistantMessagePending_def isAssistantMessageFinal_def)
    then show "\<exists>m'. run_update nw (requestGeneration ?f) (CompleteStream ?g) (base @ [m]) = base @ [m'] \<and> answered (concat pre) m'"
      using answering_complete[OF m, of nw] by (simp add: updateLast_snoc)
  qed
  then show "\<exists>m. messages t = base @ [m] \<and> answered (concat pre) m"
    by (simp add: t render_def last_is_def pending_view_def)
  show "\<not> isGenerating t"
    using c(1) by (simp add: t render_def isGenerating_def closeActiveSource_def complete_source_def isCurrent_def Let_def)
qed

section \<open>Properties\<close>

text \<open>
  C5. Stopping is final. After the user stops an answer nothing that arrives later for it, headers, pieces of a
  stream, its end or its failure, a timer or a whole response, changes the conversation, shows an error or
  starts streaming again: the page shows the messages as at the time of stopping until the next
  rendering and from then on those it produced, in which the last answer is no longer pending.
\<close>

theorem stop_is_final:
  assumes "chat_reach env s" "mounted s"
    and "chat_runs env (stopGeneration tk s) es = Some t" "list_all (\<lambda>(tk, ev). is_background ev) es"
  shows "\<not> isGenerating t \<and> toasts t = toasts (stopGeneration tk s)
    \<and> (messages t = messages s \<and> queued t = queued (stopGeneration tk s)
       \<or> (\<exists>now. messages t = messages (render now (stopGeneration tk s)) \<and> queued t = []
            \<and> (messages t \<noteq> [] \<longrightarrow> \<not> isPendingAssistantMessage (last (messages t)))))"
proof -
  have "quiet (stopGeneration tk s)" using stop_quiet cm.reach_inv[OF assms(1)] assms(2) by blast
  from quiet_runs[OF this assms(3,4)] have q: "quiet t" "settled_as (stopGeneration tk s) t" by blast+
  have "\<not> isGenerating t" using q(1) quiet_idle[OF q(1)] by (simp add: isGenerating_def quiet_def)
  moreover have "messages (stopGeneration tk s) = messages s" by (simp add: stopGeneration_def Let_def)
  moreover have r: "toasts (render now u) = toasts u" "queued (render now u) = []" for now u by (simp_all add: render_def)
  ultimately show ?thesis using q(2) stop_render[of _ tk s]
    by (auto simp: settled_as_def view_def)
qed

definition demo_config :: "bool \<Rightarrow> PlaygroundConfig" where
  "demo_config stream = \<lparr>cfg_model = js ''m'', cfg_group = js ''g'', cfg_temperature = 1, cfg_top_p = 1, cfg_max_tokens = 10,
     cfg_frequency_penalty = 0, cfg_presence_penalty = 0, cfg_seed = None, cfg_stream = stream\<rparr>"

definition demo_enabled :: ParameterEnabled where
  "demo_enabled = \<lparr>en_temperature = True, en_top_p = False, en_max_tokens = False, en_frequency_penalty = False,
     en_presence_penalty = False, en_seed = False\<rparr>"

definition delta_json :: "string \<Rightarrow> jsval" where
  "delta_json c = JObj [(js ''choices'', JArr [JObj [(js ''delta'', JObj [(js ''content'', JStr (js c))])]])]"

definition demo_chat_env :: chat_env where
  "demo_chat_env = \<lparr>parseJson = (\<lambda>s. if s = [65] then Some (delta_json ''Hel'') else if s = [66] then Some (delta_json ''lo'') else None),
     translation = (\<lambda>s. s)\<rparr>"

definition demo_tick :: "bool \<Rightarrow> rat \<Rightarrow> tick" where
  "demo_tick e now = \<lparr>eager = e, clock = now\<rparr>"

definition demo_start :: "(tick \<times> chat_event) list" where
  "demo_start = [(demo_tick False 1, SendMessage (demo_config True) demo_enabled ([1], [2]) ([3], [4]) (js ''Hi'')),
     (demo_tick False 2, Render), (demo_tick False 3, StreamEvent (HeadersResolved (1, 1) False)),
     (demo_tick False 4, StreamEvent (SourceMessage 0 [65]))]"

definition demo_chat :: chat where
  "demo_chat = the (chat_runs demo_chat_env (new_chat []) demo_start)"

lemma demo_reach: "chat_reach demo_chat_env demo_chat"
proof -
  have "chat_runs demo_chat_env (new_chat []) demo_start \<noteq> None" by code_simp
  then have "chat_runs demo_chat_env (new_chat []) demo_start = Some demo_chat" by (auto simp: demo_chat_def)
  moreover have "chat_init (new_chat [])" by (auto simp: chat_init_def)
  ultimately show ?thesis by (intro reach_runs[OF reach_init])
qed

theorem stop_is_final_witness:
  "\<exists>t. chat_runs demo_chat_env (stopGeneration (demo_tick True 5) demo_chat)
        [(demo_tick False 6, Render), (demo_tick False 7, StreamEvent (SourceMessage 0 [66])), (demo_tick False 8, Render)] = Some t
     \<and> \<not> isGenerating t \<and> map getMessageContent (messages t) = [js ''Hi'', js ''Hel'']"
proof -
  let ?es = "[(demo_tick False 6, Render), (demo_tick False 7, StreamEvent (SourceMessage 0 [66])), (demo_tick False 8, Render)]"
  let ?r = "chat_runs demo_chat_env (stopGeneration (demo_tick True 5) demo_chat) ?es"
  have e: "?r \<noteq> None" "map getMessageContent (messages (the ?r)) = [js ''Hi'', js ''Hel'']" "mounted demo_chat" by code_simp+
  then obtain t where t: "?r = Some t" by auto
  have "list_all (\<lambda>(tk, ev). is_background ev) ?es" by simp
  from stop_is_final[OF demo_reach e(3) t this] t e(2) show ?thesis by auto
qed

text \<open>
  When React does not run the updater at once, the text that was buffered at the time of stopping is
  lost: its update belongs to the stopped generation by the time it runs.
\<close>

lemma stop_drops_buffered_text:
  "map getMessageContent (messages (render 6 (stopGeneration (demo_tick False 5) demo_chat))) = [js ''Hi'', []]
   \<and> map getMessageContent (messages (render 6 (stopGeneration (demo_tick True 5) demo_chat))) = [js ''Hi'', js ''Hel'']"
  by code_simp

text \<open>
  C12. The page says it is generating exactly while an answer is outstanding. In every state it can
  reach, the request flag is up if and only if the request of the current generation is either waiting
  for headers or streaming in the controller, or a pending request without a stream, never both; the
  streaming flag is never up without it.
\<close>

theorem generating_is_outstanding:
  assumes "chat_reach env s" "mounted s"
  shows "(isGenerating s \<longleftrightarrow> isRequesting s)
    \<and> (isRequesting s \<longleftrightarrow> live_client (ctl s) = Some (requestGeneration s)
         \<or> requestGeneration s \<in> fst ` set (completions s))
    \<and> \<not> (live_client (ctl s) = Some (requestGeneration s) \<and> requestGeneration s \<in> fst ` set (completions s))"
proof -
  have c: "core_ok (ctl s) (requestGeneration s) (chunkGeneration s) (flushTimer s) (isRequesting s) (gens s) True"
    using cm.reach_inv[OF assms(1)] assms(2) by (simp add: chat_inv_def)
  have g: "set (gens s) = fst ` set (completions s)" by (simp add: gens_def)
  have "isRequesting s" if "isStreaming (ctl s)"
  proof -
    from that c obtain i where "active_source (ctl s) = Some i" by (auto simp: core_ok_def flag_right_def)
    then have "live_client (ctl s) \<noteq> None" by (simp add: live_client_def split: option.splits)
    with c show ?thesis by (auto simp: core_ok_def)
  qed
  with c show ?thesis unfolding isGenerating_def g[symmetric] by (auto simp: core_ok_def)
qed

theorem generating_is_outstanding_witness:
  "mounted demo_chat \<and> isRequesting demo_chat \<and> isGenerating demo_chat \<and> live_client (ctl demo_chat) = Some 1"
proof -
  have "mounted demo_chat" "live_client (ctl demo_chat) = Some 1" "requestGeneration demo_chat = 1" by code_simp+
  with generating_is_outstanding[OF demo_reach] show ?thesis by simp
qed


definition demo_sent :: chat where
  "demo_sent = chat_step demo_chat_env (new_chat [])
     (demo_tick False 1, SendMessage (demo_config True) demo_enabled ([1], [2]) ([3], [4]) (js ''Hi''))"

definition demo_open :: chat where
  "demo_open = chat_step demo_chat_env demo_sent
     (demo_tick False 3, StreamEvent (HeadersResolved (stream_generation (ctl demo_sent), requestGeneration demo_sent) False))"

definition demo_answer :: "(tick \<times> chat_event) list" where
  "demo_answer = [(demo_tick False 4, StreamEvent (SourceMessage 0 [65])), (demo_tick False 5, Render),
     (demo_tick True 6, FlushTimer), (demo_tick False 7, StreamEvent (SourceMessage 0 [66]))]"

lemma demo_answer_runs: "chat_runs demo_chat_env demo_open demo_answer \<noteq> None"
  by code_simp

lemma demo_answer_pieces:
  "pieces demo_chat_env 0 demo_answer = [js ''Hel'', js ''lo'']"
  "list_all (\<lambda>(tk, ev). answer_event demo_chat_env 0 ev) demo_answer"
  by code_simp+

lemma demo_text: "fresh_text [js ''Hel'', js ''lo'']" "concat [js ''Hel'', js ''lo''] = js ''Hello''"
  "visibleContent (parseThinkTags (js ''Hello'')) = js ''Hello''"
  by code_simp+


end
