(* ===== verification/Spec2Isabelle.thy ===== *)
theory Spec2Isabelle
  imports Status_Code_Rules Binding_Lifecycle Text_Test_Lifecycle Http_Client Flow_Graph Web_Handoff Playground_State Playground_Chat
begin

text \<open>
  A verification development for the client programs of the gateway: the console (\<open>src/web/src\<close>) and
  the mini program (\<open>src/miniapp/src\<close>), both in TypeScript.

  \<^bold>\<open>The parts and how they interact.\<close> The mini program signs a user in, shows the account, sells
  plans and runs billed text tests. What it cannot do itself it hands to the console: a link with a
  one-time ticket opens the binding or the checkout page there. The console keeps a signed-in
  session per browser, shared by its tabs, behind an HTTP client that refreshes it; on top stand the
  dashboard, the rules of the administrator and the playground, a chat with the models.

  \<^bold>\<open>Theories and sources.\<close> Definitions carry the names of the source where they can.
  \<^item> \<open>Js_Prelude\<close>, \<open>Js_Collections\<close>, \<open>Js_Uri\<close>: the part of JavaScript the sources use: strings as
    lists of UTF-16 units, numbers, untyped values, \<open>Map\<close> and \<open>Set\<close> in insertion order,
    \<open>encodeURIComponent\<close>.
  \<^item> \<open>Machines\<close>: event-driven components, their invariants, final phases and refinement.
  \<^item> \<open>Status_Code_Rules\<close>: \<open>web/src/lib/http-status-code-rules.ts\<close>. The parser accepts exactly the valid
    lists, the merged ranges are canonical, and what is printed is read back.
  \<^item> \<open>Miniapp_Session\<close>, \<open>Miniapp_Api\<close>, \<open>Miniapp_Auth\<close>, \<open>Miniapp_Services\<close>: \<open>lib/session.ts\<close>,
    \<open>lib/pending-text-test.ts\<close>, \<open>lib/api.ts\<close>, \<open>features/auth\<close> with \<open>pages/login/recovery.ts\<close>, and the services
    for commerce, tokens, account, text tests and legal texts. Requests are bounded and carry the
    session's token; a session and a pending ticket exclude each other; links are opened on the
    trusted origin only; answers are validated.
  \<^item> \<open>Binding_Lifecycle\<close>, \<open>Text_Test_Lifecycle\<close>: the controllers of two pages. The state is the private
    fields and the calls under way, a step is a method up to its next \<open>await\<close>. The first refines a
    specification of its phases and stops for good; the second starts a billed test once.
  \<^item> \<open>Auth_Session\<close>: \<open>stores/auth-store.ts\<close>, \<open>lib/auth-session.ts\<close>, \<open>lib/auth-session-sync.ts\<close>. A refresh
    changes only the session it was sent for, whatever happens meanwhile; signing out reaches the
    tabs of the session.
  \<^item> \<open>Http_Client\<close>: \<open>lib/http-client.ts\<close>, \<open>lib/server-error-message.ts\<close>, signing out of \<open>features/auth/api.ts\<close>.
    A call sends at most two requests; equal requests are shared within one session.
  \<^item> \<open>Web_Handoff\<close>: the tickets and pages of \<open>features/miniapp-bind\<close> and \<open>features/miniapp-checkout\<close>, and
    \<open>features/auth/lib/auth-redirect.ts\<close>. It composes with the mini program: the
    checkout page takes exactly the ticket of the link opened there.
  \<^item> \<open>Flow_Graph\<close>: \<open>features/dashboard/lib/flow.ts\<close>. Between the first and the last stage, what flows
    into a node flows out of it, for names without a NUL character; the stages add up to the
    total; limits and masking do what they say.
  \<^item> \<open>Playground_Messages\<close>, \<open>Playground_Storage\<close>, \<open>Playground_State\<close>, \<open>Stream_Controller\<close>, \<open>Playground_Chat\<close>:
    \<open>features/playground\<close>, its \<open>lib/message\<close>, \<open>lib/storage\<close>, \<open>lib/state\<close>, \<open>lib/streaming\<close> and four hooks. Think tags are
    separated without loss; what is loaded is bounded; a conversation survives leaving the page; a
    stream ends once and only for the request that is current; the page shows the whole streamed
    answer, and nothing after it was stopped.

  \<^bold>\<open>Interfaces.\<close> \<open>event_machine\<close>, \<open>stopping_machine\<close> and \<open>refining_machine\<close> are interpreted on the
  controllers and pages, \<open>response_reader\<close> on the validators of the services, \<open>stream_provider\<close> on the stream
  controller.

  \<^bold>\<open>Parameters.\<close> The network, the clock, random values, \<open>URL\<close>, \<open>JSON\<close>, the browser's locks and storage,
  the locale and the moment React runs an updater are arguments. Theorems that need more of them
  than their type say so in a hypothesis.

  \<^bold>\<open>Bounds and termination.\<close> Every function is total and no fuel is used: loops run over lists or over
  the delays of a retry, and the scans of texts shrink what is left. Numbers the code adds are
  rationals or integers; the sources add integers JavaScript represents exactly.

  \<^bold>\<open>Limits of the statements.\<close> That the page shows the whole answer holds if no buffered text
  starts with all of the text before it; \<open>repeated_piece_dropped\<close> shows why. That a conversation survives
  leaving assumes that no update was waiting when it was loaded, that all updates are rendered
  when the page is left, and that its text fits: \<open>saved_messages_load\<close> shows that a longer one is
  erased.

  \<^bold>\<open>Not modelled.\<close> The server (\<open>main.go\<close>, \<open>router\<close>, \<open>controller\<close>, \<open>middleware\<close>, \<open>model\<close>, \<open>service\<close>, \<open>relay\<close>, \<open>relaykit\<close>
  and the packages they use) is Go code on a database, a web framework and providers, and is
  a parameter here. Markup, styles, generated routes and translations have the meaning the
  rendering library gives them. Formatting of numbers, money and dates, the parameter controls of the
  playground and the colours of charts depend on the browser's number printing and locale data. The
  forms and tables of the remaining features of the console, the desktop shell and the
  packaging are left out; none of the modelled parts relies on them.
\<close>

end
